theory Spec2Isabelle
  imports Complex_Main
begin

section \<open>Return codes, faults and arrays\<close>

text \<open>
  The interface layer \<^verbatim>\<open>sdpi.c\<close> is embedded function by function.  \<^verbatim>\<open>SCIP_Real\<close> is
  modelled by \<^typ>\<open>real\<close> (rounding is not modelled), a C \<^verbatim>\<open>int\<close> by \<^typ>\<open>int\<close>, a C array by a
  list whose length is the allocated capacity.  Every function returns \<open>Inl\<close> of a fault or
  \<open>Inr\<close> of its result: a fault is a return code other than \<^verbatim>\<open>SCIP_OKAY\<close>, a failed
  \<^verbatim>\<open>assert\<close>, an array access outside the allocated capacity, or the overflow of a signed
  integer (the last two are undefined behaviour in C).  Assertions on pointers being
  non-NULL are not modelled.
\<close>

datatype SCIP_RETCODE = SCIP_OKAY | SCIP_ERROR | SCIP_NOMEMORY | SCIP_LPERROR | SCIP_PARAMETERUNKNOWN

datatype fault = Returned SCIP_RETCODE | AssertFailed | OutOfBounds | SignedOverflow

type_synonym 'a res = "fault + 'a"

text \<open>
  A C \<^verbatim>\<open>int\<close> has 32 bits.  The counters that \<^verbatim>\<open>SCIPsdpiSolve\<close> increments from call to call
  (\<open>sdpid\<close>, \<open>ninfeasible\<close>, \<open>nallfixed\<close>, \<open>nonevarsdp\<close>) and the sums of the statistics are
  computed with \<open>int_add\<close>, which reports an overflow; indices and sizes, which are bounded by
  the sizes of the arrays, are computed in \<^typ>\<open>int\<close> directly.
\<close>

definition INT_MAX :: int where
  "INT_MAX = 2 ^ 31 - 1"

definition INT_MIN :: int where
  "INT_MIN = - (2 ^ 31)"

definition bnd :: "'a res \<Rightarrow> ('a \<Rightarrow> 'b res) \<Rightarrow> 'b res" where
  "bnd m f = (case m of Inl e \<Rightarrow> Inl e | Inr x \<Rightarrow> f x)"

lemma bnd_cong [fundef_cong]:
  "m = m' \<Longrightarrow> (\<And>x. m' = Inr x \<Longrightarrow> f x = f' x) \<Longrightarrow> bnd m f = bnd m' f'"
  by (cases m') (auto simp: bnd_def)

lemma bnd_InrE: "bnd m f = Inr y \<Longrightarrow> (\<And>x. m = Inr x \<Longrightarrow> f x = Inr y \<Longrightarrow> P) \<Longrightarrow> P"
  by (cases m) (auto simp: bnd_def)

definition assert_that :: "bool \<Rightarrow> unit res" where
  "assert_that b = (if b then Inr () else Inl AssertFailed)"

definition SCIP_CALL :: "SCIP_RETCODE \<Rightarrow> unit res" where
  "SCIP_CALL r = (if r = SCIP_OKAY then Inr () else Inl (Returned r))"

definition BMS_CALL :: "bool \<Rightarrow> unit res" where
  "BMS_CALL ok = (if ok then Inr () else Inl (Returned SCIP_NOMEMORY))"

definition int_add :: "int \<Rightarrow> int \<Rightarrow> int res" where
  "int_add x y = (if INT_MIN \<le> x + y \<and> x + y \<le> INT_MAX then Inr (x + y) else Inl SignedOverflow)"

definition rd :: "'a list \<Rightarrow> int \<Rightarrow> 'a res" where
  "rd xs i = (if 0 \<le> i \<and> i < int (length xs) then Inr (xs ! nat i) else Inl OutOfBounds)"

definition wr :: "'a list \<Rightarrow> int \<Rightarrow> 'a \<Rightarrow> 'a list res" where
  "wr xs i v = (if 0 \<le> i \<and> i < int (length xs) then Inr (xs[nat i := v]) else Inl OutOfBounds)"

text \<open>\<^verbatim>\<open>BMScopyMemoryArray(&dst[off], src, n)\<close>.\<close>

definition copy_array :: "'a list \<Rightarrow> int \<Rightarrow> 'a list \<Rightarrow> int \<Rightarrow> 'a list res" where
  "copy_array dst off src n =
     (if 0 \<le> off \<and> 0 \<le> n \<and> off + n \<le> int (length dst) \<and> n \<le> int (length src)
      then Inr (take (nat off) dst @ take (nat n) src @ drop (nat (off + n)) dst)
      else Inl OutOfBounds)"

text \<open>
  A \<^verbatim>\<open>for (i = a; i < n; i++)\<close> loop whose body may leave the loop (or the function) early:
  the body returns \<open>Brk\<close> to stop and \<open>Cont\<close> to go on.
\<close>

datatype 's ctl = Brk 's | Cont 's

function for_loop :: "int \<Rightarrow> int \<Rightarrow> (int \<Rightarrow> 's \<Rightarrow> 's ctl res) \<Rightarrow> 's \<Rightarrow> 's ctl res" where
  "for_loop i n body s =
     (if i < n
      then (case body i s of
              Inl e \<Rightarrow> Inl e
            | Inr (Brk s') \<Rightarrow> Inr (Brk s')
            | Inr (Cont s') \<Rightarrow> for_loop (i + 1) n body s')
      else Inr (Cont s))"
  by pat_completeness auto
termination
  by (relation "measure (\<lambda>(i, n, body, s). nat (n - i))") auto

declare for_loop.simps [simp del]

definition ctl_state :: "'s ctl \<Rightarrow> 's" where
  "ctl_state c = (case c of Brk s \<Rightarrow> s | Cont s \<Rightarrow> s)"

lemma for_loop_frame:
  "for_loop i n body s = Inr c \<Longrightarrow> (\<And>i s c. body i s = Inr c \<Longrightarrow> f (ctl_state c) = f s)
     \<Longrightarrow> f (ctl_state c) = f s"
proof (induction i n body s rule: for_loop.induct)
  case (1 i n body s)
  note step = "1.prems"(2)
  show ?case
  proof (cases "i < n")
    case False
    with "1.prems"(1) have "c = Cont s" by (simp add: for_loop.simps)
    then show ?thesis by (simp add: ctl_state_def)
  next
    case True
    show ?thesis
    proof (cases "body i s")
      case (Inl e)
      with True "1.prems"(1) show ?thesis by (simp add: for_loop.simps)
    next
      case (Inr c1)
      show ?thesis
      proof (cases c1)
        case (Brk s1)
        with Inr True "1.prems"(1) have "c = Brk s1" by (simp add: for_loop.simps)
        with step[OF Inr] Brk show ?thesis by simp
      next
        case (Cont s1)
        with Inr True "1.prems"(1) have "for_loop (i + 1) n body s1 = Inr c"
          by (simp add: for_loop.simps)
        from "1.IH"[OF True Inr Cont this step] step[OF Inr] Cont show ?thesis
          by (simp add: ctl_state_def)
      qed
    qed
  qed
qed

lemma for_loop_rel:
  "for_loop i n body s = Inr c \<Longrightarrow> (\<And>s. R s s) \<Longrightarrow> (\<And>a b c. R a b \<Longrightarrow> R b c \<Longrightarrow> R a c)
     \<Longrightarrow> (\<And>i s c. body i s = Inr c \<Longrightarrow> R s (ctl_state c)) \<Longrightarrow> R s (ctl_state c)"
proof (induction i n body s rule: for_loop.induct)
  case (1 i n body s)
  note rfl = "1.prems"(2) and trans = "1.prems"(3) and step = "1.prems"(4)
  show ?case
  proof (cases "i < n")
    case False
    with "1.prems"(1) have "c = Cont s" by (simp add: for_loop.simps)
    then show ?thesis by (simp add: ctl_state_def rfl)
  next
    case True
    show ?thesis
    proof (cases "body i s")
      case (Inl e)
      with True "1.prems"(1) show ?thesis by (simp add: for_loop.simps)
    next
      case (Inr c1)
      show ?thesis
      proof (cases c1)
        case (Brk s1)
        with Inr True "1.prems"(1) have "c = Brk s1" by (simp add: for_loop.simps)
        with step[OF Inr] Brk show ?thesis by simp
      next
        case (Cont s1)
        with Inr True "1.prems"(1) have "for_loop (i + 1) n body s1 = Inr c"
          by (simp add: for_loop.simps)
        from "1.IH"[OF True Inr Cont this rfl trans step] have "R s1 (ctl_state c)" .
        moreover from step[OF Inr] Cont have "R s s1" by (simp add: ctl_state_def)
        ultimately show ?thesis by (rule trans[rotated])
      qed
    qed
  qed
qed


lemma wr_InrE: "wr xs i v = Inr ys \<Longrightarrow> (0 \<le> i \<Longrightarrow> i < int (length xs) \<Longrightarrow> ys = xs[nat i := v] \<Longrightarrow> P) \<Longrightarrow> P"
  by (auto simp: wr_def split: if_splits)

lemma rd_InrE: "rd xs i = Inr y \<Longrightarrow> (0 \<le> i \<Longrightarrow> i < int (length xs) \<Longrightarrow> y = xs ! nat i \<Longrightarrow> P) \<Longrightarrow> P"
  by (auto simp: rd_def split: if_splits)

section \<open>The data of the interface\<close>

text \<open>
  Modelled from the spec: the Slater verdicts \<^verbatim>\<open>SCIP_SDPSLATER\<close> ("holds, does-not-hold,
  infeasible, unknown"); the type is declared in a header that is not part of the sources.
\<close>

datatype SCIP_SDPSLATER = SCIP_SDPSLATER_NOINFO | SCIP_SDPSLATER_NOT | SCIP_SDPSLATER_HOLDS | SCIP_SDPSLATER_INF

datatype SCIP_ONEVAR_STATUS = SCIP_ONEVAR_UNSOLVED | SCIP_ONEVAR_OPTIMAL | SCIP_ONEVAR_INFEASIBLE

text \<open>
  Modelled from the spec: the sentinel \<^verbatim>\<open>SCIP_INVALID\<close> and the growth constants
  \<^verbatim>\<open>SCIP_DEFAULT_MEM_ARRAYGROWINIT\<close>, \<^verbatim>\<open>SCIP_DEFAULT_MEM_ARRAYGROWFAC\<close> ("factor > 1, plus
  fixed increment") are macros of the SCIP library, which is not part of the sources; they get
  the values the library gives them.
\<close>

definition SCIP_INVALID :: real where
  "SCIP_INVALID = 10 ^ 99"

definition SCIP_DEFAULT_MEM_ARRAYGROWINIT :: int where
  "SCIP_DEFAULT_MEM_ARRAYGROWINIT = 4"

definition SCIP_DEFAULT_MEM_ARRAYGROWFAC :: real where
  "SCIP_DEFAULT_MEM_ARRAYGROWFAC = 12 / 10"

definition MIN_GAPTOL :: real where
  "MIN_GAPTOL = 1 / 10 ^ 10"

text \<open>
  The backend solver \<^verbatim>\<open>sdpi->sdpisolver\<close> is an external collaborator.  It is seen through its
  query functions only: the record below holds what the queries answer after the last
  load-and-solve call, together with the return codes of the queries that have one.
\<close>

datatype solvercall = LoadAndSolve_call | LoadAndSolveWithPenalty_call real bool bool

record sdpisolver =
  solverinfinity :: real
  SolverIsInfinity :: "real \<Rightarrow> bool"
  WasSolved :: bool
  IsAcceptable :: bool
  IsTimelimExc :: bool
  IsOptimal :: bool
  IsDualInfeasible :: bool
  IsDualUnbounded :: bool
  IsPrimalUnbounded :: bool
  GetObjval_ret :: SCIP_RETCODE
  GetObjval :: real
  GetDualSol_ret :: SCIP_RETCODE
  GetDualSol :: "real list"
  GetTime_ret :: SCIP_RETCODE
  GetTime :: real
  GetIterations_ret :: SCIP_RETCODE
  GetIterations :: int
  GetSdpCalls_ret :: SCIP_RETCODE
  GetSdpCalls :: int
  solvergaptol :: real
  solvercounter :: int
  solvercalls :: "solvercall list"

text \<open>
  \<open>solverinfinity\<close> and \<open>SolverIsInfinity\<close> are what \<^verbatim>\<open>SCIPsdpiSolverInfinity\<close> and
  \<^verbatim>\<open>SCIPsdpiSolverIsInfinity\<close> answer.
  \<open>solvergaptol\<close> is the gap tolerance last set in the backend and \<open>solvercounter\<close> its
  problem counter.  \<open>solvercalls\<close> is not a field of the program: it lists the load-and-solve
  calls the interface has made so far, the latest first, \<^verbatim>\<open>SCIPsdpiSolverLoadAndSolve\<close> as
  \<open>LoadAndSolve_call\<close> and \<^verbatim>\<open>SCIPsdpiSolverLoadAndSolveWithPenalty\<close> with its arguments
  \<open>penaltyparam\<close>, \<open>withobj\<close> and \<open>rbound\<close>, so that the results of the backend can be given
  as a sequence (see \<open>env\<close> below) and the calls can be counted.
\<close>

record sdpi =
  sdpisolver :: sdpisolver
  nvars :: int
  maxnvars :: int
  nsdpblocks :: int
  sdpblocksizes :: "int list"
  sdpnblockvars :: "int list"
  obj :: "real list"
  lb :: "real list"
  ub :: "real list"
  isintegral :: "bool list"
  sdpconstnnonz :: int
  sdpconstnblocknonz :: "int list"
  sdpconstrow :: "int list list"
  sdpconstcol :: "int list list"
  sdpconstval :: "real list list"
  sdpnnonz :: int
  sdpnblockvarnonz :: "int list list"
  sdpvar :: "int list list"
  sdprow :: "int list list list"
  sdpcol :: "int list list list"
  sdpval :: "real list list list"
  nlpcons :: int
  maxnlpcons :: int
  lplhs :: "real list"
  lprhs :: "real list"
  nactivelpcons :: int
  lpnnonz :: int
  maxlpnnonz :: int
  lpbeg :: "int list"
  lpind :: "int list"
  lpval :: "real list"
  indchanges :: "int list list"
  nremovedinds :: "int list"
  blockindchanges :: "int list"
  nremovedblocks :: int
  sdpilpindchanges :: "int list"
  sdpilplhs :: "real list"
  sdpilprhs :: "real list"
  sdpilb :: "real list"
  sdpiub :: "real list"
  sdpilbrowidx :: "int list"
  sdpiubrowidx :: "int list"
  sdpilpbeg :: "int list"
  sdpilpind :: "int list"
  sdpilpval :: "real list"
  ninfeasible :: int
  nallfixed :: int
  nonevarsdp :: int
  slatercheck :: int
  sdpid :: int
  niterations :: int
  opttime :: real
  nsdpcalls :: int
  solved :: bool
  penalty :: bool
  infeasible :: bool
  allfixed :: bool
  epsilon :: real
  gaptol :: real
  feastol :: real
  penaltyparam :: real
  maxpenaltyparam :: real
  npenaltyincr :: int
  peninfeasadjust :: real
  bestbound :: real
  primalslater :: SCIP_SDPSLATER
  dualslater :: SCIP_SDPSLATER
  solvedonevarsdp :: SCIP_ONEVAR_STATUS
  onevarsdpobjval :: real
  onevarsdpoptval :: real
  onevarsdpidx :: int
  onevarsdpcertval :: real
  allfixedeigenvecs :: "real list list option"
  onevarsdpcertvec :: "real list option"
  onevarsdpcertsize :: int

definition SCIPsdpiInfinity :: "sdpi \<Rightarrow> real" where
  "SCIPsdpiInfinity s = solverinfinity (sdpisolver s)"

definition SCIPsdpiIsInfinity :: "sdpi \<Rightarrow> real \<Rightarrow> bool" where
  "SCIPsdpiIsInfinity s val = (val \<le> - SCIPsdpiInfinity s \<or> val \<ge> SCIPsdpiInfinity s)"

section \<open>Storage of the LP rows\<close>

text \<open>
  \<^verbatim>\<open>calcGrowSize\<close>.  The conversion \<^verbatim>\<open>(int)\<close> of a \<^verbatim>\<open>double\<close> cuts off the fraction.  For a value
  outside the range of \<^verbatim>\<open>int\<close> the conversion is undefined in C; the code counts on a result
  that is not above \<open>oldsize\<close> ("second condition checks against overflow"), and the model
  gives \<open>INT_MIN\<close>, the result of the conversion on x86 processors.
\<close>

definition double_to_int :: "real \<Rightarrow> int" where
  "double_to_int x =
     (let t = (if x \<ge> 0 then \<lfloor>x\<rfloor> else \<lceil>x\<rceil>)
      in if INT_MIN \<le> t \<and> t \<le> INT_MAX then t else INT_MIN)"

function calcGrowSize_loop :: "int \<Rightarrow> int \<Rightarrow> int \<Rightarrow> int \<Rightarrow> int \<times> int" where
  "calcGrowSize_loop initsize num oldsize sz =
     (if sz < num \<and> sz > oldsize
      then calcGrowSize_loop initsize num sz
             (double_to_int (SCIP_DEFAULT_MEM_ARRAYGROWFAC * real_of_int sz + real_of_int initsize))
      else (oldsize, sz))"
  by pat_completeness auto
termination
  by (relation "measure (\<lambda>(initsize, num, oldsize, sz). nat (num - oldsize))") auto

declare calcGrowSize_loop.simps [simp del]

definition calcGrowSize :: "int \<Rightarrow> int \<Rightarrow> int res" where
  "calcGrowSize initsize num =
     bnd (assert_that (initsize \<ge> 0)) (\<lambda>_.
     bnd (assert_that (num \<ge> 0)) (\<lambda>_.
       let initsize' = max initsize SCIP_DEFAULT_MEM_ARRAYGROWINIT;
           (oldsize, sz) = calcGrowSize_loop initsize' num (initsize' - 1) initsize';
           sz' = (if sz \<le> oldsize then num else sz)
       in bnd (assert_that (sz' \<ge> initsize')) (\<lambda>_.
          bnd (assert_that (sz' \<ge> num)) (\<lambda>_. Inr sz'))))"

text \<open>
  \<^verbatim>\<open>BMSreallocBlockMemoryArray\<close>: the array keeps its entries and gets \<open>newsize\<close> cells.  The
  new cells are not initialised in C; the model fills them with \<open>d\<close>.
\<close>

definition realloc_array :: "'a list \<Rightarrow> int \<Rightarrow> 'a \<Rightarrow> 'a list" where
  "realloc_array xs newsize d = take (nat newsize) xs @ replicate (nat newsize - length xs) d"

text \<open>
  \<open>memok\<close> tells whether the allocations of this call succeed; when they do not, the first
  \<^verbatim>\<open>BMS_CALL\<close> returns \<^verbatim>\<open>SCIP_NOMEMORY\<close>.
\<close>

definition ensureLPDataMemory :: "bool \<Rightarrow> sdpi \<Rightarrow> int \<Rightarrow> int \<Rightarrow> sdpi res" where
  "ensureLPDataMemory memok s nlpcons' nlpnonz =
     bnd (if nlpcons' > maxnlpcons s
          then bnd (calcGrowSize (maxnlpcons s) nlpcons') (\<lambda>newsize.
               bnd (BMS_CALL memok) (\<lambda>_.
               Inr (s\<lparr>lplhs := realloc_array (lplhs s) newsize 0,
                      lprhs := realloc_array (lprhs s) newsize 0,
                      lpbeg := realloc_array (lpbeg s) newsize 0,
                      sdpilpindchanges := realloc_array (sdpilpindchanges s) newsize 0,
                      sdpilplhs := realloc_array (sdpilplhs s) newsize 0,
                      sdpilprhs := realloc_array (sdpilprhs s) newsize 0,
                      sdpilpbeg := realloc_array (sdpilpbeg s) newsize 0,
                      maxnlpcons := newsize\<rparr>)))
          else Inr s) (\<lambda>s1.
     if nlpnonz > maxlpnnonz s1
     then bnd (calcGrowSize (maxlpnnonz s1) nlpnonz) (\<lambda>newsize.
          bnd (BMS_CALL memok) (\<lambda>_.
          Inr (s1\<lparr>lpind := realloc_array (lpind s1) newsize 0,
                  lpval := realloc_array (lpval s1) newsize 0,
                  sdpilpind := realloc_array (sdpilpind s1) newsize 0,
                  sdpilpval := realloc_array (sdpilpval s1) newsize 0,
                  maxlpnnonz := newsize\<rparr>)))
     else Inr s1)"

definition SCIPsdpiAddLPRows ::
  "bool \<Rightarrow> sdpi \<Rightarrow> int \<Rightarrow> real list \<Rightarrow> real list \<Rightarrow> int \<Rightarrow> int list \<Rightarrow> int list \<Rightarrow> real list \<Rightarrow> sdpi res" where
  "SCIPsdpiAddLPRows memok s nrows lhs rhs nnonz beg ind val =
     (if nrows = 0 then Inr s
      else
        bnd (assert_that (nnonz \<ge> 0)) (\<lambda>_.
        bnd (if nlpcons s = 0
             then
               bnd (assert_that (lpnnonz s = 0)) (\<lambda>_.
               bnd (ensureLPDataMemory memok s nrows nnonz) (\<lambda>s1.
               bnd (copy_array (lplhs s1) 0 lhs nrows) (\<lambda>lplhs'.
               bnd (copy_array (lprhs s1) 0 rhs nrows) (\<lambda>lprhs'.
               bnd (copy_array (lpbeg s1) 0 beg nrows) (\<lambda>lpbeg'.
               bnd (copy_array (lpind s1) 0 ind nnonz) (\<lambda>lpind'.
               bnd (copy_array (lpval s1) 0 val nnonz) (\<lambda>lpval'.
               bnd (assert_that (list_all (\<lambda>v. v \<noteq> 0) (take (nat nnonz) val)
                      \<and> list_all (\<lambda>j. 0 \<le> j \<and> j < nvars s1) (take (nat nnonz) ind))) (\<lambda>_.
               Inr (s1\<lparr>lplhs := lplhs', lprhs := lprhs', lpbeg := lpbeg', lpind := lpind',
                       lpval := lpval', nlpcons := nrows, lpnnonz := nnonz,
                       nactivelpcons := - 1\<rparr>)))))))))
             else
               bnd (ensureLPDataMemory memok s (nlpcons s + nrows) (lpnnonz s + nnonz)) (\<lambda>s1.
               bnd (copy_array (lplhs s1) (nlpcons s1) lhs nrows) (\<lambda>lplhs'.
               bnd (copy_array (lprhs s1) (nlpcons s1) rhs nrows) (\<lambda>lprhs'.
               bnd (copy_array (lpbeg s1) (nlpcons s1) beg nrows) (\<lambda>lpbeg'.
               bnd (assert_that (list_all (\<lambda>j. 0 \<le> j \<and> j < nvars s1) (take (nat nnonz) ind))) (\<lambda>_.
               bnd (copy_array (lpind s1) (lpnnonz s1) ind nnonz) (\<lambda>lpind'.
               bnd (copy_array (lpval s1) (lpnnonz s1) val nnonz) (\<lambda>lpval'.
               Inr (s1\<lparr>lplhs := lplhs', lprhs := lprhs', lpbeg := lpbeg', lpind := lpind',
                       lpval := lpval', nlpcons := nlpcons s1 + nrows,
                       lpnnonz := lpnnonz s1 + nnonz, nactivelpcons := - 1\<rparr>))))))))) (\<lambda>s2.
        Inr (s2\<lparr>solved := False, infeasible := False, nsdpcalls := 0, niterations := 0,
                opttime := 0\<rparr>))))"

text \<open>The two shifting loops of \<^verbatim>\<open>SCIPsdpiDelLPRows\<close>.\<close>

definition shift_row :: "int \<Rightarrow> int \<Rightarrow> sdpi \<Rightarrow> sdpi ctl res" where
  "shift_row deletedrows i s =
     bnd (rd (lplhs s) i) (\<lambda>l.
     bnd (wr (lplhs s) (i - deletedrows) l) (\<lambda>lplhs'.
     bnd (rd (lprhs s) i) (\<lambda>r.
     bnd (wr (lprhs s) (i - deletedrows) r) (\<lambda>lprhs'.
     bnd (rd (lpbeg s) i) (\<lambda>b.
     bnd (wr (lpbeg s) (i - deletedrows) b) (\<lambda>lpbeg'.
     Inr (Cont (s\<lparr>lplhs := lplhs', lprhs := lprhs', lpbeg := lpbeg'\<rparr>))))))))"

definition shift_ind :: "int \<Rightarrow> int \<Rightarrow> sdpi \<Rightarrow> sdpi ctl res" where
  "shift_ind deletednonz i s =
     bnd (rd (lpind s) i) (\<lambda>c.
     bnd (wr (lpind s) (i - deletednonz) c) (\<lambda>lpind'.
     Inr (Cont (s\<lparr>lpind := lpind'\<rparr>))))"

definition SCIPsdpiDelLPRows :: "sdpi \<Rightarrow> int \<Rightarrow> int \<Rightarrow> sdpi res" where
  "SCIPsdpiDelLPRows s firstrow lastrow =
     bnd (assert_that (firstrow \<ge> 0)) (\<lambda>_.
     bnd (assert_that (firstrow \<le> lastrow)) (\<lambda>_.
     bnd (assert_that (lastrow < nlpcons s)) (\<lambda>_.
     if firstrow = 0 \<and> lastrow = nlpcons s - 1
     then Inr (s\<lparr>nlpcons := 0, lpnnonz := 0, nactivelpcons := - 1,
                 solved := False, infeasible := False, allfixed := False,
                 nsdpcalls := 0, niterations := 0, opttime := 0\<rparr>)
     else
       let deletedrows = lastrow - firstrow + 1 in
       bnd (for_loop (lastrow + 1) (nlpcons s) (shift_row deletedrows) s) (\<lambda>c1.
       let s1 = ctl_state c1 in
       bnd (if lastrow = nlpcons s1 then Inr (lpnnonz s1) else rd (lpbeg s1) (lastrow + 1)) (\<lambda>nextbeg.
       bnd (rd (lpbeg s1) firstrow) (\<lambda>begfirst.
       let deletednonz = nextbeg - begfirst + 1 in
       bnd (for_loop nextbeg (lpnnonz s1) (shift_ind deletednonz) s1) (\<lambda>c2.
       let s2 = ctl_state c2 in
       Inr (s2\<lparr>nlpcons := nlpcons s2 - deletedrows, lpnnonz := lpnnonz s2 - deletednonz,
               nactivelpcons := - 1,
               solved := False, infeasible := False, allfixed := False,
               nsdpcalls := 0, niterations := 0, opttime := 0\<rparr>))))))))"

text \<open>
  \<^verbatim>\<open>SCIPsdpiDelLPRowset\<close>: the loop state is the interface, the array \<open>dstat\<close> and the counter
  \<open>deletedrows\<close>.
\<close>

definition delrowset_step :: "int \<Rightarrow> sdpi \<times> int list \<times> int \<Rightarrow> (sdpi \<times> int list \<times> int) ctl res" where
  "delrowset_step i st =
     (case st of (s, dstat, deletedrows) \<Rightarrow>
        bnd (rd dstat i) (\<lambda>d.
        if d = 1
        then bnd (SCIPsdpiDelLPRows s (i - deletedrows) (i - deletedrows)) (\<lambda>s'.
             bnd (wr dstat i (- 1)) (\<lambda>dstat'.
             Inr (Cont (s', dstat', deletedrows + 1))))
        else bnd (wr dstat i (i - deletedrows)) (\<lambda>dstat'.
             Inr (Cont (s, dstat', deletedrows)))))"

definition SCIPsdpiDelLPRowset :: "sdpi \<Rightarrow> int list \<Rightarrow> (sdpi \<times> int list) res" where
  "SCIPsdpiDelLPRowset s dstat =
     (let oldnlpcons = nlpcons s in
      bnd (for_loop 0 oldnlpcons delrowset_step (s, dstat, 0)) (\<lambda>c.
      case ctl_state c of (s1, dstat', deletedrows) \<Rightarrow>
        Inr (s1\<lparr>solved := False, infeasible := False, allfixed := False,
                nsdpcalls := 0, niterations := 0, opttime := 0\<rparr>, dstat')))"

definition chgobj_step :: "int list \<Rightarrow> real list \<Rightarrow> int \<Rightarrow> sdpi \<Rightarrow> sdpi ctl res" where
  "chgobj_step ind newobj i s =
     bnd (rd ind i) (\<lambda>j.
     bnd (assert_that (0 \<le> j \<and> j < nvars s)) (\<lambda>_.
     bnd (rd newobj i) (\<lambda>c.
     bnd (wr (obj s) j c) (\<lambda>obj'.
     Inr (Cont (s\<lparr>obj := obj'\<rparr>))))))"

definition SCIPsdpiChgObj :: "sdpi \<Rightarrow> int \<Rightarrow> int list \<Rightarrow> real list \<Rightarrow> sdpi res" where
  "SCIPsdpiChgObj s nvars' ind newobj =
     bnd (for_loop 0 nvars' (chgobj_step ind newobj) s) (\<lambda>c.
     Inr ((ctl_state c)\<lparr>solved := False, nsdpcalls := 0, niterations := 0, opttime := 0\<rparr>))"

definition chgbounds_step :: "int list \<Rightarrow> real list \<Rightarrow> real list \<Rightarrow> int \<Rightarrow> sdpi \<Rightarrow> sdpi ctl res" where
  "chgbounds_step ind newlb newub i s =
     bnd (rd ind i) (\<lambda>j.
     bnd (assert_that (0 \<le> j \<and> j < nvars s)) (\<lambda>_.
     bnd (rd newlb i) (\<lambda>l.
     bnd (wr (lb s) j l) (\<lambda>lb'.
     bnd (rd newub i) (\<lambda>u.
     bnd (wr (ub s) j u) (\<lambda>ub'.
     Inr (Cont (s\<lparr>lb := lb', ub := ub'\<rparr>))))))))"

definition SCIPsdpiChgBounds :: "sdpi \<Rightarrow> int \<Rightarrow> int list \<Rightarrow> real list \<Rightarrow> real list \<Rightarrow> sdpi res" where
  "SCIPsdpiChgBounds s nvars' ind newlb newub =
     bnd (for_loop 0 nvars' (chgbounds_step ind newlb newub) s) (\<lambda>c.
     Inr ((ctl_state c)\<lparr>solved := False, infeasible := False, allfixed := False,
                         nsdpcalls := 0, niterations := 0, opttime := 0\<rparr>))"

definition chgsides_step :: "int list \<Rightarrow> real list \<Rightarrow> real list \<Rightarrow> int \<Rightarrow> sdpi \<Rightarrow> sdpi ctl res" where
  "chgsides_step ind lhs rhs i s =
     bnd (rd ind i) (\<lambda>j.
     bnd (assert_that (j \<ge> 0)) (\<lambda>_.
     bnd (assert_that (j < nlpcons s)) (\<lambda>_.
     bnd (rd lhs i) (\<lambda>l.
     bnd (wr (lplhs s) j l) (\<lambda>lplhs'.
     bnd (rd rhs i) (\<lambda>r.
     bnd (wr (lprhs s) j r) (\<lambda>lprhs'.
     Inr (Cont (s\<lparr>lplhs := lplhs', lprhs := lprhs'\<rparr>)))))))))"

definition SCIPsdpiChgLPLhRhSides :: "sdpi \<Rightarrow> int \<Rightarrow> int list \<Rightarrow> real list \<Rightarrow> real list \<Rightarrow> sdpi res" where
  "SCIPsdpiChgLPLhRhSides s nrows ind lhs rhs =
     bnd (assert_that (0 \<le> nrows \<and> nrows \<le> nlpcons s)) (\<lambda>_.
     bnd (for_loop 0 nrows (chgsides_step ind lhs rhs) s) (\<lambda>c.
     Inr ((ctl_state c)\<lparr>solved := False, infeasible := False, allfixed := False,
                         nsdpcalls := 0, niterations := 0, opttime := 0\<rparr>)))"

section \<open>Preprocessing of the LP rows\<close>

text \<open>
  \<^verbatim>\<open>isFixed\<close>, the function of the build with assertions.  The working bounds \<open>sdpilb\<close>, \<open>sdpiub\<close>
  are read from the interface; the only caller of the preprocessing functions passes these
  very arrays as arguments, so argument and field are one array.
\<close>

definition isFixed :: "sdpi \<Rightarrow> int \<Rightarrow> bool res" where
  "isFixed s v =
     bnd (assert_that (0 \<le> v \<and> v < nvars s)) (\<lambda>_.
     bnd (rd (sdpilb s) v) (\<lambda>l.
     bnd (rd (sdpiub s) v) (\<lambda>u.
     bnd (assert_that (l \<le> u + epsilon s)) (\<lambda>_.
     Inr (u - l \<le> epsilon s)))))"

text \<open>
  \<^verbatim>\<open>tightenRowCoefs\<close>.  The row is the part of \<open>sdpilpval\<close>, \<open>sdpilpind\<close> that starts at the
  offset \<open>off\<close> the caller passes.  The double-double sums and products (\<^verbatim>\<open>SCIPquadprec...\<close>)
  are exact over the reals.
\<close>

record actst =
  minactquad :: real
  maxactquad :: real
  minactinf :: bool
  maxactinf :: bool
  maxintabsval :: real
  hasintvar :: bool

definition activity_step :: "sdpi \<Rightarrow> int \<Rightarrow> int \<Rightarrow> actst \<Rightarrow> actst ctl res" where
  "activity_step s off i a =
     bnd (rd (sdpilpind s) (off + i)) (\<lambda>ind.
     bnd (assert_that (0 \<le> ind \<and> ind < nvars s)) (\<lambda>_.
     bnd (rd (sdpilb s) ind) (\<lambda>lb.
     bnd (rd (sdpiub s) ind) (\<lambda>ub.
     bnd (rd (isintegral s) ind) (\<lambda>isint.
     bnd (rd (sdpilpval s) (off + i)) (\<lambda>val.
     let a1 = (if isint then a\<lparr>maxintabsval := max (maxintabsval a) \<bar>val\<bar>, hasintvar := True\<rparr>
               else a)
     in Inr (Cont
          (if val > 0 then
             (let a2 = (if ub < SCIPsdpiInfinity s
                        then a1\<lparr>maxactquad := maxactquad a1 + val * ub\<rparr>
                        else a1\<lparr>maxactinf := True\<rparr>)
              in (if lb > - SCIPsdpiInfinity s
                  then a2\<lparr>minactquad := minactquad a2 + val * lb\<rparr>
                  else a2\<lparr>minactinf := True\<rparr>))
           else
             (let a2 = (if lb > - SCIPsdpiInfinity s
                        then a1\<lparr>maxactquad := maxactquad a1 + val * lb\<rparr>
                        else a1\<lparr>maxactinf := True\<rparr>)
              in (if ub < SCIPsdpiInfinity s
                  then a2\<lparr>minactquad := minactquad a2 + val * ub\<rparr>
                  else a2\<lparr>minactinf := True\<rparr>))))))))))"

record tightenst =
  ts :: sdpi
  ti :: int
  tnnonz :: int
  tlhs :: real
  trhs :: real
  tminact :: real
  tmaxact :: real
  tminactquad :: real
  tmaxactquad :: real
  tnchg :: int

text \<open>
  The two branches of the tightening loop mirror each other: for a positive coefficient
  (\<open>pos\<close>) the left-hand side moves with the lower bound (\<open>bl\<close>) and the right-hand side with
  the upper bound (\<open>br\<close>), for a negative one the bounds change places.  A coefficient that
  becomes (nearly) zero is removed by moving the last entry of the row into its place, and
  the index \<open>i\<close> stays.
\<close>

definition tighten_coef ::
  "int \<Rightarrow> tightenst \<Rightarrow> real \<Rightarrow> real \<Rightarrow> real \<Rightarrow> real \<Rightarrow> bool \<Rightarrow> tightenst res" where
  "tighten_coef off st val newval bl br pos =
     (let s = ts st; i = ti st in
      bnd (assert_that (if pos then newval > - epsilon s else newval < epsilon s)) (\<lambda>_.
      if \<bar>newval - val\<bar> > epsilon s then
        (let lhsdelta = (newval - val) * bl;
             newlhs = (if tlhs st > - SCIPsdpiInfinity s then lhsdelta + tlhs st else tlhs st);
             rhsdelta = (newval - val) * br;
             newrhs = (if trhs st < SCIPsdpiInfinity s then rhsdelta + trhs st else trhs st);
             st1 = st\<lparr>tlhs := newlhs, trhs := newrhs, tnchg := tnchg st + 1\<rparr>
         in
         if (if pos then newval > epsilon s else newval < - epsilon s) then
           (let st2 = (if newlhs > - SCIPsdpiInfinity s
                       then st1\<lparr>tminactquad := tminactquad st1 + lhsdelta,
                                tminact := tminactquad st1 + lhsdelta\<rparr>
                       else st1);
                st3 = (if newrhs < SCIPsdpiInfinity s
                       then st2\<lparr>tmaxactquad := tmaxactquad st2 + rhsdelta,
                                tmaxact := tmaxactquad st2 + rhsdelta\<rparr>
                       else st2)
            in bnd (wr (sdpilpval s) (off + i) newval) (\<lambda>vals.
               Inr (st3\<lparr>ts := s\<lparr>sdpilpval := vals\<rparr>, ti := i + 1\<rparr>)))
         else
           (let n' = tnnonz st - 1 in
            bnd (rd (sdpilpval s) (off + n')) (\<lambda>v'.
            bnd (wr (sdpilpval s) (off + i) v') (\<lambda>vals.
            bnd (rd (sdpilpind s) (off + n')) (\<lambda>c'.
            bnd (wr (sdpilpind s) (off + i) c') (\<lambda>inds.
            Inr (st1\<lparr>ts := s\<lparr>sdpilpval := vals, sdpilpind := inds\<rparr>, tnnonz := n'\<rparr>)))))))
      else Inr (st\<lparr>ti := i + 1\<rparr>)))"

definition tighten_step :: "int \<Rightarrow> tightenst \<Rightarrow> tightenst res" where
  "tighten_step off st =
     (let s = ts st; i = ti st in
      bnd (rd (sdpilpind s) (off + i)) (\<lambda>ind.
      bnd (rd (isintegral s) ind) (\<lambda>isint.
      if \<not> isint then Inr (st\<lparr>ti := i + 1\<rparr>)
      else
        bnd (rd (sdpilb s) ind) (\<lambda>lb.
        bnd (rd (sdpiub s) ind) (\<lambda>ub.
        bnd (rd (sdpilpval s) (off + i)) (\<lambda>val.
        if val > 0 \<and> tminact st + val \<ge> tlhs st - epsilon s
             \<and> tmaxact st - val \<le> trhs st + epsilon s
        then tighten_coef off st val (max (tlhs st - tminact st) (tmaxact st - trhs st)) lb ub True
        else if val < 0 \<and> tminact st - val \<ge> tlhs st - epsilon s
             \<and> tmaxact st + val \<le> trhs st + epsilon s
        then tighten_coef off st val (min (tminact st - tlhs st) (trhs st - tmaxact st)) ub lb False
        else Inr (st\<lparr>ti := i + 1\<rparr>)))))))"

lemma tighten_coef_measure:
  assumes "tighten_coef off st val newval bl br pos = Inr st'" "ti st < tnnonz st"
  shows "nat (tnnonz st' - ti st') < nat (tnnonz st - ti st)"
proof -
  have "tnnonz st' - ti st' = tnnonz st - ti st - 1"
    using assms(1)
    by (auto simp: tighten_coef_def Let_def bnd_def assert_that_def rd_def wr_def
             split: if_splits)
  with assms(2) show ?thesis by simp
qed

lemma tighten_step_measure:
  assumes "tighten_step off st = Inr st'" "ti st < tnnonz st"
  shows "nat (tnnonz st' - ti st') < nat (tnnonz st - ti st)"
proof -
  have "(\<exists>val newval bl br pos. tighten_coef off st val newval bl br pos = Inr st')
        \<or> st' = st\<lparr>ti := ti st + 1\<rparr>"
    using assms(1) unfolding tighten_step_def Let_def
    by (elim bnd_InrE) (auto split: if_splits elim!: bnd_InrE, blast+)
  then show ?thesis
    using tighten_coef_measure[OF _ assms(2)] assms(2) by auto
qed


function tighten_loop :: "int \<Rightarrow> tightenst \<Rightarrow> tightenst res" where
  "tighten_loop off st =
     (if ti st < tnnonz st then bnd (tighten_step off st) (tighten_loop off) else Inr st)"
  by pat_completeness auto
termination
  by (relation "measure (\<lambda>(off, st). nat (tnnonz st - ti st))")
     (auto dest: tighten_step_measure)

declare tighten_loop.simps [simp del]

definition tightenRowCoefs ::
  "sdpi \<Rightarrow> int \<Rightarrow> int \<Rightarrow> real \<Rightarrow> real \<Rightarrow> (sdpi \<times> int \<times> real \<times> real \<times> bool \<times> bool \<times> int) res" where
  "tightenRowCoefs s off rownnonz lhs rhs =
     (if \<bar>lhs - rhs\<bar> < epsilon s then Inr (s, rownnonz, lhs, rhs, False, False, 0)
      else
        bnd (for_loop 0 rownnonz (activity_step s off)
               \<lparr>minactquad = 0, maxactquad = 0, minactinf = False, maxactinf = False,
                maxintabsval = 0, hasintvar = False\<rparr>) (\<lambda>c.
        let a = ctl_state c in
        if \<not> hasintvar a then Inr (s, rownnonz, lhs, rhs, False, False, 0)
        else if minactinf a \<and> maxactinf a then Inr (s, rownnonz, lhs, rhs, False, False, 0)
        else
          (let minact = (if minactinf a then - SCIPsdpiInfinity s else minactquad a);
               maxact = (if maxactinf a then SCIPsdpiInfinity s else maxactquad a);
               lhsredundant = (lhs \<le> - SCIPsdpiInfinity s \<or> minact \<ge> lhs - epsilon s);
               rhsredundant = (rhs \<ge> SCIPsdpiInfinity s \<or> maxact \<le> rhs + epsilon s)
           in
           if lhsredundant \<and> rhsredundant
           then Inr (s, rownnonz, lhs, rhs, lhsredundant, rhsredundant, 0)
           else if minact + maxintabsval a < lhs - epsilon s
                   \<or> maxact - maxintabsval a > rhs + epsilon s
           then Inr (s, rownnonz, lhs, rhs, lhsredundant, rhsredundant, 0)
           else
             bnd (tighten_loop off
                    \<lparr>ts = s, ti = 0, tnnonz = rownnonz, tlhs = lhs, trhs = rhs,
                     tminact = minact, tmaxact = maxact, tminactquad = minactquad a,
                     tmaxactquad = maxactquad a, tnchg = 0\<rparr>) (\<lambda>st.
             Inr (ts st, tnnonz st, tlhs st, trhs st, lhsredundant, rhsredundant, tnchg st)))))"

text \<open>
  \<^verbatim>\<open>prepareLPData\<close>.  The loop over the entries of row \<open>i\<close> copies the entries of the
  variables that are not fixed to the working arrays and adds up the fixed ones.
\<close>

record scanst =
  ss :: sdpi
  nlpnonz :: int
  nrownonz :: int
  nonzind :: int
  rowconst :: real

definition scan_step :: "int \<Rightarrow> scanst \<Rightarrow> scanst ctl res" where
  "scan_step j st =
     (let s = ss st in
      bnd (rd (lpind s) j) (\<lambda>col.
      bnd (assert_that (0 \<le> col \<and> col < nvars s)) (\<lambda>_.
      bnd (isFixed s col) (\<lambda>fx.
      bnd (if \<not> fx
           then bnd (wr (sdpilpind s) (nlpnonz st) col) (\<lambda>inds.
                bnd (rd (lpval s) j) (\<lambda>v.
                bnd (wr (sdpilpval s) (nlpnonz st) v) (\<lambda>vals.
                Inr (st\<lparr>ss := s\<lparr>sdpilpind := inds, sdpilpval := vals\<rparr>,
                        nlpnonz := nlpnonz st + 1, nrownonz := nrownonz st + 1,
                        nonzind := j\<rparr>))))
           else bnd (rd (lpval s) j) (\<lambda>v.
                bnd (rd (sdpilb s) col) (\<lambda>l.
                Inr (st\<lparr>rowconst := rowconst st + v * l\<rparr>)))) (\<lambda>st'.
      bnd (assert_that (\<not> SCIPsdpiIsInfinity s (rowconst st'))) (\<lambda>_.
      Inr (Cont st')))))))"

text \<open>
  The three branches of the row loop.  The loop state is the interface, the number
  \<open>sdpilpnnonz\<close> of entries kept so far and the flag \<open>fixingsfound\<close>; the number of rows kept so
  far, \<^verbatim>\<open>*nsdpilpcons\<close>, is the field \<open>nactivelpcons\<close> (the caller passes its address).
\<close>

definition prepare_multi ::
  "int \<Rightarrow> int \<Rightarrow> int \<Rightarrow> real \<Rightarrow> real \<Rightarrow> sdpi \<times> int \<times> bool \<Rightarrow> (sdpi \<times> int \<times> bool) ctl res" where
  "prepare_multi i nonzind' nrownonz' lhs rhs st =
     (case st of (s, sdpilpnnonz, fixingsfound) \<Rightarrow>
        bnd (assert_that (0 \<le> nonzind' \<and> nonzind' < lpnnonz s)) (\<lambda>_.
        bnd (tightenRowCoefs s (nactivelpcons s) nrownonz' lhs rhs) (\<lambda>r.
        case r of (s1, nrownonz1, lhs1, rhs1, lhsredundant, rhsredundant, nchgcoefs) \<Rightarrow>
          if \<not> lhsredundant \<or> \<not> rhsredundant then
            bnd (wr (sdpilpindchanges s1) i (i - nactivelpcons s1)) (\<lambda>chg.
            bnd (wr (sdpilplhs s1) i lhs1) (\<lambda>lhss.
            bnd (wr (sdpilprhs s1) i rhs1) (\<lambda>rhss.
            Inr (Cont (s1\<lparr>sdpilpindchanges := chg, sdpilplhs := lhss, sdpilprhs := rhss,
                          nactivelpcons := nactivelpcons s1 + 1\<rparr>,
                       sdpilpnnonz + nrownonz1, fixingsfound)))))
          else Inr (Cont (s1, sdpilpnnonz, fixingsfound)))))"

text \<open>
  A row with one free variable: the candidate bounds it gives (the block "compute new lower
  and upper bounds"), the two blocks that strengthen a bound and record the row that gave it
  (\<open>i + 1\<close> when the right-hand side gave it, \<open>- i - 1\<close> when the left-hand side did), and the
  branch itself.
\<close>

definition singleton_bounds :: "sdpi \<Rightarrow> real \<Rightarrow> real \<Rightarrow> real \<Rightarrow> real \<times> real" where
  "singleton_bounds s lpv lhs rhs =
     (if lpv > 0
      then (if lhs > - SCIPsdpiInfinity s then lhs / lpv else - SCIPsdpiInfinity s,
            if rhs < SCIPsdpiInfinity s then rhs / lpv else SCIPsdpiInfinity s)
      else (if rhs < SCIPsdpiInfinity s then rhs / lpv else - SCIPsdpiInfinity s,
            if lhs > - SCIPsdpiInfinity s then lhs / lpv else SCIPsdpiInfinity s))"

definition strengthen_lb :: "int \<Rightarrow> int \<Rightarrow> real \<Rightarrow> real \<Rightarrow> sdpi \<Rightarrow> sdpi res" where
  "strengthen_lb i lpcol lpv lb' s =
     bnd (rd (sdpilb s) lpcol) (\<lambda>oldlb.
     if lb' > oldlb + epsilon s
     then bnd (wr (sdpilb s) lpcol lb') (\<lambda>lbs.
          bnd (wr (sdpilbrowidx s) lpcol (if lpv < 0 then i + 1 else - i - 1)) (\<lambda>idx.
          Inr (s\<lparr>sdpilb := lbs, sdpilbrowidx := idx\<rparr>)))
     else Inr s)"

definition strengthen_ub :: "int \<Rightarrow> int \<Rightarrow> real \<Rightarrow> real \<Rightarrow> sdpi \<Rightarrow> sdpi res" where
  "strengthen_ub i lpcol lpv ub' s =
     bnd (rd (sdpiub s) lpcol) (\<lambda>oldub.
     if ub' < oldub - epsilon s
     then bnd (wr (sdpiub s) lpcol ub') (\<lambda>ubs.
          bnd (wr (sdpiubrowidx s) lpcol (if lpv > 0 then i + 1 else - i - 1)) (\<lambda>idx.
          Inr (s\<lparr>sdpiub := ubs, sdpiubrowidx := idx\<rparr>)))
     else Inr s)"

definition prepare_singleton ::
  "int \<Rightarrow> int \<Rightarrow> real \<Rightarrow> real \<Rightarrow> sdpi \<times> int \<times> bool \<Rightarrow> (sdpi \<times> int \<times> bool) ctl res" where
  "prepare_singleton i nonzind' lhs rhs st =
     (case st of (s, sdpilpnnonz, fixingsfound) \<Rightarrow>
        bnd (assert_that (0 \<le> nonzind' \<and> nonzind' < lpnnonz s)) (\<lambda>_.
        bnd (rd (lpind s) nonzind') (\<lambda>lpcol.
        bnd (assert_that (0 \<le> lpcol \<and> lpcol < nvars s)) (\<lambda>_.
        bnd (rd (lpval s) nonzind') (\<lambda>lpv.
        bnd (assert_that (\<bar>lpv\<bar> > epsilon s)) (\<lambda>_.
        bnd (strengthen_lb i lpcol lpv (fst (singleton_bounds s lpv lhs rhs)) s) (\<lambda>s1.
        bnd (strengthen_ub i lpcol lpv (snd (singleton_bounds s lpv lhs rhs)) s1) (\<lambda>s2.
        bnd (rd (sdpiub s2) lpcol) (\<lambda>u.
        bnd (rd (sdpilb s2) lpcol) (\<lambda>l.
        if u < l - epsilon s2
        then Inr (Brk (s2\<lparr>infeasible := True\<rparr>, sdpilpnnonz, fixingsfound))
        else Inr (Cont (s2, sdpilpnnonz,
                        if \<bar>l - u\<bar> < epsilon s2 then True else fixingsfound))))))))))))"

definition prepare_empty ::
  "int \<Rightarrow> int \<Rightarrow> real \<Rightarrow> real \<Rightarrow> sdpi \<times> int \<times> bool \<Rightarrow> (sdpi \<times> int \<times> bool) ctl res" where
  "prepare_empty nonzind' nrownonz' lhs rhs st =
     (case st of (s, sdpilpnnonz, fixingsfound) \<Rightarrow>
        bnd (assert_that (nonzind' < 0)) (\<lambda>_.
        bnd (assert_that (nrownonz' = 0)) (\<lambda>_.
        if lhs > feastol s \<or> rhs < - feastol s
        then Inr (Brk (s\<lparr>infeasible := True\<rparr>, sdpilpnnonz, fixingsfound))
        else Inr (Cont (s, sdpilpnnonz, fixingsfound)))))"

text \<open>The part of the row loop before the branches: it yields the scan result and the sides.\<close>

definition prepare_scan :: "int \<Rightarrow> sdpi \<Rightarrow> int \<Rightarrow> (scanst \<times> real \<times> real) res" where
  "prepare_scan i s sdpilpnnonz =
     bnd (wr (sdpilpindchanges s) i (- 1)) (\<lambda>chg.
     bnd (rd (lpbeg s) i) (\<lambda>beg.
     bnd (assert_that (0 \<le> beg \<and> beg < lpnnonz s)) (\<lambda>_.
     bnd (if i = nlpcons s - 1 then Inr (lpnnonz s)
          else bnd (rd (lpbeg s) (i + 1)) (\<lambda>nb.
               bnd (assert_that (beg \<le> nb)) (\<lambda>_. Inr nb))) (\<lambda>nextbeg.
     bnd (wr (sdpilplhs s) i SCIP_INVALID) (\<lambda>lhss.
     bnd (wr (sdpilprhs s) i SCIP_INVALID) (\<lambda>rhss.
     bnd (wr (sdpilpbeg s) i sdpilpnnonz) (\<lambda>begs.
     bnd (for_loop beg nextbeg scan_step
            \<lparr>ss = s\<lparr>sdpilpindchanges := chg, sdpilplhs := lhss, sdpilprhs := rhss,
                     sdpilpbeg := begs\<rparr>,
             nlpnonz = sdpilpnnonz, nrownonz = 0, nonzind = - 1, rowconst = 0\<rparr>) (\<lambda>c.
     let sc = ctl_state c; s1 = ss sc in
     bnd (rd (lplhs s1) i) (\<lambda>l.
     bnd (rd (lprhs s1) i) (\<lambda>r.
     Inr (sc,
          if l > - SCIPsdpiInfinity s1 then l - rowconst sc else - SCIPsdpiInfinity s1,
          if r < SCIPsdpiInfinity s1 then r - rowconst sc else SCIPsdpiInfinity s1)))))))))))"

definition prepare_row :: "int \<Rightarrow> sdpi \<times> int \<times> bool \<Rightarrow> (sdpi \<times> int \<times> bool) ctl res" where
  "prepare_row i st =
     (case st of (s, sdpilpnnonz, fixingsfound) \<Rightarrow>
        bnd (prepare_scan i s sdpilpnnonz) (\<lambda>r.
        case r of (sc, lhs, rhs) \<Rightarrow>
          if nrownonz sc \<ge> 2
          then prepare_multi i (nonzind sc) (nrownonz sc) lhs rhs (ss sc, sdpilpnnonz, fixingsfound)
          else if nrownonz sc = 1
          then prepare_singleton i (nonzind sc) lhs rhs (ss sc, sdpilpnnonz, fixingsfound)
          else prepare_empty (nonzind sc) (nrownonz sc) lhs rhs (ss sc, sdpilpnnonz, fixingsfound)))"

definition init_rowidx :: "int \<Rightarrow> sdpi \<Rightarrow> sdpi ctl res" where
  "init_rowidx i s =
     bnd (wr (sdpilbrowidx s) i 0) (\<lambda>lidx.
     bnd (wr (sdpiubrowidx s) i 0) (\<lambda>uidx.
     Inr (Cont (s\<lparr>sdpilbrowidx := lidx, sdpiubrowidx := uidx\<rparr>))))"

text \<open>
  The result is the interface, \<^verbatim>\<open>*sdpilpnnonz\<close> and \<^verbatim>\<open>*fixingsfound\<close>.  A \<^verbatim>\<open>return\<close> from
  inside the row loop (infeasibility) leaves the two outputs as they are at that moment.
\<close>

definition prepareLPData :: "sdpi \<Rightarrow> (sdpi \<times> int \<times> bool) res" where
  "prepareLPData s =
     (let s0 = s\<lparr>nactivelpcons := 0\<rparr> in
      if nlpcons s0 = 0 \<or> lpnnonz s0 = 0 then Inr (s0, 0, False)
      else
        bnd (for_loop 0 (nvars s0) init_rowidx s0) (\<lambda>c0.
        bnd (for_loop 0 (nlpcons (ctl_state c0)) prepare_row (ctl_state c0, 0, False)) (\<lambda>c.
        Inr (ctl_state c))))"

text \<open>
  What the preprocessing functions leave untouched: the interface without the working copy
  of the row entries, and without the working copies of sides and row starts as well.
\<close>

definition scan_core :: "sdpi \<Rightarrow> sdpi" where
  "scan_core s = s\<lparr>sdpilpind := [], sdpilpval := []\<rparr>"

definition row_core :: "sdpi \<Rightarrow> sdpi" where
  "row_core s = s\<lparr>sdpilpind := [], sdpilpval := [], sdpilplhs := [], sdpilprhs := [], sdpilpbeg := []\<rparr>"

lemma scan_step_frame: "scan_step j st = Inr c \<Longrightarrow> scan_core (ss (ctl_state c)) = scan_core (ss st)"
  unfolding scan_step_def Let_def
  apply (elim bnd_InrE)
  apply (split if_splits)
   apply (elim bnd_InrE)
   apply (clarsimp simp: scan_core_def ctl_state_def)
  apply (elim bnd_InrE)
  apply (clarsimp simp: scan_core_def ctl_state_def)
  done

lemma scan_core_row_core: "scan_core a = scan_core b \<Longrightarrow> row_core a = row_core b"
proof -
  assume h: "scan_core a = scan_core b"
  have "row_core a = (scan_core a)\<lparr>sdpilplhs := [], sdpilprhs := [], sdpilpbeg := []\<rparr>"
    by (simp add: row_core_def scan_core_def)
  also have "\<dots> = (scan_core b)\<lparr>sdpilplhs := [], sdpilprhs := [], sdpilpbeg := []\<rparr>"
    by (simp add: h)
  also have "\<dots> = row_core b" by (simp add: row_core_def scan_core_def)
  finally show ?thesis .
qed

lemma prepare_scan_frame:
  assumes "prepare_scan i s n = Inr (sc, lhs, rhs)"
  shows "row_core (ss sc) = row_core (s\<lparr>sdpilpindchanges := (sdpilpindchanges s)[nat i := - 1]\<rparr>)
          \<and> 0 \<le> i \<and> i < int (length (sdpilpindchanges s))"
  using assms unfolding prepare_scan_def Let_def
  apply (elim bnd_InrE)
  apply (drule for_loop_frame[where f = "\<lambda>st. scan_core (ss st)"])
   apply (erule scan_step_frame)
  apply (drule scan_core_row_core)
  apply (erule wr_InrE)+
  apply (clarsimp simp: row_core_def)
  done


lemma row_core_fields:
  assumes "row_core a = row_core b"
  shows "sdpilb a = sdpilb b" "sdpiub a = sdpiub b" "lpind a = lpind b" "lpval a = lpval b"
    "epsilon a = epsilon b" "feastol a = feastol b" "sdpisolver a = sdpisolver b"
    "sdpilbrowidx a = sdpilbrowidx b" "sdpiubrowidx a = sdpiubrowidx b"
    "nactivelpcons a = nactivelpcons b" "infeasible a = infeasible b" "lpnnonz a = lpnnonz b"
    "nvars a = nvars b" "sdpilpindchanges a = sdpilpindchanges b" "nlpcons a = nlpcons b"
    "lplhs a = lplhs b" "lprhs a = lprhs b" "lpbeg a = lpbeg b" "isintegral a = isintegral b"
  using arg_cong[OF assms, of sdpilb] arg_cong[OF assms, of sdpiub] arg_cong[OF assms, of lpind]
    arg_cong[OF assms, of lpval] arg_cong[OF assms, of epsilon] arg_cong[OF assms, of feastol]
    arg_cong[OF assms, of sdpisolver] arg_cong[OF assms, of sdpilbrowidx]
    arg_cong[OF assms, of sdpiubrowidx] arg_cong[OF assms, of nactivelpcons]
    arg_cong[OF assms, of infeasible] arg_cong[OF assms, of lpnnonz] arg_cong[OF assms, of nvars]
    arg_cong[OF assms, of sdpilpindchanges] arg_cong[OF assms, of nlpcons]
    arg_cong[OF assms, of lplhs] arg_cong[OF assms, of lprhs] arg_cong[OF assms, of lpbeg]
    arg_cong[OF assms, of isintegral]
  by (simp_all add: row_core_def)


lemma strengthen_lb_result:
  assumes "strengthen_lb i col a lb' s = Inr s1"
  shows "0 \<le> col \<and> col < int (length (sdpilb s)) \<and>
         s1 = (if lb' > sdpilb s ! nat col + epsilon s
               then s\<lparr>sdpilb := (sdpilb s)[nat col := lb'],
                      sdpilbrowidx := (sdpilbrowidx s)[nat col := (if a < 0 then i + 1 else - i - 1)]\<rparr>
               else s)"
  using assms unfolding strengthen_lb_def
  by (auto simp: bnd_def rd_def wr_def split: if_splits)

lemma strengthen_ub_result:
  assumes "strengthen_ub i col a ub' s = Inr s1"
  shows "0 \<le> col \<and> col < int (length (sdpiub s)) \<and>
         s1 = (if ub' < sdpiub s ! nat col - epsilon s
               then s\<lparr>sdpiub := (sdpiub s)[nat col := ub'],
                      sdpiubrowidx := (sdpiubrowidx s)[nat col := (if a > 0 then i + 1 else - i - 1)]\<rparr>
               else s)"
  using assms unfolding strengthen_ub_def
  by (auto simp: bnd_def rd_def wr_def split: if_splits)


subsection \<open>The repeated preprocessing ends\<close>

lemma for_loop_inv:
  assumes "for_loop i n body s = Inr c" "P s" "\<And>i s c. P s \<Longrightarrow> body i s = Inr c \<Longrightarrow> P (ctl_state c)"
  shows "P (ctl_state c)"
proof -
  have "P s \<longrightarrow> P (ctl_state c)"
    by (rule for_loop_rel[OF assms(1), where R = "\<lambda>a b. P a \<longrightarrow> P b"]) (auto intro: assms(3))
  with assms(2) show ?thesis by simp
qed

text \<open>
  The preprocessing is repeated while it finds new fixings.  Every repetition that finds one
  takes a variable out of the set of the variables that are not fixed, and no repetition puts
  one back in, so the repetition ends: the number of these variables is the measure.
\<close>

definition free_vars :: "sdpi \<Rightarrow> nat set" where
  "free_vars s = {v. v < length (sdpilb s) \<and> v < length (sdpiub s)
                    \<and> \<not> (sdpiub s ! v - sdpilb s ! v \<le> epsilon s)}"

definition nfree :: "sdpi \<Rightarrow> nat" where
  "nfree s = card (free_vars s)"

lemma finite_free_vars: "finite (free_vars s)"
  unfolding free_vars_def by (rule finite_subset[of _ "{..<length (sdpilb s)}"]) auto

lemma isFixed_False: "isFixed s v = Inr False \<Longrightarrow> 0 \<le> v \<and> nat v \<in> free_vars s"
  unfolding isFixed_def
  by (elim bnd_InrE rd_InrE) (auto simp: free_vars_def)

lemma free_vars_cong:
  "sdpilb a = sdpilb b \<Longrightarrow> sdpiub a = sdpiub b \<Longrightarrow> epsilon a = epsilon b \<Longrightarrow> free_vars a = free_vars b"
  by (simp add: free_vars_def)

definition scan_inv :: "scanst \<Rightarrow> bool" where
  "scan_inv st \<longleftrightarrow> (nrownonz st \<ge> 0) \<and> (nrownonz st > 0 \<longrightarrow>
      0 \<le> nonzind st \<and> nat (nonzind st) < length (lpind (ss st))
      \<and> 0 \<le> lpind (ss st) ! nat (nonzind st)
      \<and> nat (lpind (ss st) ! nat (nonzind st)) \<in> free_vars (ss st))"

lemma scan_core_fields:
  assumes "scan_core a = scan_core b"
  shows "sdpilb a = sdpilb b" "sdpiub a = sdpiub b" "lpind a = lpind b" "lpval a = lpval b"
    "epsilon a = epsilon b"
  using row_core_fields[OF scan_core_row_core[OF assms]] by simp_all

lemma scan_step_inv:
  assumes "scan_inv st" "scan_step j st = Inr c"
  shows "scan_inv (ctl_state c)"
proof -
  note fr = scan_core_fields[OF scan_step_frame[OF assms(2)]]
  have fv: "free_vars (ss (ctl_state c)) = free_vars (ss st)"
    by (rule free_vars_cong) (simp_all add: fr)
  from assms(2) have
    "(nrownonz (ctl_state c) = nrownonz st \<and> nonzind (ctl_state c) = nonzind st)
     \<or> (nrownonz (ctl_state c) = nrownonz st + 1 \<and> nonzind (ctl_state c) = j
        \<and> 0 \<le> j \<and> nat j < length (lpind (ss st))
        \<and> isFixed (ss st) (lpind (ss st) ! nat j) = Inr False)"
    unfolding scan_step_def Let_def
    apply (elim bnd_InrE rd_InrE)
    subgoal for col u fx st' u2
      apply (cases fx)
       apply (simp only: simp_thms if_True if_False)
       apply (elim bnd_InrE rd_InrE)
       apply (clarsimp simp: ctl_state_def)
      apply (simp only: simp_thms if_True if_False)
      apply (elim bnd_InrE rd_InrE wr_InrE)
      apply (clarsimp simp: ctl_state_def nat_less_iff)
      done
    done
  then show ?thesis
    using assms(1) isFixed_False[of "ss st" "lpind (ss st) ! nat j"]
    by (auto simp: scan_inv_def fv fr)
qed


lemma tighten_coef_frame:
  assumes "tighten_coef off st val newval bl br pos = Inr st'"
  shows "scan_core (ts st') = scan_core (ts st)"
  using assms
  by (auto simp: tighten_coef_def Let_def bnd_def assert_that_def rd_def wr_def scan_core_def
           split: if_splits)

lemma tighten_step_frame:
  assumes "tighten_step off st = Inr st'"
  shows "scan_core (ts st') = scan_core (ts st)"
proof -
  have "(\<exists>val newval bl br pos. tighten_coef off st val newval bl br pos = Inr st')
        \<or> st' = st\<lparr>ti := ti st + 1\<rparr>"
    using assms unfolding tighten_step_def Let_def
    by (elim bnd_InrE) (auto split: if_splits elim!: bnd_InrE, blast+)
  then show ?thesis
    using tighten_coef_frame by auto
qed

lemma tighten_loop_frame:
  "tighten_loop off st = Inr st' \<Longrightarrow> scan_core (ts st') = scan_core (ts st)"
proof (induction off st rule: tighten_loop.induct)
  case (1 off st)
  show ?case
  proof (cases "ti st < tnnonz st")
    case False
    with "1.prems" show ?thesis by (simp add: tighten_loop.simps)
  next
    case True
    with "1.prems" obtain st1 where a: "tighten_step off st = Inr st1"
      and b: "tighten_loop off st1 = Inr st'"
      by (auto simp: tighten_loop.simps[of off st] elim: bnd_InrE)
    from "1.IH"[OF True _ b] a tighten_step_frame[OF a] show ?thesis by (simp add: bnd_def)
  qed
qed

lemma tightenRowCoefs_frame:
  assumes "tightenRowCoefs s off n lhs rhs = Inr (s1, r)"
  shows "scan_core s1 = scan_core s"
  using assms unfolding tightenRowCoefs_def Let_def
  by (auto split: if_splits elim!: bnd_InrE dest!: tighten_loop_frame)

lemma prepare_multi_frame:
  assumes "prepare_multi i nz nr lhs rhs (s, n, f) = Inr c"
  shows "sdpilb (fst (ctl_state c)) = sdpilb s \<and> sdpiub (fst (ctl_state c)) = sdpiub s
         \<and> epsilon (fst (ctl_state c)) = epsilon s \<and> snd (snd (ctl_state c)) = f"
  using assms unfolding prepare_multi_def
  apply (simp only: prod.case)
  apply (elim bnd_InrE)
  subgoal for u r
    apply (cases r)
    apply (simp only: prod.case)
    apply (frule tightenRowCoefs_frame[THEN scan_core_fields(1)])
    apply (frule tightenRowCoefs_frame[THEN scan_core_fields(2)])
    apply (drule tightenRowCoefs_frame[THEN scan_core_fields(5)])
    apply (auto split: if_splits elim!: bnd_InrE wr_InrE simp: ctl_state_def)
    done
  done

lemma prepare_empty_frame:
  assumes "prepare_empty nz nr lhs rhs (s, n, f) = Inr c"
  shows "sdpilb (fst (ctl_state c)) = sdpilb s \<and> sdpiub (fst (ctl_state c)) = sdpiub s
         \<and> epsilon (fst (ctl_state c)) = epsilon s \<and> snd (snd (ctl_state c)) = f"
  using assms unfolding prepare_empty_def
  by (auto split: if_splits elim!: bnd_InrE simp: ctl_state_def)


definition bounds_le :: "sdpi \<Rightarrow> sdpi \<Rightarrow> bool" where
  "bounds_le a b \<longleftrightarrow> epsilon b = epsilon a \<and> length (sdpilb b) = length (sdpilb a)
     \<and> length (sdpiub b) = length (sdpiub a)
     \<and> (\<forall>v < length (sdpilb a). sdpilb a ! v \<le> sdpilb b ! v)
     \<and> (\<forall>v < length (sdpiub a). sdpiub b ! v \<le> sdpiub a ! v)"

lemma bounds_le_free_vars: "bounds_le a b \<Longrightarrow> free_vars b \<subseteq> free_vars a"
proof
  fix v assume "v \<in> free_vars b"
  moreover assume "bounds_le a b"
  ultimately have "v < length (sdpilb a)" "v < length (sdpiub a)" "epsilon b = epsilon a"
    "\<not> sdpiub b ! v - sdpilb b ! v \<le> epsilon b"
    "sdpilb a ! v \<le> sdpilb b ! v" "sdpiub b ! v \<le> sdpiub a ! v"
    by (simp_all add: bounds_le_def free_vars_def)
  then show "v \<in> free_vars a"
    by (simp add: free_vars_def)
qed

lemma bounds_le_trans: "bounds_le a b \<Longrightarrow> bounds_le b c \<Longrightarrow> bounds_le a c"
  unfolding bounds_le_def by (auto intro: order_trans)

lemma strengthen_lb_bounds_le:
  assumes "strengthen_lb i col a lb' s = Inr s1" "0 < epsilon s"
  shows "bounds_le s s1"
  using strengthen_lb_result[OF assms(1)] assms(2)
  by (auto simp: bounds_le_def nth_list_update split: if_splits)

lemma strengthen_ub_bounds_le:
  assumes "strengthen_ub i col a ub' s = Inr s1" "0 < epsilon s"
  shows "bounds_le s s1"
  using strengthen_ub_result[OF assms(1)] assms(2)
  by (auto simp: bounds_le_def nth_list_update split: if_splits)

lemma strengthen_lb_epsilon:
  "strengthen_lb i col a lb' s = Inr s1 \<Longrightarrow> epsilon s1 = epsilon s"
  by (drule strengthen_lb_result) (auto split: if_splits)

lemma strengthen_ub_epsilon:
  "strengthen_ub i col a ub' s = Inr s1 \<Longrightarrow> epsilon s1 = epsilon s"
  by (drule strengthen_ub_result) (auto split: if_splits)

definition prep_rel :: "sdpi \<times> int \<times> bool \<Rightarrow> sdpi \<times> int \<times> bool \<Rightarrow> bool" where
  "prep_rel a b \<longleftrightarrow> epsilon (fst b) = epsilon (fst a)
     \<and> (0 < epsilon (fst a) \<longrightarrow> free_vars (fst b) \<subseteq> free_vars (fst a))
     \<and> (snd (snd b) \<and> \<not> snd (snd a) \<longrightarrow>
          0 < epsilon (fst a) \<and> free_vars (fst b) \<subset> free_vars (fst a))"

lemma prep_rel_refl: "prep_rel a a"
  by (simp add: prep_rel_def)

lemma prep_rel_trans: "prep_rel a b \<Longrightarrow> prep_rel b c \<Longrightarrow> prep_rel a c"
  unfolding prep_rel_def by (cases "snd (snd b)") auto

lemma prep_rel_frame:
  assumes "sdpilb b = sdpilb a" "sdpiub b = sdpiub a" "epsilon b = epsilon a"
  shows "prep_rel (a, n, f) (b, n', f)"
  using free_vars_cong[OF assms] assms(3) by (simp add: prep_rel_def)

lemma prepare_singleton_rel:
  assumes sing: "prepare_singleton i nz lhs rhs (s, n, f) = Inr c"
    and fr: "0 \<le> nz" "nat nz < length (lpind s)" "0 \<le> lpind s ! nat nz"
      "nat (lpind s ! nat nz) \<in> free_vars s"
  shows "prep_rel (s, n, f) (ctl_state c)"
proof -
  from sing obtain lpcol lpv s1 s2 u l where
      r1: "rd (lpind s) nz = Inr lpcol"
      and l1: "strengthen_lb i lpcol lpv (fst (singleton_bounds s lpv lhs rhs)) s = Inr s1"
      and u1: "strengthen_ub i lpcol lpv (snd (singleton_bounds s lpv lhs rhs)) s1 = Inr s2"
      and ru: "rd (sdpiub s2) lpcol = Inr u" and rl: "rd (sdpilb s2) lpcol = Inr l"
      and fin: "(if u < l - epsilon s2 then Inr (Brk (s2\<lparr>infeasible := True\<rparr>, n, f))
                 else Inr (Cont (s2, n, if \<bar>l - u\<bar> < epsilon s2 then True else f)))
                = (Inr c :: (sdpi \<times> int \<times> bool) ctl res)"
    unfolding prepare_singleton_def prod.case
    by (elim bnd_InrE) (rule that; assumption)
  have lpcol: "lpcol = lpind s ! nat nz" using r1 by (auto simp: rd_def split: if_splits)
  have e1: "epsilon s1 = epsilon s" by (rule strengthen_lb_epsilon[OF l1])
  have e2: "epsilon s2 = epsilon s" using strengthen_ub_epsilon[OF u1] e1 by simp
  have sub: "free_vars s2 \<subseteq> free_vars s" if "0 < epsilon s"
    using bounds_le_trans[OF strengthen_lb_bounds_le[OF l1 that] strengthen_ub_bounds_le[OF u1]]
      that e1 by (simp add: bounds_le_free_vars)
  have ul: "u = sdpiub s2 ! nat lpcol" "l = sdpilb s2 ! nat lpcol"
    "nat lpcol < length (sdpiub s2)" "nat lpcol < length (sdpilb s2)"
    using ru rl by (auto simp: rd_def split: if_splits)
  have strict: "0 < epsilon s \<and> free_vars s2 \<subset> free_vars s" if "\<bar>l - u\<bar> < epsilon s2"
  proof -
    from that have pos: "0 < epsilon s" using e2 by linarith
    have "nat lpcol \<notin> free_vars s2"
      using that ul by (auto simp: free_vars_def)
    with fr(4) sub[OF pos] pos show ?thesis by (auto simp: lpcol)
  qed
  have fv: "free_vars (s2\<lparr>infeasible := True\<rparr>) = free_vars s2"
    by (simp add: free_vars_def)
  show ?thesis
  proof (cases "u < l - epsilon s2")
    case True
    with fin have "c = Brk (s2\<lparr>infeasible := True\<rparr>, n, f)" by simp
    then show ?thesis using sub e2 by (simp add: prep_rel_def ctl_state_def fv)
  next
    case False
    with fin have "c = Cont (s2, n, if \<bar>l - u\<bar> < epsilon s2 then True else f)" by simp
    then show ?thesis using sub e2 strict by (auto simp: prep_rel_def ctl_state_def)
  qed
qed


lemma prepare_scan_inv:
  assumes "prepare_scan i s n = Inr (sc, lhs, rhs)"
  shows "scan_inv sc"
  using assms unfolding prepare_scan_def Let_def
  apply (elim bnd_InrE)
  apply (drule for_loop_inv[where P = scan_inv])
    apply (simp add: scan_inv_def)
   apply (erule (1) scan_step_inv)
  apply simp
  done

lemma prepare_row_rel:
  assumes "prepare_row i st = Inr c"
  shows "prep_rel st (ctl_state c)"
proof -
  obtain s n f where st: "st = (s, n, f)" by (cases st)
  from assms obtain sc lhs rhs where scan: "prepare_scan i s n = Inr (sc, lhs, rhs)"
    and br: "(if nrownonz sc \<ge> 2
          then prepare_multi i (nonzind sc) (nrownonz sc) lhs rhs (ss sc, n, f)
          else if nrownonz sc = 1
          then prepare_singleton i (nonzind sc) lhs rhs (ss sc, n, f)
          else prepare_empty (nonzind sc) (nrownonz sc) lhs rhs (ss sc, n, f)) = Inr c"
    unfolding prepare_row_def st prod.case
    by (elim bnd_InrE) (auto split: prod.splits)
  note core = prepare_scan_frame[OF scan, THEN conjunct1]
  have f0: "sdpilb (ss sc) = sdpilb s" "sdpiub (ss sc) = sdpiub s" "epsilon (ss sc) = epsilon s"
    using row_core_fields(1,2,5)[OF core] by simp_all
  have r0: "prep_rel (s, n, f) (ss sc, n, f)"
    by (rule prep_rel_frame) (simp_all add: f0)
  have "prep_rel (ss sc, n, f) (ctl_state c)"
  proof (cases "nrownonz sc \<ge> 2")
    case True
    with br have m: "prepare_multi i (nonzind sc) (nrownonz sc) lhs rhs (ss sc, n, f) = Inr c"
      by simp
    obtain s' n' f' where c: "ctl_state c = (s', n', f')" by (cases "ctl_state c")
    from prepare_multi_frame[OF m] c have "sdpilb s' = sdpilb (ss sc)" "sdpiub s' = sdpiub (ss sc)"
      "epsilon s' = epsilon (ss sc)" "f' = f" by simp_all
    then show ?thesis unfolding c using prep_rel_frame[where a = "ss sc" and b = s' and n = n and n' = n' and f = f] by simp
  next
    case False
    show ?thesis
    proof (cases "nrownonz sc = 1")
      case True
      with br have m: "prepare_singleton i (nonzind sc) lhs rhs (ss sc, n, f) = Inr c"
        by simp
      from prepare_scan_inv[OF scan] True
      show ?thesis by (intro prepare_singleton_rel[OF m]) (simp_all add: scan_inv_def)
    next
      case F2: False
      with False br have m: "prepare_empty (nonzind sc) (nrownonz sc) lhs rhs (ss sc, n, f) = Inr c"
        by simp
      obtain s' n' f' where c: "ctl_state c = (s', n', f')" by (cases "ctl_state c")
      from prepare_empty_frame[OF m] c have "sdpilb s' = sdpilb (ss sc)" "sdpiub s' = sdpiub (ss sc)"
        "epsilon s' = epsilon (ss sc)" "f' = f" by simp_all
      then show ?thesis unfolding c using prep_rel_frame[where a = "ss sc" and b = s' and n = n and n' = n' and f = f] by simp
    qed
  qed
  with r0 show ?thesis unfolding st by (rule prep_rel_trans)
qed

lemma init_rowidx_frame:
  "init_rowidx i s = Inr c \<Longrightarrow> free_vars (ctl_state c) = free_vars s"
  unfolding init_rowidx_def
  by (elim bnd_InrE) (auto simp: ctl_state_def free_vars_def)

lemma prepareLPData_decreases:
  assumes "prepareLPData s = Inr (s', n, True)"
  shows "nfree s' < nfree s"
proof -
  define s0 where "s0 = s\<lparr>nactivelpcons := 0\<rparr>"
  have fv0: "free_vars s0 = free_vars s" by (simp add: s0_def free_vars_def)
  from assms obtain c0 c where a: "for_loop 0 (nvars s0) init_rowidx s0 = Inr c0"
    and b: "for_loop 0 (nlpcons (ctl_state c0)) prepare_row (ctl_state c0, 0, False) = Inr c"
    and c: "ctl_state c = (s', n, True)"
    unfolding prepareLPData_def Let_def s0_def[symmetric]
    by (auto split: if_splits elim!: bnd_InrE)
  have fv1: "free_vars (ctl_state c0) = free_vars s0"
    by (rule for_loop_frame[OF a]) (erule init_rowidx_frame)
  have "prep_rel (ctl_state c0, 0, False) (ctl_state c)"
    by (rule for_loop_rel[OF b]) (auto intro: prep_rel_refl prep_rel_trans prepare_row_rel)
  then have "free_vars s' \<subset> free_vars s"
    by (simp add: prep_rel_def c fv1 fv0)
  then show ?thesis unfolding nfree_def
    by (rule psubset_card_mono[OF finite_free_vars])
qed

text \<open>
  The \<^verbatim>\<open>do ... while ( fixingfound && ! sdpi->infeasible )\<close> loop of \<^verbatim>\<open>SCIPsdpiSolve\<close>; it yields
  the interface and \<^verbatim>\<open>sdpilpnnonz\<close> of the last pass.
\<close>

function prepare_loop :: "sdpi \<Rightarrow> (sdpi \<times> int) res" where
  "prepare_loop s =
     bnd (prepareLPData s) (\<lambda>r.
       if snd (snd r) \<and> \<not> infeasible (fst r) then prepare_loop (fst r)
       else Inr (fst r, fst (snd r)))"
  by pat_completeness auto
termination
  by (relation "measure nfree") (auto dest: prepareLPData_decreases)

declare prepare_loop.simps [simp del]

section \<open>The SDP blocks after fixings\<close>

text \<open>
  A sparse matrix is kept in three arrays (row, column, value) and a length.  \<open>entries\<close> reads
  the first \<open>n\<close> triples, and \<open>mat_of\<close> is the matrix they stand for as a function of the
  position: entries at the same position add up.
\<close>

definition entries :: "int list \<Rightarrow> int list \<Rightarrow> real list \<Rightarrow> int \<Rightarrow> (int \<times> int \<times> real) list" where
  "entries rows cols vals n = take (nat n) (zip rows (zip cols vals))"

definition mat_of :: "(int \<times> int \<times> real) list \<Rightarrow> int \<Rightarrow> int \<Rightarrow> real" where
  "mat_of es r c = sum_list (map (\<lambda>e. if fst e = r \<and> fst (snd e) = c then snd (snd e) else 0) es)"

text \<open>
  Modelled from the spec: \<^verbatim>\<open>SCIPsdpVarfixerMergeArraysIntoNew\<close> is declared in
  \<^verbatim>\<open>SdpVarfixer.h\<close>, its body is not part of the sources.  The header and the spec say: the
  first arrays have unique positions, the second may have several entries for a position;
  entries at the same position are added, an entry whose sum cancels is removed
  (\<open>epsilon\<close>: "only values bigger than this are counted as nonzeros"), and the result goes to
  new target arrays whose length is returned.  The model keeps the order of the first
  arrays and appends the new positions in the order in which the second arrays bring them.
  When the target arrays are too short the header promises the needed length only; the
  model returns the merged entries in every case.
\<close>

fun add_entry :: "int \<times> int \<times> real \<Rightarrow> (int \<times> int \<times> real) list \<Rightarrow> (int \<times> int \<times> real) list" where
  "add_entry e [] = [e]"
| "add_entry e (x # xs) =
     (if fst x = fst e \<and> fst (snd x) = fst (snd e)
      then (fst x, fst (snd x), snd (snd x) + snd (snd e)) # xs
      else x # add_entry e xs)"

definition SCIPsdpVarfixerMergeArraysIntoNew ::
  "real \<Rightarrow> (int \<times> int \<times> real) list \<Rightarrow> (int \<times> int \<times> real) list \<Rightarrow> (int \<times> int \<times> real) list" where
  "SCIPsdpVarfixerMergeArraysIntoNew eps first second =
     filter (\<lambda>e. \<bar>snd (snd e)\<bar> > eps) (foldl (\<lambda>acc e. add_entry e acc) first second)"

text \<open>
  \<^verbatim>\<open>compConstMatAfterFixings\<close>.  The buffers \<open>fixedrows\<close>, \<open>fixedcols\<close>, \<open>fixedvals\<close> have
  \<open>sdpnnonz\<close> cells, of which the first \<open>nfixednonz\<close> are in use; the model keeps these as a
  list of triples and reports a write beyond the capacity as \<open>OutOfBounds\<close>.
\<close>

definition fix_nonz_step ::
  "sdpi \<Rightarrow> int \<Rightarrow> int \<Rightarrow> real \<Rightarrow> int \<Rightarrow> (int \<times> int \<times> real) list \<Rightarrow> (int \<times> int \<times> real) list ctl res" where
  "fix_nonz_step s b v lbv i fixed =
     bnd (rd (sdprow s) b) (\<lambda>rb. bnd (rd rb v) (\<lambda>rv. bnd (rd rv i) (\<lambda>r.
     bnd (rd (sdpcol s) b) (\<lambda>cb. bnd (rd cb v) (\<lambda>cv. bnd (rd cv i) (\<lambda>c.
     bnd (rd (sdpval s) b) (\<lambda>xb. bnd (rd xb v) (\<lambda>xv. bnd (rd xv i) (\<lambda>x.
     if int (length fixed) < sdpnnonz s
     then Inr (Cont (fixed @ [(r, c, - x * lbv)]))
     else Inl OutOfBounds)))))))))"

definition fix_var_step ::
  "sdpi \<Rightarrow> int \<Rightarrow> int \<Rightarrow> (int \<times> int \<times> real) list \<Rightarrow> (int \<times> int \<times> real) list ctl res" where
  "fix_var_step s b v fixed =
     bnd (rd (sdpvar s) b) (\<lambda>vb. bnd (rd vb v) (\<lambda>varidx.
     bnd (isFixed s varidx) (\<lambda>fx.
     if fx then
       bnd (rd (sdpilb s) varidx) (\<lambda>l.
       if \<bar>l\<bar> > epsilon s then
         bnd (rd (sdpnblockvarnonz s) b) (\<lambda>nb. bnd (rd nb v) (\<lambda>nnz.
         bnd (for_loop 0 nnz (fix_nonz_step s b v l) fixed) (\<lambda>c.
         Inr (Cont (ctl_state c)))))
       else Inr (Cont fixed))
     else Inr (Cont fixed))))"

text \<open>
  The outputs are the total number of entries and, for each block, the number of entries and
  the three arrays; \<open>sdpconstnblocknonz\<close> holds the lengths of the target arrays on entry.
\<close>

definition comp_block_step ::
  "sdpi \<Rightarrow> int \<Rightarrow> int \<times> int list \<times> int list list \<times> int list list \<times> real list list
     \<Rightarrow> (int \<times> int list \<times> int list list \<times> int list list \<times> real list list) ctl res" where
  "comp_block_step s b st =
     (case st of (tot, nblocknonz, rows, cols, vals) \<Rightarrow>
        bnd (rd (sdpnblockvars s) b) (\<lambda>nv.
        bnd (for_loop 0 nv (fix_var_step s b) []) (\<lambda>cf.
        bnd (rd (sdpconstrow s) b) (\<lambda>crow.
        bnd (rd (sdpconstcol s) b) (\<lambda>ccol.
        bnd (rd (sdpconstval s) b) (\<lambda>cval.
        bnd (rd (sdpconstnblocknonz s) b) (\<lambda>cn.
        let merged = SCIPsdpVarfixerMergeArraysIntoNew (epsilon s)
                       (entries crow ccol cval cn) (ctl_state cf)
        in
        bnd (wr rows b (map fst merged)) (\<lambda>rows'.
        bnd (wr cols b (map (\<lambda>e. fst (snd e)) merged)) (\<lambda>cols'.
        bnd (wr vals b (map (\<lambda>e. snd (snd e)) merged)) (\<lambda>vals'.
        bnd (wr nblocknonz b (int (length merged))) (\<lambda>nblocknonz'.
        Inr (Cont (tot + int (length merged), nblocknonz', rows', cols', vals')))))))))))))"

definition compConstMatAfterFixings ::
  "bool \<Rightarrow> sdpi \<Rightarrow> int list \<Rightarrow> int list list \<Rightarrow> int list list \<Rightarrow> real list list
     \<Rightarrow> (int \<times> int list \<times> int list list \<times> int list list \<times> real list list) res" where
  "compConstMatAfterFixings memok s nblocknonz rows cols vals =
     bnd (BMS_CALL memok) (\<lambda>_.
     bnd (for_loop 0 (nsdpblocks s) (comp_block_step s) (0, nblocknonz, rows, cols, vals)) (\<lambda>c.
     Inr (ctl_state c)))"

text \<open>
  \<^verbatim>\<open>findEmptyRowColsSDP\<close>.  The two marking loops leave early once every index of the block
  has been found; the loop state is the interface and the counter \<open>nfoundinds\<close>.
\<close>

definition mark_ind :: "int \<Rightarrow> int \<Rightarrow> sdpi \<times> int \<Rightarrow> (sdpi \<times> int) res" where
  "mark_ind b k st =
     (case st of (s, nfoundinds) \<Rightarrow>
        bnd (rd (indchanges s) b) (\<lambda>ib.
        bnd (rd ib k) (\<lambda>x.
        if x = - 1
        then bnd (wr ib k 1) (\<lambda>ib'.
             bnd (wr (indchanges s) b ib') (\<lambda>ic.
             Inr (s\<lparr>indchanges := ic\<rparr>, nfoundinds + 1)))
        else Inr (s, nfoundinds))))"

definition mark_entry ::
  "int \<Rightarrow> int \<Rightarrow> int \<Rightarrow> sdpi \<times> int \<Rightarrow> (sdpi \<times> int) ctl res" where
  "mark_entry b r c st =
     bnd (mark_ind b r st) (\<lambda>st1.
     bnd (mark_ind b c st1) (\<lambda>st2.
     bnd (rd (sdpblocksizes (fst st2)) b) (\<lambda>size'.
     if snd st2 = size' then Inr (Brk st2) else Inr (Cont st2))))"

definition mark_var_nonz :: "int \<Rightarrow> int \<Rightarrow> int \<Rightarrow> sdpi \<times> int \<Rightarrow> (sdpi \<times> int) ctl res" where
  "mark_var_nonz b v i st =
     (let s = fst st in
      bnd (rd (sdprow s) b) (\<lambda>rb. bnd (rd rb v) (\<lambda>rv. bnd (rd rv i) (\<lambda>r.
      bnd (rd (sdpcol s) b) (\<lambda>cb. bnd (rd cb v) (\<lambda>cv. bnd (rd cv i) (\<lambda>c.
      mark_entry b r c st)))))))"

definition mark_var :: "int \<Rightarrow> int \<Rightarrow> sdpi \<times> int \<Rightarrow> (sdpi \<times> int) ctl res" where
  "mark_var b v st =
     (let s = fst st in
      bnd (rd (sdpvar s) b) (\<lambda>vb. bnd (rd vb v) (\<lambda>varidx.
      bnd (isFixed s varidx) (\<lambda>fx.
      bnd (if \<not> fx
           then bnd (rd (sdpnblockvarnonz s) b) (\<lambda>nb. bnd (rd nb v) (\<lambda>nnz.
                bnd (for_loop 0 nnz (mark_var_nonz b v) st) (\<lambda>c. Inr (ctl_state c))))
           else Inr st) (\<lambda>st1.
      bnd (rd (sdpblocksizes (fst st1)) b) (\<lambda>size'.
      if snd st1 = size' then Inr (Brk st1) else Inr (Cont st1)))))))"

definition mark_const ::
  "int list \<Rightarrow> int list \<Rightarrow> real list \<Rightarrow> int \<Rightarrow> int \<Rightarrow> sdpi \<times> int \<Rightarrow> (sdpi \<times> int) ctl res" where
  "mark_const crow ccol cval b i st =
     bnd (rd cval i) (\<lambda>x.
     bnd (assert_that (\<bar>x\<bar> > epsilon (fst st))) (\<lambda>_.
     bnd (rd crow i) (\<lambda>r.
     bnd (rd ccol i) (\<lambda>c.
     mark_entry b r c st))))"

definition count_removed :: "int \<Rightarrow> int \<Rightarrow> sdpi \<Rightarrow> sdpi ctl res" where
  "count_removed b i s =
     bnd (rd (indchanges s) b) (\<lambda>ib.
     bnd (rd ib i) (\<lambda>x.
     bnd (rd (nremovedinds s) b) (\<lambda>nr.
     if x = - 1
     then bnd (wr (nremovedinds s) b (nr + 1)) (\<lambda>nri. Inr (Cont (s\<lparr>nremovedinds := nri\<rparr>)))
     else bnd (wr ib i nr) (\<lambda>ib'.
          bnd (wr (indchanges s) b ib') (\<lambda>ic. Inr (Cont (s\<lparr>indchanges := ic\<rparr>)))))))"

definition find_block_step ::
  "int list \<Rightarrow> int list list \<Rightarrow> int list list \<Rightarrow> real list list \<Rightarrow> int \<Rightarrow> sdpi \<Rightarrow> sdpi ctl res" where
  "find_block_step sdpconstnblocknonz' sdpconstrow' sdpconstcol' sdpconstval' b s =
     bnd (rd (sdpnblockvars s) b) (\<lambda>nv.
     bnd (for_loop 0 nv (mark_var b) (s, 0)) (\<lambda>c1.
     bnd (rd (sdpblocksizes (fst (ctl_state c1))) b) (\<lambda>size'.
     bnd (if snd (ctl_state c1) < size'
          then bnd (rd sdpconstnblocknonz' b) (\<lambda>cn.
               bnd (rd sdpconstrow' b) (\<lambda>crow.
               bnd (rd sdpconstcol' b) (\<lambda>ccol.
               bnd (rd sdpconstval' b) (\<lambda>cval.
               bnd (for_loop 0 cn (mark_const crow ccol cval b) (ctl_state c1)) (\<lambda>c2.
               Inr (ctl_state c2))))))
          else Inr (ctl_state c1)) (\<lambda>st2.
     bnd (wr (nremovedinds (fst st2)) b 0) (\<lambda>nri.
     bnd (for_loop 0 size' (count_removed b) ((fst st2)\<lparr>nremovedinds := nri\<rparr>)) (\<lambda>c3.
     let s3 = ctl_state c3 in
     bnd (rd (nremovedinds s3) b) (\<lambda>nr.
     bnd (rd (sdpblocksizes s3) b) (\<lambda>size''.
     if nr = size''
     then bnd (wr (blockindchanges s3) b (- 1)) (\<lambda>bi.
          Inr (Cont (s3\<lparr>blockindchanges := bi, nremovedblocks := nremovedblocks s3 + 1\<rparr>)))
     else bnd (wr (blockindchanges s3) b (nremovedblocks s3)) (\<lambda>bi.
          Inr (Cont (s3\<lparr>blockindchanges := bi\<rparr>)))))))))))"

definition init_indchanges :: "int \<Rightarrow> sdpi \<Rightarrow> sdpi ctl res" where
  "init_indchanges b s =
     bnd (rd (sdpblocksizes s) b) (\<lambda>size'.
     bnd (rd (indchanges s) b) (\<lambda>ib.
     bnd (for_loop 0 size' (\<lambda>i xs. bnd (wr xs i (- 1)) (\<lambda>xs'. Inr (Cont xs'))) ib) (\<lambda>c.
     bnd (wr (indchanges s) b (ctl_state c)) (\<lambda>ic.
     Inr (Cont (s\<lparr>indchanges := ic\<rparr>))))))"

definition findEmptyRowColsSDP ::
  "sdpi \<Rightarrow> int list \<Rightarrow> int list list \<Rightarrow> int list list \<Rightarrow> real list list \<Rightarrow> sdpi res" where
  "findEmptyRowColsSDP s sdpconstnblocknonz' sdpconstrow' sdpconstcol' sdpconstval' =
     (if nsdpblocks s \<le> 0 then Inr s
      else
        bnd (for_loop 0 (nsdpblocks s) init_indchanges s) (\<lambda>c0.
        bnd (for_loop 0 (nsdpblocks s)
               (find_block_step sdpconstnblocknonz' sdpconstrow' sdpconstcol' sdpconstval')
               ((ctl_state c0)\<lparr>nremovedblocks := 0\<rparr>)) (\<lambda>c.
        Inr (ctl_state c))))"

text \<open>
  \<^verbatim>\<open>checkFixedFeasibilitySdp\<close>.  The dense matrix \<open>fullmatrix\<close> is a buffer of \<open>maxsize\<^sup>2\<close> cells,
  stored row by row; a block of size \<open>n\<close> uses the first \<open>n\<^sup>2\<close> of them.  The eigenvalue routine
  \<^verbatim>\<open>SCIPlapackComputeIthEigenvalue\<close> is an external collaborator: \<open>eig n m\<close> stands for what it
  returns for the first (smallest) eigenvalue of the matrix \<open>m\<close> of size \<open>n\<close>: a return code,
  the eigenvalue and the eigenvector.
\<close>

definition full_const_step ::
  "int list \<Rightarrow> int list \<Rightarrow> real list \<Rightarrow> int \<Rightarrow> int \<Rightarrow> real list \<Rightarrow> real list ctl res" where
  "full_const_step crow ccol cval size' i fullmatrix =
     bnd (rd crow i) (\<lambda>r.
     bnd (rd ccol i) (\<lambda>c.
     bnd (assert_that (0 \<le> r \<and> r < size')) (\<lambda>_.
     bnd (assert_that (0 \<le> c \<and> c < size')) (\<lambda>_.
     bnd (rd cval i) (\<lambda>x.
     bnd (wr fullmatrix (r * size' + c) (- x)) (\<lambda>m1.
     if r \<noteq> c
     then bnd (wr m1 (c * size' + r) (- x)) (\<lambda>m2. Inr (Cont m2))
     else Inr (Cont m1)))))))"

definition full_var_nonz_step ::
  "int list \<Rightarrow> int list \<Rightarrow> real list \<Rightarrow> real \<Rightarrow> int \<Rightarrow> int \<Rightarrow> real list \<Rightarrow> real list ctl res" where
  "full_var_nonz_step vrow vcol vval fixedval size' i fullmatrix =
     bnd (rd vrow i) (\<lambda>r.
     bnd (rd vcol i) (\<lambda>c.
     bnd (assert_that (0 \<le> r \<and> r < size')) (\<lambda>_.
     bnd (assert_that (0 \<le> c \<and> c < size')) (\<lambda>_.
     bnd (rd vval i) (\<lambda>x.
     bnd (rd fullmatrix (r * size' + c)) (\<lambda>old.
     bnd (wr fullmatrix (r * size' + c) (old + fixedval * x)) (\<lambda>m1.
     if r \<noteq> c
     then bnd (rd m1 (c * size' + r)) (\<lambda>old'.
          bnd (wr m1 (c * size' + r) (old' + fixedval * x)) (\<lambda>m2. Inr (Cont m2)))
     else Inr (Cont m1))))))))"

definition full_var_step :: "sdpi \<Rightarrow> int \<Rightarrow> int \<Rightarrow> int \<Rightarrow> real list \<Rightarrow> real list ctl res" where
  "full_var_step s b size' v fullmatrix =
     bnd (rd (sdpvar s) b) (\<lambda>vb. bnd (rd vb v) (\<lambda>varidx.
     bnd (rd (sdpilb s) varidx) (\<lambda>fixedval.
     bnd (rd (sdpiub s) varidx) (\<lambda>u.
     bnd (assert_that (\<bar>fixedval - u\<bar> \<le> epsilon s)) (\<lambda>_.
     if \<bar>fixedval\<bar> < epsilon s then Inr (Cont fullmatrix)
     else
       bnd (rd (sdpnblockvarnonz s) b) (\<lambda>nb. bnd (rd nb v) (\<lambda>nnz.
       bnd (rd (sdprow s) b) (\<lambda>rb. bnd (rd rb v) (\<lambda>vrow.
       bnd (rd (sdpcol s) b) (\<lambda>cb. bnd (rd cb v) (\<lambda>vcol.
       bnd (rd (sdpval s) b) (\<lambda>xb. bnd (rd xb v) (\<lambda>vval.
       for_loop 0 nnz (full_var_nonz_step vrow vcol vval fixedval size') fullmatrix)))))))))))))"

text \<open>The matrix of block \<open>b\<close> as the function builds it in the buffer \<open>fullmatrix\<close>.\<close>

definition build_fullmatrix :: "sdpi \<Rightarrow> int \<Rightarrow> real list \<Rightarrow> real list res" where
  "build_fullmatrix s b fullmatrix =
     bnd (rd (sdpblocksizes s) b) (\<lambda>size'.
     bnd (for_loop 0 (size' * size') (\<lambda>i m. bnd (wr m i 0) (\<lambda>m'. Inr (Cont m'))) fullmatrix) (\<lambda>c0.
     bnd (rd (sdpconstnblocknonz s) b) (\<lambda>cn.
     bnd (rd (sdpconstrow s) b) (\<lambda>crow.
     bnd (rd (sdpconstcol s) b) (\<lambda>ccol.
     bnd (rd (sdpconstval s) b) (\<lambda>cval.
     bnd (for_loop 0 cn (full_const_step crow ccol cval size') (ctl_state c0)) (\<lambda>c1.
     bnd (rd (sdpnblockvars s) b) (\<lambda>nv.
     bnd (for_loop 0 nv (full_var_step s b size') (ctl_state c1)) (\<lambda>c2.
     Inr (ctl_state c2))))))))))"

definition check_block_step ::
  "(int \<Rightarrow> real list \<Rightarrow> SCIP_RETCODE \<times> real \<times> real list) \<Rightarrow> int \<Rightarrow> int
     \<Rightarrow> sdpi \<times> real list \<Rightarrow> (sdpi \<times> real list) ctl res" where
  "check_block_step eig maxsize b st =
     (case st of (s, fullmatrix) \<Rightarrow>
        bnd (rd (sdpblocksizes s) b) (\<lambda>size'.
        bnd (assert_that (size' \<le> maxsize)) (\<lambda>_.
        bnd (build_fullmatrix s b fullmatrix) (\<lambda>m.
        case eig size' (take (nat (size' * size')) m) of (ret, eigenvalue, eigenvector) \<Rightarrow>
          bnd (SCIP_CALL ret) (\<lambda>_.
          bnd (case allfixedeigenvecs s of
                 None \<Rightarrow> Inr s
               | Some vecs \<Rightarrow> bnd (wr vecs b eigenvector) (\<lambda>vecs'.
                              Inr (s\<lparr>allfixedeigenvecs := Some vecs'\<rparr>))) (\<lambda>s1.
          if eigenvalue < - feastol s1
          then Inr (Brk (s1\<lparr>infeasible := True\<rparr>, m))
          else Inr (Cont (s1, m))))))))"

definition checkFixedFeasibilitySdp ::
  "bool \<Rightarrow> (int \<Rightarrow> real list \<Rightarrow> SCIP_RETCODE \<times> real \<times> real list) \<Rightarrow> sdpi \<Rightarrow> sdpi res" where
  "checkFixedFeasibilitySdp memok eig s =
     bnd (assert_that (allfixed s)) (\<lambda>_.
     bnd (assert_that (\<not> infeasible s)) (\<lambda>_.
     bnd (for_loop 0 (nsdpblocks s)
            (\<lambda>b maxsize. bnd (rd (sdpblocksizes s) b) (\<lambda>size'.
               Inr (Cont (if size' > maxsize then size' else maxsize)))) (- 1)) (\<lambda>cm.
     let maxsize = ctl_state cm in
     if maxsize < 0 then Inr s
     else
       bnd (BMS_CALL memok) (\<lambda>_.
       bnd (for_loop 0 (nsdpblocks s) (check_block_step eig maxsize)
              (s, replicate (nat (maxsize * maxsize)) 0)) (\<lambda>c.
       Inr (fst (ctl_state c)))))))"

section \<open>Solving\<close>

text \<open>
  What the solve needs from outside the interface.  The backend is an external collaborator:
  \<open>LoadAndSolve k\<close> is what the \<open>k\<close>-th call of \<^verbatim>\<open>SCIPsdpiSolverLoadAndSolve\<close> or
  \<^verbatim>\<open>SCIPsdpiSolverLoadAndSolveWithPenalty\<close> gives: its return code, the answers of the
  backend's queries after the call, and the outputs \<open>feasorig\<close> and \<open>penaltybound\<close>.  Every
  sequence of backend results is such a function.  \<open>SetRealpar_ret\<close> and \<open>IncreaseCounter_ret\<close>
  are the return codes of the backend functions of these names, \<open>SolveOneVarSDP\<close> is what the
  one-variable solver returns (return code, certificate value, objective value, optimal
  value), \<open>ComputeIthEigenvalue\<close> the eigenvalue routine.  \<open>alloc_ok\<close> tells whether the
  allocations of the call succeed.  \<open>scip_debug\<close> tells whether \<^verbatim>\<open>SCIP_DEBUG\<close> is defined:
  the macro \<^verbatim>\<open>SCIPdebugMessage\<close> belongs to the SCIP library and evaluates its arguments
  only then (in \<^verbatim>\<open>sdpi.c\<close> the definition of \<^verbatim>\<open>SCIP_DEBUG\<close> is commented out).  The clock
  \<open>usedsdpitime\<close> is not modelled.
\<close>

record solverres =
  ls_ret :: SCIP_RETCODE
  ls_solver :: sdpisolver
  ls_feasorig :: bool
  ls_penaltybound :: bool

record env =
  alloc_ok :: bool
  scip_debug :: bool
  LoadAndSolve :: "nat \<Rightarrow> solverres"
  SetRealpar_ret :: SCIP_RETCODE
  IncreaseCounter_ret :: SCIP_RETCODE
  SolveOneVarSDP :: "SCIP_RETCODE \<times> real \<times> real \<times> real"
  ComputeIthEigenvalue :: "int \<Rightarrow> real list \<Rightarrow> SCIP_RETCODE \<times> real \<times> real list"

text \<open>
  A load-and-solve call: the backend's state becomes the one the call gives; its constants
  (infinity, the tolerance set, its counter) stay.  The result is the interface and the
  outputs \<open>feasorig\<close> and \<open>penaltybound\<close>.
\<close>

definition call_solver :: "env \<Rightarrow> solvercall \<Rightarrow> sdpi \<Rightarrow> (sdpi \<times> bool \<times> bool) res" where
  "call_solver e c s =
     (let r = LoadAndSolve e (length (solvercalls (sdpisolver s))) in
      bnd (SCIP_CALL (ls_ret r)) (\<lambda>_.
      Inr (s\<lparr>sdpisolver := (ls_solver r)\<lparr>solvercalls := c # solvercalls (sdpisolver s),
               solverinfinity := solverinfinity (sdpisolver s),
               SolverIsInfinity := SolverIsInfinity (sdpisolver s),
               solvergaptol := solvergaptol (sdpisolver s),
               solvercounter := solvercounter (sdpisolver s)\<rparr>\<rparr>,
           ls_feasorig r, ls_penaltybound r)))"

text \<open>The block "add time, iterations and sdpcalls".\<close>

definition add_stats :: "sdpi \<Rightarrow> sdpi res" where
  "add_stats s =
     bnd (SCIP_CALL (GetTime_ret (sdpisolver s))) (\<lambda>_.
     bnd (SCIP_CALL (GetIterations_ret (sdpisolver s))) (\<lambda>_.
     bnd (int_add (niterations s) (GetIterations (sdpisolver s))) (\<lambda>niterations'.
     bnd (SCIP_CALL (GetSdpCalls_ret (sdpisolver s))) (\<lambda>_.
     bnd (int_add (nsdpcalls s) (GetSdpCalls (sdpisolver s))) (\<lambda>nsdpcalls'.
     Inr (s\<lparr>opttime := opttime s + GetTime (sdpisolver s),
            niterations := niterations', nsdpcalls := nsdpcalls'\<rparr>))))))"

text \<open>
  \<^verbatim>\<open>SCIP_CALL_PARAM(SCIPsdpiSolverSetRealpar(sdpisolver, SCIP_SDPPAR_GAPTOL, g))\<close>: a
  return code other than \<^verbatim>\<open>SCIP_OKAY\<close> and \<^verbatim>\<open>SCIP_PARAMETERUNKNOWN\<close> runs into \<^verbatim>\<open>SCIPABORT()\<close>.
\<close>

definition set_solver_gaptol :: "env \<Rightarrow> sdpi \<Rightarrow> real \<Rightarrow> sdpi res" where
  "set_solver_gaptol e s g =
     (if SetRealpar_ret e = SCIP_OKAY
      then Inr (s\<lparr>sdpisolver := (sdpisolver s)\<lparr>solvergaptol := g\<rparr>\<rparr>)
      else if SetRealpar_ret e \<noteq> SCIP_PARAMETERUNKNOWN then Inl AssertFailed
      else Inl (Returned (SetRealpar_ret e)))"

definition increase_counter :: "env \<Rightarrow> sdpi \<Rightarrow> sdpi res" where
  "increase_counter e s =
     bnd (SCIP_CALL (IncreaseCounter_ret e)) (\<lambda>_.
     Inr (s\<lparr>sdpisolver := (sdpisolver s)\<lparr>solvercounter := solvercounter (sdpisolver s) + 1\<rparr>\<rparr>))"

text \<open>
  \<^verbatim>\<open>checkSlaterCondition\<close>.  Two auxiliary problems are given to the backend and the two
  verdicts are stored.  The function comes in three parts: the check of the dual problem
  (\<open>slater_dual\<close>), the construction of the arrays of the second problem (\<open>slater_arrays\<close>), and
  the check of the primal problem (\<open>slater_primal\<close>).  The arrays are local: the model builds
  them as the source does, with its allocations, its calls of \<^verbatim>\<open>isFixed\<close> and its array
  accesses, and keeps of them the counter \<open>slaternremovedvarbounds\<close>, which decides whether
  the second problem is solved.  Messages are not modelled.
\<close>

definition slater_dual :: "env \<Rightarrow> sdpi \<Rightarrow> sdpi res" where
  "slater_dual e s =
     bnd (call_solver e (LoadAndSolveWithPenalty_call 1 False False) s) (\<lambda>r1.
     let s1 = fst r1; sv = sdpisolver s1 in
     if IsOptimal sv then
       bnd (SCIP_CALL (GetObjval_ret sv)) (\<lambda>_.
       Inr (s1\<lparr>dualslater :=
                 (if GetObjval sv < - feastol s1 then SCIP_SDPSLATER_HOLDS
                  else if GetObjval sv < feastol s1 then SCIP_SDPSLATER_NOT
                  else SCIP_SDPSLATER_INF)\<rparr>))
     else if IsDualUnbounded sv then Inr (s1\<lparr>dualslater := SCIP_SDPSLATER_HOLDS\<rparr>)
     else if IsDualInfeasible sv then Inr (s1\<lparr>dualslater := SCIP_SDPSLATER_NOT\<rparr>)
     else Inr (s1\<lparr>dualslater := SCIP_SDPSLATER_NOINFO\<rparr>))"

text \<open>The loops over the entries: copy, fill in, add the diagonal entries, remove.\<close>

definition slater_copy :: "sdpi \<Rightarrow> int \<Rightarrow> int list \<times> real list \<Rightarrow> (int list \<times> real list) ctl res" where
  "slater_copy s i st =
     (case st of (slaterlpind, slaterlpval) \<Rightarrow>
        bnd (rd (sdpilpind s) i) (\<lambda>x.
        bnd (wr slaterlpind i x) (\<lambda>ind'.
        bnd (rd (sdpilpval s) i) (\<lambda>y.
        bnd (wr slaterlpval i y) (\<lambda>val'.
        Inr (Cont (ind', val')))))))"

definition slater_fill :: "int \<Rightarrow> int \<Rightarrow> int list \<times> real list \<Rightarrow> (int list \<times> real list) ctl res" where
  "slater_fill sdpilpnnonz v st =
     (case st of (slaterlpind, slaterlpval) \<Rightarrow>
        bnd (wr slaterlpind (sdpilpnnonz + v) v) (\<lambda>ind'.
        bnd (wr slaterlpval (sdpilpnnonz + v) 0) (\<lambda>val'.
        Inr (Cont (ind', val')))))"

definition slater_diag_nonz ::
  "sdpi \<Rightarrow> int \<Rightarrow> int \<Rightarrow> int \<Rightarrow> int \<Rightarrow> real list \<Rightarrow> real list ctl res" where
  "slater_diag_nonz s sdpilpnnonz b v i slaterlpval =
     bnd (rd (sdprow s) b) (\<lambda>rb. bnd (rd rb v) (\<lambda>rv. bnd (rd rv i) (\<lambda>r.
     bnd (rd (sdpcol s) b) (\<lambda>cb. bnd (rd cb v) (\<lambda>cv. bnd (rd cv i) (\<lambda>c.
     if r = c then
       bnd (rd (sdpvar s) b) (\<lambda>vb. bnd (rd vb v) (\<lambda>varidx.
       bnd (rd (sdpval s) b) (\<lambda>xb. bnd (rd xb v) (\<lambda>xv. bnd (rd xv i) (\<lambda>x.
       bnd (rd slaterlpval (sdpilpnnonz + varidx)) (\<lambda>old.
       bnd (wr slaterlpval (sdpilpnnonz + varidx) (old + x)) (\<lambda>val'.
       Inr (Cont val'))))))))
     else Inr (Cont slaterlpval)))))))"

definition slater_diag_var :: "sdpi \<Rightarrow> int \<Rightarrow> int \<Rightarrow> int \<Rightarrow> real list \<Rightarrow> real list ctl res" where
  "slater_diag_var s sdpilpnnonz b v slaterlpval =
     bnd (isFixed s v) (\<lambda>fx.
     if \<not> fx then
       bnd (rd (sdpnblockvarnonz s) b) (\<lambda>nb. bnd (rd nb v) (\<lambda>nnz.
       bnd (for_loop 0 nnz (slater_diag_nonz s sdpilpnnonz b v) slaterlpval) (\<lambda>c.
       Inr (Cont (ctl_state c)))))
     else Inr (Cont slaterlpval))"

definition slater_diag_block :: "sdpi \<Rightarrow> int \<Rightarrow> int \<Rightarrow> real list \<Rightarrow> real list ctl res" where
  "slater_diag_block s sdpilpnnonz b slaterlpval =
     bnd (rd (sdpnblockvars s) b) (\<lambda>nv.
     bnd (for_loop 0 nv (slater_diag_var s sdpilpnnonz b) slaterlpval) (\<lambda>c.
     Inr (Cont (ctl_state c))))"

definition slater_remove ::
  "sdpi \<Rightarrow> int \<Rightarrow> int \<Rightarrow> int list \<times> real list \<times> int \<Rightarrow> (int list \<times> real list \<times> int) ctl res" where
  "slater_remove s sdpilpnnonz v st =
     (case st of (slaterlpind, slaterlpval, nremovedslaterlpinds) \<Rightarrow>
        bnd (isFixed s v) (\<lambda>fx.
        bnd (if fx then Inr True
             else bnd (rd slaterlpval (sdpilpnnonz + v)) (\<lambda>x. Inr (\<bar>x\<bar> \<le> epsilon s))) (\<lambda>rm.
        if rm then Inr (Cont (slaterlpind, slaterlpval, nremovedslaterlpinds + 1))
        else
          bnd (rd slaterlpind (sdpilpnnonz + v)) (\<lambda>x.
          bnd (wr slaterlpind (sdpilpnnonz + v - nremovedslaterlpinds) x) (\<lambda>ind'.
          bnd (rd slaterlpval (sdpilpnnonz + v)) (\<lambda>y.
          bnd (wr slaterlpval (sdpilpnnonz + v - nremovedslaterlpinds) y) (\<lambda>val'.
          Inr (Cont (ind', val', nremovedslaterlpinds)))))))))"

text \<open>
  The loop over the rows; its state is the four arrays of \<open>nlpcons + 1\<close> cells and the counter
  \<open>nremovedlpcons\<close>.
\<close>

definition slater_row ::
  "sdpi \<Rightarrow> int \<Rightarrow> int list \<times> real list \<times> real list \<times> int list \<times> int
     \<Rightarrow> (int list \<times> real list \<times> real list \<times> int list \<times> int) ctl res" where
  "slater_row s i st =
     (case st of (chg, lhs, rhs, beg, nremovedlpcons) \<Rightarrow>
        bnd (rd (sdpilpindchanges s) i) (\<lambda>c.
        bnd (wr chg i c) (\<lambda>chg'.
        bnd (rd (sdpilpbeg s) i) (\<lambda>b.
        bnd (wr beg i b) (\<lambda>beg'.
        if c \<ge> 0 then
          bnd (rd (sdpilplhs s) i) (\<lambda>l.
          bnd (wr lhs i (if SolverIsInfinity (sdpisolver s) l then l else 0)) (\<lambda>lhs'.
          bnd (rd (sdpilprhs s) i) (\<lambda>r.
          bnd (wr rhs i (if SolverIsInfinity (sdpisolver s) r then r else 0)) (\<lambda>rhs'.
          Inr (Cont (chg', lhs', rhs', beg', nremovedlpcons))))))
        else Inr (Cont (chg', lhs, rhs, beg', nremovedlpcons + 1)))))))"

text \<open>
  \<^verbatim>\<open>DUPLICATE_ARRAY_NULL\<close> copies \<open>size\<close> cells of the source when \<open>size > 0\<close> and gives NULL, the
  empty array, otherwise.
\<close>

definition DUPLICATE_ARRAY_NULL :: "bool \<Rightarrow> 'a list \<Rightarrow> int \<Rightarrow> 'a list res" where
  "DUPLICATE_ARRAY_NULL memok source sz =
     (if sz > 0
      then bnd (BMS_CALL memok) (\<lambda>_.
           if sz \<le> int (length source) then Inr (take (nat sz) source) else Inl OutOfBounds)
      else Inr [])"

definition slater_bound ::
  "sdpi \<Rightarrow> int \<Rightarrow> real list \<times> real list \<times> int \<Rightarrow> (real list \<times> real list \<times> int) ctl res" where
  "slater_bound s v st =
     (case st of (slaterlb, slaterub, slaternremovedvarbounds) \<Rightarrow>
        bnd (rd slaterlb v) (\<lambda>l.
        bnd (if \<not> SolverIsInfinity (sdpisolver s) l
             then bnd (wr slaterlb v 0) (\<lambda>lb'. Inr (lb', slaternremovedvarbounds + 1))
             else Inr (slaterlb, slaternremovedvarbounds)) (\<lambda>(lb', n1).
        bnd (rd slaterub v) (\<lambda>u.
        bnd (if \<not> SolverIsInfinity (sdpisolver s) u
             then bnd (wr slaterub v 0) (\<lambda>ub'. Inr (ub', n1 + 1))
             else Inr (slaterub, n1)) (\<lambda>(ub', n2).
        Inr (Cont (lb', ub', n2)))))))"

text \<open>The result of the construction is \<open>slaternremovedvarbounds\<close>.\<close>

definition slater_arrays :: "env \<Rightarrow> sdpi \<Rightarrow> int \<Rightarrow> int res" where
  "slater_arrays e s sdpilpnnonz =
     bnd (BMS_CALL (alloc_ok e)) (\<lambda>_.
     bnd (BMS_CALL (alloc_ok e)) (\<lambda>_.
     bnd (for_loop 0 sdpilpnnonz (slater_copy s)
            (replicate (nat (sdpilpnnonz + nvars s)) 0, replicate (nat (sdpilpnnonz + nvars s)) 0)) (\<lambda>c1.
     bnd (for_loop 0 (nvars s) (slater_fill sdpilpnnonz) (ctl_state c1)) (\<lambda>c2.
     bnd (for_loop 0 (nsdpblocks s) (slater_diag_block s sdpilpnnonz) (snd (ctl_state c2))) (\<lambda>c3.
     bnd (for_loop 0 (nvars s) (slater_remove s sdpilpnnonz)
            (fst (ctl_state c2), ctl_state c3, 0)) (\<lambda>c4.
     bnd (BMS_CALL (alloc_ok e)) (\<lambda>_.
     bnd (BMS_CALL (alloc_ok e)) (\<lambda>_.
     bnd (BMS_CALL (alloc_ok e)) (\<lambda>_.
     bnd (BMS_CALL (alloc_ok e)) (\<lambda>_.
     let m = nat (nlpcons s + 1) in
     bnd (for_loop 0 (nlpcons s) (slater_row s)
            (replicate m 0, replicate m 0, replicate m 0, replicate m 0, 0)) (\<lambda>c5.
     case ctl_state c5 of (chg, lhs, rhs, beg, nremovedlpcons) \<Rightarrow>
       bnd (wr chg (nlpcons s) nremovedlpcons) (\<lambda>_.
       bnd (wr lhs (nlpcons s) 1) (\<lambda>_.
       bnd (wr rhs (nlpcons s) (solverinfinity (sdpisolver s))) (\<lambda>_.
       bnd (wr beg (nlpcons s) sdpilpnnonz) (\<lambda>_.
       bnd (DUPLICATE_ARRAY_NULL (alloc_ok e) (sdpilb s) (nvars s)) (\<lambda>slaterlb.
       bnd (DUPLICATE_ARRAY_NULL (alloc_ok e) (sdpiub s) (nvars s)) (\<lambda>slaterub.
       bnd (for_loop 0 (nvars s) (slater_bound s) (slaterlb, slaterub, 0)) (\<lambda>c6.
       Inr (snd (snd (ctl_state c6)))))))))))))))))))))"

definition slater_primal :: "env \<Rightarrow> sdpi \<Rightarrow> sdpi res" where
  "slater_primal e s =
     bnd (call_solver e LoadAndSolve_call s) (\<lambda>r3.
     let s3 = fst r3; sv3 = sdpisolver s3 in
     if IsOptimal sv3 then
       bnd (SCIP_CALL (GetObjval_ret sv3)) (\<lambda>_.
       Inr (s3\<lparr>primalslater :=
                 (if GetObjval sv3 > - feastol s3 then SCIP_SDPSLATER_NOT
                  else SCIP_SDPSLATER_HOLDS)\<rparr>))
     else if IsDualUnbounded sv3 then Inr (s3\<lparr>primalslater := SCIP_SDPSLATER_NOT\<rparr>)
     else if IsPrimalUnbounded sv3 then Inr (s3\<lparr>primalslater := SCIP_SDPSLATER_HOLDS\<rparr>)
     else Inr (s3\<lparr>primalslater := SCIP_SDPSLATER_NOINFO\<rparr>))"

definition checkSlaterCondition :: "env \<Rightarrow> sdpi \<Rightarrow> int \<Rightarrow> bool \<Rightarrow> sdpi res" where
  "checkSlaterCondition e s sdpilpnnonz rootnodefailed =
     bnd (slater_dual e s) (\<lambda>s2.
     bnd (slater_arrays e s2 sdpilpnnonz) (\<lambda>slaternremovedvarbounds.
     if slaternremovedvarbounds = 2 * nvars s2
     then Inr (s2\<lparr>primalslater := SCIP_SDPSLATER_HOLDS\<rparr>)
     else slater_primal e s2))"

text \<open>
  \<^verbatim>\<open>SCIPsdpiSolve\<close>, block by block.  First the assignments at its start.
\<close>

definition solve_reset :: "sdpi \<Rightarrow> sdpi" where
  "solve_reset s =
     s\<lparr>penalty := False, bestbound := - solverinfinity (sdpisolver s), solved := False,
       infeasible := False, allfixed := False, nsdpcalls := 0, niterations := 0, opttime := 0,
       solvedonevarsdp := SCIP_ONEVAR_UNSOLVED, onevarsdpobjval := SCIP_INVALID,
       onevarsdpoptval := SCIP_INVALID, onevarsdpidx := - 1, onevarsdpcertval := SCIP_INVALID\<rparr>"

text \<open>
  The loop "copy bounds" runs while \<open>infeasible\<close> is false; the flag is false when the loop
  starts, so the loop ends with the first variable that sets it.
\<close>

definition copy_bound :: "int \<Rightarrow> sdpi \<Rightarrow> sdpi ctl res" where
  "copy_bound v s =
     bnd (rd (lb s) v) (\<lambda>l.
     bnd (wr (sdpilb s) v l) (\<lambda>lbs.
     bnd (rd (ub s) v) (\<lambda>u.
     bnd (wr (sdpiub s) v u) (\<lambda>ubs.
     let s1 = s\<lparr>sdpilb := lbs, sdpiub := ubs\<rparr> in
     if u < l - feastol s then Inr (Brk (s1\<lparr>infeasible := True\<rparr>)) else Inr (Cont s1)))))"

text \<open>
  The block "exit if infeasible", which occurs twice, and its twin for the case that all
  variables are fixed.  The increment \<^verbatim>\<open>sdpi->sdpid++\<close> is an argument of the macro
  \<^verbatim>\<open>SCIPdebugMessage\<close> here, so it takes place only when \<^verbatim>\<open>SCIP_DEBUG\<close> is defined.
\<close>

definition debug_sdpid :: "env \<Rightarrow> sdpi \<Rightarrow> sdpi res" where
  "debug_sdpid e s =
     (if scip_debug e then bnd (int_add (sdpid s) 1) (\<lambda>sdpid'. Inr (s\<lparr>sdpid := sdpid'\<rparr>))
      else Inr s)"

definition exit_infeasible :: "env \<Rightarrow> sdpi \<Rightarrow> sdpi res" where
  "exit_infeasible e s =
     bnd (debug_sdpid e s) (\<lambda>s0.
     bnd (increase_counter e s0) (\<lambda>s1.
     bnd (int_add (ninfeasible s1) 1) (\<lambda>ninfeasible'.
     Inr (s1\<lparr>solved := True, dualslater := SCIP_SDPSLATER_NOINFO,
            primalslater := SCIP_SDPSLATER_NOINFO, ninfeasible := ninfeasible'\<rparr>))))"

definition exit_allfixed :: "env \<Rightarrow> sdpi \<Rightarrow> sdpi res" where
  "exit_allfixed e s =
     bnd (checkFixedFeasibilitySdp (alloc_ok e) (ComputeIthEigenvalue e) s) (\<lambda>s1.
     bnd (debug_sdpid e s1) (\<lambda>s0.
     bnd (increase_counter e s0) (\<lambda>s2.
     bnd (int_add (nallfixed s2) 1) (\<lambda>nallfixed'.
     Inr (s2\<lparr>solved := True, dualslater := SCIP_SDPSLATER_NOINFO,
            primalslater := SCIP_SDPSLATER_NOINFO, nallfixed := nallfixed'\<rparr>)))))"

text \<open>
  The loop that counts the variables that are not fixed; its state is \<open>nactivevars\<close>,
  \<open>activevaridx\<close> and \<open>fixedvarsobjcontr\<close>.
\<close>

definition count_active :: "sdpi \<Rightarrow> int \<Rightarrow> int \<times> int \<times> real \<Rightarrow> (int \<times> int \<times> real) ctl res" where
  "count_active s v st =
     (case st of (nactivevars, activevaridx, fixedvarsobjcontr) \<Rightarrow>
        bnd (isFixed s v) (\<lambda>fx.
        if \<not> fx then Inr (Cont (nactivevars + 1, v, fixedvarsobjcontr))
        else bnd (rd (obj s) v) (\<lambda>c.
             bnd (rd (sdpilb s) v) (\<lambda>l.
             Inr (Cont (nactivevars, activevaridx, fixedvarsobjcontr + c * l))))))"

text \<open>
  The local arrays for the constant matrix after fixings: the lengths
  \<open>maxsdpconstnblocknonz\<close>, \<open>sdpconstnblocknonz\<close> and the arrays of rows, columns and values.
\<close>

definition alloc_block ::
  "env \<Rightarrow> sdpi \<Rightarrow> int \<Rightarrow> int list \<times> int list \<times> int list list \<times> int list list \<times> real list list
     \<Rightarrow> (int list \<times> int list \<times> int list list \<times> int list list \<times> real list list) ctl res" where
  "alloc_block e s b st =
     (case st of (maxn, nbn, rows, cols, vals) \<Rightarrow>
        bnd (rd (sdpblocksizes s) b) (\<lambda>size'.
        let m = min (sdpnnonz s + sdpconstnnonz s) (size' * (size' + 1) div 2) in
        bnd (wr maxn b m) (\<lambda>maxn'.
        bnd (BMS_CALL (alloc_ok e)) (\<lambda>_.
        bnd (wr rows b (replicate (nat m) 0)) (\<lambda>rows'.
        bnd (BMS_CALL (alloc_ok e)) (\<lambda>_.
        bnd (wr cols b (replicate (nat m) 0)) (\<lambda>cols'.
        bnd (BMS_CALL (alloc_ok e)) (\<lambda>_.
        bnd (wr vals b (replicate (nat m) 0)) (\<lambda>vals'.
        bnd (wr nbn b m) (\<lambda>nbn'.
        Inr (Cont (maxn', nbn', rows', cols', vals'))))))))))))"

definition alloc_const ::
  "env \<Rightarrow> sdpi \<Rightarrow> (int list \<times> int list \<times> int list list \<times> int list list \<times> real list list) res" where
  "alloc_const e s =
     bnd (BMS_CALL (alloc_ok e)) (\<lambda>_.
     bnd (BMS_CALL (alloc_ok e)) (\<lambda>_.
     bnd (BMS_CALL (alloc_ok e)) (\<lambda>_.
     bnd (BMS_CALL (alloc_ok e)) (\<lambda>_.
     bnd (BMS_CALL (alloc_ok e)) (\<lambda>_.
     let n = nat (nsdpblocks s) in
     bnd (for_loop 0 (nsdpblocks s) (alloc_block e s)
            (replicate n 0, replicate n 0, replicate n [], replicate n [], replicate n [])) (\<lambda>c.
     Inr (ctl_state c)))))))"

text \<open>
  The block "check whether problem contains one variable and one SDP block".  The search for
  the index of the variable in the block leaves \<open>v\<close> at \<open>sdpnblockvars[0]\<close> when the variable
  does not occur there.
\<close>

definition find_blockvar :: "sdpi \<Rightarrow> int \<Rightarrow> int \<Rightarrow> int \<Rightarrow> int ctl res" where
  "find_blockvar s activevaridx v found =
     bnd (rd (sdpvar s) 0) (\<lambda>vb.
     bnd (rd vb v) (\<lambda>x.
     if x = activevaridx then Inr (Brk v) else Inr (Cont (v + 1))))"

definition onevar_lp :: "sdpi \<Rightarrow> int \<Rightarrow> real \<Rightarrow> sdpi res" where
  "onevar_lp s activevaridx fixedvarsobjcontr =
     bnd (rd (sdpilb s) activevaridx) (\<lambda>l.
     bnd (rd (sdpiub s) activevaridx) (\<lambda>u.
     if \<not> SCIPsdpiIsInfinity s l \<and> \<not> SCIPsdpiIsInfinity s u then
       bnd (rd (obj s) activevaridx) (\<lambda>c.
       let s1 = (if c \<ge> 0 then s\<lparr>onevarsdpoptval := l, onevarsdpobjval := c * l\<rparr>
                 else s\<lparr>onevarsdpoptval := u, onevarsdpobjval := c * u\<rparr>)
       in bnd (int_add (nonevarsdp s1) 1) (\<lambda>nonevarsdp'.
          Inr (s1\<lparr>solved := True, dualslater := SCIP_SDPSLATER_NOINFO,
                  primalslater := SCIP_SDPSLATER_NOINFO, onevarsdpidx := activevaridx,
                  solvedonevarsdp := SCIP_ONEVAR_OPTIMAL,
                  onevarsdpobjval := onevarsdpobjval s1 + fixedvarsobjcontr,
                  onevarsdpcertval := SCIP_INVALID, nonevarsdp := nonevarsdp'\<rparr>)))
     else Inr s))"

text \<open>
  The certificate vector \<open>onevarsdpcertvec\<close> is allocated with \<open>sdpblocksizes[0]\<close> cells when it
  is NULL.  When it exists with another size, \<^verbatim>\<open>BMSreallocBlockMemoryArray\<close>, which takes the
  old size before the new one, is called with \<open>sdpblocksizes[0]\<close> as the old and
  \<open>onevarsdpcertsize\<close> as the new size: the vector keeps \<open>onevarsdpcertsize\<close> cells, and
  \<open>onevarsdpcertsize\<close> becomes \<open>sdpblocksizes[0]\<close>.
\<close>

definition onevar_sdp ::
  "env \<Rightarrow> sdpi \<Rightarrow> int \<Rightarrow> real \<Rightarrow> int list \<Rightarrow> int list list \<Rightarrow> int list list \<Rightarrow> real list list
     \<Rightarrow> sdpi res" where
  "onevar_sdp e s activevaridx fixedvarsobjcontr nbn rows cols vals =
     bnd (rd (sdpnblockvars s) 0) (\<lambda>nv.
     bnd (for_loop 0 nv (find_blockvar s activevaridx) 0) (\<lambda>cv.
     let v = ctl_state cv in
     bnd (rd (sdpblocksizes s) 0) (\<lambda>size'.
     bnd (case onevarsdpcertvec s of
            None \<Rightarrow> bnd (BMS_CALL (alloc_ok e)) (\<lambda>_.
                    Inr (s\<lparr>onevarsdpcertvec := Some (replicate (nat size') 0),
                           onevarsdpcertsize := size'\<rparr>))
          | Some vec \<Rightarrow>
              if onevarsdpcertsize s \<noteq> size'
              then bnd (BMS_CALL (alloc_ok e)) (\<lambda>_.
                   Inr (s\<lparr>onevarsdpcertvec := Some (realloc_array vec (onevarsdpcertsize s) 0),
                          onevarsdpcertsize := size'\<rparr>))
              else Inr s) (\<lambda>s1.
     bnd (rd (obj s1) activevaridx) (\<lambda>_.
     bnd (rd (sdpilb s1) activevaridx) (\<lambda>_.
     bnd (rd (sdpiub s1) activevaridx) (\<lambda>_.
     bnd (rd nbn 0) (\<lambda>_. bnd (rd rows 0) (\<lambda>_. bnd (rd cols 0) (\<lambda>_. bnd (rd vals 0) (\<lambda>_.
     bnd (rd (sdpnblockvarnonz s1) 0) (\<lambda>nb. bnd (rd nb v) (\<lambda>_.
     bnd (rd (sdprow s1) 0) (\<lambda>rb. bnd (rd rb v) (\<lambda>_.
     bnd (rd (sdpcol s1) 0) (\<lambda>cb. bnd (rd cb v) (\<lambda>_.
     bnd (rd (sdpval s1) 0) (\<lambda>xb. bnd (rd xb v) (\<lambda>_.
     case SolveOneVarSDP e of (ret, certval, objval, optval) \<Rightarrow>
       bnd (SCIP_CALL ret) (\<lambda>_.
       let s2 = s1\<lparr>onevarsdpcertval := certval\<rparr> in
       if objval \<noteq> SCIP_INVALID then
         (let s3 = s2\<lparr>solved := True, dualslater := SCIP_SDPSLATER_NOINFO,
                      primalslater := SCIP_SDPSLATER_NOINFO, onevarsdpobjval := objval,
                      onevarsdpoptval := optval, onevarsdpidx := activevaridx\<rparr>;
              s4 = (if SCIPsdpiIsInfinity s3 objval
                    then s3\<lparr>solvedonevarsdp := SCIP_ONEVAR_INFEASIBLE\<rparr>
                    else s3\<lparr>solvedonevarsdp := SCIP_ONEVAR_OPTIMAL,
                            onevarsdpobjval := onevarsdpobjval s3 + fixedvarsobjcontr\<rparr>)
          in bnd (int_add (nonevarsdp s4) 1) (\<lambda>nonevarsdp'.
             Inr (s4\<lparr>nonevarsdp := nonevarsdp'\<rparr>)))
       else Inr s2))))))))))))))))))))"

definition solve_onevar ::
  "env \<Rightarrow> sdpi \<Rightarrow> int \<Rightarrow> real \<Rightarrow> int list \<Rightarrow> int list list \<Rightarrow> int list list \<Rightarrow> real list list
     \<Rightarrow> sdpi res" where
  "solve_onevar e s activevaridx fixedvarsobjcontr nbn rows cols vals =
     bnd (assert_that (nactivelpcons s = 0)) (\<lambda>_.
     bnd (assert_that (0 \<le> activevaridx \<and> activevaridx < nvars s)) (\<lambda>_.
     if nsdpblocks s = 0 then onevar_lp s activevaridx fixedvarsobjcontr
     else onevar_sdp e s activevaridx fixedvarsobjcontr nbn rows cols vals))"

text \<open>
  The penalty formulation.  The state of the loop that increases the penalty parameter and
  decreases the gap tolerance is the interface, \<open>penaltyparam\<close>, \<open>gaptol\<close>, \<open>feasorig\<close> and
  \<open>penaltybound\<close>.  The loop need not end, so it is given fuel: the number of rounds it may
  make, and \<open>None\<close> when these do not suffice.  \<^verbatim>\<open>pow\<close> is the power of real numbers.
\<close>

type_synonym penst = "sdpi \<times> real \<times> real \<times> bool \<times> bool"

definition penalty_factors :: "sdpi \<Rightarrow> real \<times> real" where
  "penalty_factors s =
     (if npenaltyincr s > 0
      then ((maxpenaltyparam s / penaltyparam s) powr (1 / real_of_int (npenaltyincr s)),
            (MIN_GAPTOL / gaptol s) powr (1 / real_of_int (npenaltyincr s)))
      else (2 * maxpenaltyparam s / penaltyparam s, (1 / 2) * MIN_GAPTOL / gaptol s))"

definition penalty_cond :: "penst \<Rightarrow> bool" where
  "penalty_cond st =
     (case st of (s, penaltyparam', gaptol', feasorig, penaltybound) \<Rightarrow>
        (\<not> IsAcceptable (sdpisolver s) \<or> \<not> feasorig)
        \<and> penaltyparam' < maxpenaltyparam s + epsilon s
        \<and> gaptol' > (99 / 100) * MIN_GAPTOL
        \<and> \<not> IsTimelimExc (sdpisolver s))"

definition penalty_step :: "env \<Rightarrow> real \<Rightarrow> real \<Rightarrow> penst \<Rightarrow> penst res" where
  "penalty_step e penaltyparamfact gaptolfact st =
     (case st of (s, penaltyparam', gaptol', feasorig, penaltybound) \<Rightarrow>
        bnd (call_solver e (LoadAndSolveWithPenalty_call penaltyparam' True True) s) (\<lambda>r.
        case r of (s1, feasorig1, penaltybound1) \<Rightarrow>
          bnd (add_stats s1) (\<lambda>s2.
          if \<not> IsAcceptable (sdpisolver s2)
          then Inr (s2, penaltyparam' * penaltyparamfact, gaptol', feasorig1, penaltybound1)
          else
            bnd (SCIP_CALL (GetObjval_ret (sdpisolver s2))) (\<lambda>_.
            let objbound = GetObjval (sdpisolver s2);
                s3 = (if objbound > bestbound s2 + gaptol s2 then s2\<lparr>bestbound := objbound\<rparr>
                      else s2)
            in
            if \<not> feasorig1 then
              (if penaltybound1
               then Inr (s3, penaltyparam' * penaltyparamfact, gaptol', feasorig1, penaltybound1)
               else bnd (set_solver_gaptol e s3 (gaptol' * gaptolfact)) (\<lambda>s4.
                    Inr (s4, penaltyparam', gaptol' * gaptolfact, feasorig1, penaltybound1)))
            else Inr (s3, penaltyparam', gaptol', feasorig1, penaltybound1)))))"

fun penalty_loop :: "env \<Rightarrow> real \<Rightarrow> real \<Rightarrow> nat \<Rightarrow> penst \<Rightarrow> penst res option" where
  "penalty_loop e pf gf 0 st = (if penalty_cond st then None else Some (Inr st))"
| "penalty_loop e pf gf (Suc k) st =
     (if penalty_cond st
      then (case penalty_step e pf gf st of
              Inl f \<Rightarrow> Some (Inl f)
            | Inr st' \<Rightarrow> penalty_loop e pf gf k st')
      else Some (Inr st))"

text \<open>
  The branch "the solver didn't produce a satisfactory result": the feasibility check with
  the penalty formulation, and, unless it shows infeasibility, the loop and what follows it.
\<close>

definition penalty_escalation :: "env \<Rightarrow> nat \<Rightarrow> bool \<Rightarrow> int \<Rightarrow> sdpi \<Rightarrow> sdpi res option" where
  "penalty_escalation e fuel enforceslatercheck sdpilpnnonz s =
     (case penalty_loop e (fst (penalty_factors s)) (snd (penalty_factors s)) fuel
             (s, penaltyparam s, gaptol s, False, True) of
        None \<Rightarrow> None
      | Some (Inl f) \<Rightarrow> Some (Inl f)
      | Some (Inr (s1, penaltyparam', gaptol', feasorig, penaltybound)) \<Rightarrow>
          Some (
            bnd (if gaptol' > gaptol s1 then set_solver_gaptol e s1 (gaptol s1) else Inr s1) (\<lambda>s2.
            let s3 = (if IsAcceptable (sdpisolver s2) \<and> feasorig
                      then s2\<lparr>penalty := True, solved := True\<rparr>
                      else s2\<lparr>solved := False, penalty := True\<rparr>)
            in
            if \<not> solved s3 \<and> enforceslatercheck
            then checkSlaterCondition e s3 sdpilpnnonz True
            else Inr s3)))"

definition penalty_phase :: "env \<Rightarrow> nat \<Rightarrow> bool \<Rightarrow> int \<Rightarrow> sdpi \<Rightarrow> sdpi res option" where
  "penalty_phase e fuel enforceslatercheck sdpilpnnonz s =
     (case bnd (call_solver e (LoadAndSolveWithPenalty_call 1 False False) s) (\<lambda>r.
           bnd (add_stats (fst r)) (\<lambda>s1.
           bnd (if WasSolved (sdpisolver s1)
                then bnd (SCIP_CALL (GetObjval_ret (sdpisolver s1))) (\<lambda>_.
                     Inr (GetObjval (sdpisolver s1)))
                else Inr (- SCIPsdpiInfinity s1)) (\<lambda>objval.
           Inr (s1, objval)))) of
        Inl f \<Rightarrow> Some (Inl f)
      | Inr (s1, objval) \<Rightarrow>
          if (IsOptimal (sdpisolver s1)
                \<and> objval > peninfeasadjust s1 * max (feastol s1) (gaptol s1))
             \<or> (WasSolved (sdpisolver s1) \<and> IsDualInfeasible (sdpisolver s1))
          then Some (Inr (s1\<lparr>penalty := True, infeasible := True\<rparr>))
          else penalty_escalation e fuel enforceslatercheck sdpilpnnonz s1)"

text \<open>
  The block "solve SDP if not yet done".  \<open>primary_solve\<close> is its first part, up to the
  statistics of the first call of the backend.
\<close>

definition primary_solve ::
  "env \<Rightarrow> int \<Rightarrow> sdpi \<Rightarrow> int list \<Rightarrow> int list list \<Rightarrow> int list list \<Rightarrow> real list list \<Rightarrow> sdpi res" where
  "primary_solve e sdpilpnnonz s nbn rows cols vals =
     bnd (findEmptyRowColsSDP s nbn rows cols vals) (\<lambda>s1.
     bnd (if slatercheck s1 \<noteq> 0 then checkSlaterCondition e s1 sdpilpnnonz False
          else Inr s1) (\<lambda>s2.
     bnd (call_solver e LoadAndSolve_call s2) (\<lambda>r.
     add_stats ((fst r)\<lparr>solved := True\<rparr>))))"

definition solve_backend ::
  "env \<Rightarrow> nat \<Rightarrow> bool \<Rightarrow> int \<Rightarrow> sdpi \<Rightarrow> int list \<Rightarrow> int list list \<Rightarrow> int list list
     \<Rightarrow> real list list \<Rightarrow> sdpi res option" where
  "solve_backend e fuel enforceslatercheck sdpilpnnonz s nbn rows cols vals =
     (case primary_solve e sdpilpnnonz s nbn rows cols vals of
        Inl f \<Rightarrow> Some (Inl f)
      | Inr s3 \<Rightarrow>
          if \<not> IsAcceptable (sdpisolver s3) \<and> \<not> IsTimelimExc (sdpisolver s3)
          then penalty_phase e fuel enforceslatercheck sdpilpnnonz s3
          else Some (Inr s3))"

text \<open>
  What follows the preprocessing when the problem is not infeasible and not all variables
  are fixed: the constant matrix after fixings, the problem with one variable, the backend,
  and at the end \<^verbatim>\<open>sdpi->sdpid++\<close>.
\<close>

definition active_setup ::
  "env \<Rightarrow> sdpi \<Rightarrow> int \<Rightarrow> int \<Rightarrow> real
     \<Rightarrow> (sdpi \<times> int list \<times> int list list \<times> int list list \<times> real list list) res" where
  "active_setup e s nactivevars activevaridx fixedvarsobjcontr =
     bnd (assert_that (\<not> allfixed s)) (\<lambda>_.
     bnd (assert_that (\<not> infeasible s)) (\<lambda>_.
     bnd (alloc_const e s) (\<lambda>a.
     case a of (maxn, nbn, rows, cols, vals) \<Rightarrow>
       bnd (compConstMatAfterFixings (alloc_ok e) s nbn rows cols vals) (\<lambda>cm.
       case cm of (sdpconstnnonz', nbn', rows', cols', vals') \<Rightarrow>
         bnd (if nactivevars = 1 \<and> nsdpblocks s \<le> 1
              then solve_onevar e s activevaridx fixedvarsobjcontr nbn' rows' cols' vals'
              else Inr s) (\<lambda>s1.
         Inr (s1, nbn', rows', cols', vals'))))))"

definition solve_active ::
  "env \<Rightarrow> nat \<Rightarrow> bool \<Rightarrow> int \<Rightarrow> sdpi \<Rightarrow> int \<Rightarrow> int \<Rightarrow> real \<Rightarrow> sdpi res option" where
  "solve_active e fuel enforceslatercheck sdpilpnnonz s nactivevars activevaridx fixedvarsobjcontr =
     (case active_setup e s nactivevars activevaridx fixedvarsobjcontr of
        Inl f \<Rightarrow> Some (Inl f)
      | Inr (s1, nbn', rows', cols', vals') \<Rightarrow>
          (case (if \<not> solved s1
                 then solve_backend e fuel enforceslatercheck sdpilpnnonz s1 nbn' rows' cols' vals'
                 else Some (Inr s1)) of
             None \<Rightarrow> None
           | Some (Inl f) \<Rightarrow> Some (Inl f)
           | Some (Inr s2) \<Rightarrow>
               Some (bnd (int_add (sdpid s2) 1) (\<lambda>sdpid'. Inr (s2\<lparr>sdpid := sdpid'\<rparr>)))))"

definition SCIPsdpiSolve :: "env \<Rightarrow> nat \<Rightarrow> sdpi \<Rightarrow> bool \<Rightarrow> real \<Rightarrow> sdpi res option" where
  "SCIPsdpiSolve e fuel s enforceslatercheck timelimit =
     (let s0 = solve_reset s in
      if timelimit \<le> 0 then Some (Inr s0)
      else
        (case for_loop 0 (nvars s0) copy_bound s0 of
           Inl f \<Rightarrow> Some (Inl f)
         | Inr c1 \<Rightarrow>
             if infeasible (ctl_state c1) then Some (exit_infeasible e (ctl_state c1))
             else
               (case prepare_loop (ctl_state c1) of
                  Inl f \<Rightarrow> Some (Inl f)
                | Inr (s2, sdpilpnnonz) \<Rightarrow>
                    if infeasible s2 then Some (exit_infeasible e s2)
                    else
                      (case for_loop 0 (nvars s2) (count_active s2) (0, - 1, 0) of
                         Inl f \<Rightarrow> Some (Inl f)
                       | Inr c3 \<Rightarrow>
                           (case ctl_state c3 of (nactivevars, activevaridx, fixedvarsobjcontr) \<Rightarrow>
                              if nactivevars = 0
                              then Some (exit_allfixed e (s2\<lparr>allfixed := True\<rparr>))
                              else solve_active e fuel enforceslatercheck sdpilpnnonz s2
                                     nactivevars activevaridx fixedvarsobjcontr)))))"

text \<open>
  \<^verbatim>\<open>SCIPsdpiComputeMaxPenaltyparam\<close>.  The function of the backend is given by its return
  code and the value it computes.  The result is the interface and \<^verbatim>\<open>*maxpenaltyparam\<close>.
\<close>

definition SCIPsdpiComputeMaxPenaltyparam ::
  "SCIP_RETCODE \<times> real \<Rightarrow> sdpi \<Rightarrow> real \<Rightarrow> (sdpi \<times> real) res" where
  "SCIPsdpiComputeMaxPenaltyparam SolverComputeMaxPenaltyparam s penaltyparam' =
     bnd (SCIP_CALL (fst SolverComputeMaxPenaltyparam)) (\<lambda>_.
     let maxpenaltyparam' = snd SolverComputeMaxPenaltyparam;
         s1 = s\<lparr>maxpenaltyparam := maxpenaltyparam'\<rparr>
     in Inr (if penaltyparam s1 > maxpenaltyparam' then s1\<lparr>penaltyparam := maxpenaltyparam'\<rparr>
             else s1,
             maxpenaltyparam'))"

subsection \<open>What the parts of a solve keep\<close>

text \<open>
  Projections of the interface that the parts of a solve leave as they are: \<open>ids\<close> for the
  preprocessing, \<open>ind_core\<close> for the search for empty rows and columns, \<open>keep\<close> and \<open>cfg\<close> for
  the calls of the backend.
\<close>

definition ids :: "sdpi \<Rightarrow> int \<times> bool \<times> bool \<times> solvercall list" where
  "ids s = (sdpid s, allfixed s, penalty s, solvercalls (sdpisolver s))"

lemma ids_scan_core:
  assumes h: "scan_core a = scan_core b"
  shows "ids a = ids b"
  using arg_cong[OF h, of sdpid] arg_cong[OF h, of allfixed] arg_cong[OF h, of penalty]
    arg_cong[OF h, of sdpisolver]
  by (simp add: scan_core_def ids_def)

lemma ids_row_core:
  assumes h: "row_core a = row_core b"
  shows "ids a = ids b"
  using arg_cong[OF h, of sdpid] arg_cong[OF h, of allfixed] arg_cong[OF h, of penalty]
    arg_cong[OF h, of sdpisolver]
  by (simp add: row_core_def ids_def)

lemma copy_bound_ids: "copy_bound v s = Inr c \<Longrightarrow> ids (ctl_state c) = ids s"
  unfolding copy_bound_def Let_def
  by (elim bnd_InrE) (auto simp: ids_def ctl_state_def split: if_splits)

lemma init_rowidx_ids: "init_rowidx i s = Inr c \<Longrightarrow> ids (ctl_state c) = ids s"
  unfolding init_rowidx_def
  by (elim bnd_InrE) (auto simp: ctl_state_def ids_def)

lemma prepare_scan_ids:
  assumes "prepare_scan i s n = Inr (sc, lhs, rhs)"
  shows "ids (ss sc) = ids s"
  using ids_row_core[OF prepare_scan_frame[OF assms, THEN conjunct1]]
  by (simp add: ids_def)

lemma prepare_multi_ids:
  assumes "prepare_multi i nz nr lhs rhs (s, n, f) = Inr c"
  shows "ids (fst (ctl_state c)) = ids s"
  using assms unfolding prepare_multi_def
  apply (simp only: prod.case)
  apply (elim bnd_InrE)
  subgoal for u r
    apply (cases r)
    apply (simp only: prod.case)
    apply (drule tightenRowCoefs_frame[THEN ids_scan_core])
    apply (auto split: if_splits elim!: bnd_InrE wr_InrE simp: ctl_state_def ids_def)
    done
  done

lemma prepare_empty_ids:
  assumes "prepare_empty nz nr lhs rhs (s, n, f) = Inr c"
  shows "ids (fst (ctl_state c)) = ids s"
  using assms unfolding prepare_empty_def
  by (auto split: if_splits elim!: bnd_InrE simp: ctl_state_def ids_def)

lemma strengthen_lb_ids: "strengthen_lb i col a lb' s = Inr s1 \<Longrightarrow> ids s1 = ids s"
  by (drule strengthen_lb_result) (auto split: if_splits simp: ids_def)

lemma strengthen_ub_ids: "strengthen_ub i col a ub' s = Inr s1 \<Longrightarrow> ids s1 = ids s"
  by (drule strengthen_ub_result) (auto split: if_splits simp: ids_def)

lemma prepare_singleton_ids:
  assumes "prepare_singleton i nz lhs rhs (s, n, f) = Inr c"
  shows "ids (fst (ctl_state c)) = ids s"
  using assms unfolding prepare_singleton_def prod.case
  apply (elim bnd_InrE)
  apply (drule strengthen_lb_ids)
  apply (drule strengthen_ub_ids)
  apply (auto split: if_splits simp: ctl_state_def ids_def)
  done

lemma prepare_row_ids:
  assumes "prepare_row i st = Inr c"
  shows "ids (fst (ctl_state c)) = ids (fst st)"
proof -
  obtain s n f where st: "st = (s, n, f)" by (cases st)
  from assms obtain sc lhs rhs where scan: "prepare_scan i s n = Inr (sc, lhs, rhs)"
    and br: "(if nrownonz sc \<ge> 2
          then prepare_multi i (nonzind sc) (nrownonz sc) lhs rhs (ss sc, n, f)
          else if nrownonz sc = 1
          then prepare_singleton i (nonzind sc) lhs rhs (ss sc, n, f)
          else prepare_empty (nonzind sc) (nrownonz sc) lhs rhs (ss sc, n, f)) = Inr c"
    unfolding prepare_row_def st prod.case
    by (elim bnd_InrE) (auto split: prod.splits)
  from br have "ids (fst (ctl_state c)) = ids (ss sc)"
    by (auto split: if_splits dest: prepare_multi_ids prepare_singleton_ids prepare_empty_ids)
  with prepare_scan_ids[OF scan] show ?thesis by (simp add: st)
qed

lemma prepareLPData_ids:
  assumes "prepareLPData s = Inr r"
  shows "ids (fst r) = ids s"
proof (cases "nlpcons s = 0 \<or> lpnnonz s = 0")
  case True
  with assms show ?thesis by (auto simp: prepareLPData_def Let_def ids_def)
next
  case False
  define s0 where "s0 = s\<lparr>nactivelpcons := 0\<rparr>"
  from assms False obtain c0 c where a: "for_loop 0 (nvars s0) init_rowidx s0 = Inr c0"
    and b: "for_loop 0 (nlpcons (ctl_state c0)) prepare_row (ctl_state c0, 0, False) = Inr c"
    and c: "ctl_state c = r"
    unfolding prepareLPData_def Let_def s0_def[symmetric]
    by (auto split: if_splits elim!: bnd_InrE simp: s0_def)
  have "ids (ctl_state c0) = ids s0"
    by (rule for_loop_frame[OF a]) (erule init_rowidx_ids)
  moreover have "ids (fst (ctl_state c)) = ids (fst (ctl_state c0, 0::int, False))"
    by (rule for_loop_frame[OF b, where f = "\<lambda>st. ids (fst st)"]) (erule prepare_row_ids)
  ultimately show ?thesis by (simp add: c s0_def ids_def)
qed

lemma prepare_loop_ids:
  "prepare_loop s = Inr r \<Longrightarrow> ids (fst r) = ids s"
proof (induction s rule: prepare_loop.induct)
  case (1 s)
  from "1.prems" obtain r1 where a: "prepareLPData s = Inr r1"
    and b: "(if snd (snd r1) \<and> \<not> infeasible (fst r1) then prepare_loop (fst r1)
             else Inr (fst r1, fst (snd r1))) = Inr r"
    by (subst (asm) prepare_loop.simps) (erule bnd_InrE)
  show ?case
  proof (cases "snd (snd r1) \<and> \<not> infeasible (fst r1)")
    case True
    with b have "prepare_loop (fst r1) = Inr r" by simp
    from "1.IH"[OF a True this] prepareLPData_ids[OF a] show ?thesis by simp
  next
    case False
    with b have "r = (fst r1, fst (snd r1))" by auto
    with prepareLPData_ids[OF a] show ?thesis by simp
  qed
qed


definition ind_core :: "sdpi \<Rightarrow> sdpi" where
  "ind_core s = s\<lparr>indchanges := [], nremovedinds := [], blockindchanges := [], nremovedblocks := 0\<rparr>"

lemma mark_ind_frame: "mark_ind b k st = Inr st' \<Longrightarrow> ind_core (fst st') = ind_core (fst st)"
  unfolding mark_ind_def
  by (cases st) (auto simp: ind_core_def split: if_splits elim!: bnd_InrE)

lemma mark_entry_frame:
  "mark_entry b r c st = Inr c' \<Longrightarrow> ind_core (fst (ctl_state c')) = ind_core (fst st)"
  unfolding mark_entry_def
  apply (elim bnd_InrE)
  apply (drule mark_ind_frame)+
  apply (auto simp: ctl_state_def split: if_splits)
  done

lemma mark_var_nonz_frame:
  "mark_var_nonz b v i st = Inr c' \<Longrightarrow> ind_core (fst (ctl_state c')) = ind_core (fst st)"
  unfolding mark_var_nonz_def Let_def
  by (elim bnd_InrE) (erule mark_entry_frame)

lemma mark_const_frame:
  "mark_const crow ccol cval b i st = Inr c' \<Longrightarrow> ind_core (fst (ctl_state c')) = ind_core (fst st)"
  unfolding mark_const_def
  by (elim bnd_InrE) (erule mark_entry_frame)

lemma mark_var_frame:
  assumes "mark_var b v st = Inr c'"
  shows "ind_core (fst (ctl_state c')) = ind_core (fst st)"
proof -
  from assms obtain fx st1 size' where
    a: "(if \<not> fx
           then bnd (rd (sdpnblockvarnonz (fst st)) b) (\<lambda>nb. bnd (rd nb v) (\<lambda>nnz.
                bnd (for_loop 0 nnz (mark_var_nonz b v) st) (\<lambda>c. Inr (ctl_state c))))
           else Inr st) = Inr st1"
    and fin: "(if snd st1 = size' then Inr (Brk st1) else Inr (Cont st1))
              = (Inr c' :: (sdpi \<times> int) ctl res)"
    unfolding mark_var_def Let_def
    by (elim bnd_InrE) (rule that; assumption)
  from fin have b: "ctl_state c' = st1"
    by (auto split: if_splits simp: ctl_state_def)
  have "ind_core (fst st1) = ind_core (fst st)"
  proof (cases fx)
    case True
    with a show ?thesis by simp
  next
    case False
    with a obtain nnz c where l: "for_loop 0 nnz (mark_var_nonz b v) st = Inr c"
      and c: "st1 = ctl_state c"
      by (auto elim!: bnd_InrE)
    show ?thesis unfolding c
      by (rule for_loop_frame[OF l, where f = "\<lambda>st. ind_core (fst st)"])
         (erule mark_var_nonz_frame)
  qed
  with b show ?thesis by simp
qed

lemma count_removed_frame:
  "count_removed b i s = Inr c \<Longrightarrow> ind_core (ctl_state c) = ind_core s"
  unfolding count_removed_def
  by (auto simp: ind_core_def ctl_state_def split: if_splits elim!: bnd_InrE)

lemma init_indchanges_frame:
  "init_indchanges b s = Inr c \<Longrightarrow> ind_core (ctl_state c) = ind_core s"
  unfolding init_indchanges_def
  by (elim bnd_InrE) (auto simp: ind_core_def ctl_state_def)

lemma ind_core_upd:
  "ind_core (s\<lparr>nremovedinds := x\<rparr>) = ind_core s"
  "ind_core (s\<lparr>nremovedblocks := y\<rparr>) = ind_core s"
  "ind_core (s\<lparr>blockindchanges := z\<rparr>) = ind_core s"
  "ind_core (s\<lparr>blockindchanges := z, nremovedblocks := y\<rparr>) = ind_core s"
  by (simp_all add: ind_core_def)

lemma find_block_step_frame:
  assumes "find_block_step nbn rows cols vals b s = Inr c"
  shows "ind_core (ctl_state c) = ind_core s"
proof -
  from assms obtain nv c1 size' st2 nri c3 where
    l1: "for_loop 0 nv (mark_var b) (s, 0) = Inr c1"
    and l2: "(if snd (ctl_state c1) < size'
          then bnd (rd nbn b) (\<lambda>cn.
               bnd (rd rows b) (\<lambda>crow.
               bnd (rd cols b) (\<lambda>ccol.
               bnd (rd vals b) (\<lambda>cval.
               bnd (for_loop 0 cn (mark_const crow ccol cval b) (ctl_state c1)) (\<lambda>c2.
               Inr (ctl_state c2))))))
          else Inr (ctl_state c1)) = Inr st2"
    and l3: "for_loop 0 size' (count_removed b) ((fst st2)\<lparr>nremovedinds := nri\<rparr>) = Inr c3"
    and fin: "ind_core (ctl_state c) = ind_core (ctl_state c3)"
    unfolding find_block_step_def Let_def
    apply (elim bnd_InrE)
    apply (rule that, assumption, assumption, assumption)
    apply (auto split: if_splits elim!: bnd_InrE simp: ctl_state_def[of "Cont _"] ind_core_upd)
    done
  have 1: "ind_core (fst (ctl_state c1)) = ind_core (fst (s, 0::int))"
    by (rule for_loop_frame[OF l1, where f = "\<lambda>st. ind_core (fst st)"]) (erule mark_var_frame)
  have 2: "ind_core (fst st2) = ind_core (fst (ctl_state c1))"
  proof (cases "snd (ctl_state c1) < size'")
    case False
    with l2 show ?thesis by simp
  next
    case True
    with l2 obtain cn crow ccol cval c2 where
      l: "for_loop 0 cn (mark_const crow ccol cval b) (ctl_state c1) = Inr c2"
      and c: "st2 = ctl_state c2"
      by (auto elim!: bnd_InrE)
    show ?thesis unfolding c
      by (rule for_loop_frame[OF l, where f = "\<lambda>st. ind_core (fst st)"]) (erule mark_const_frame)
  qed
  have 3: "ind_core (ctl_state c3) = ind_core ((fst st2)\<lparr>nremovedinds := nri\<rparr>)"
    by (rule for_loop_frame[OF l3]) (erule count_removed_frame)
  from fin 1 2 3 show ?thesis by (simp add: ind_core_upd)
qed

lemma findEmptyRowColsSDP_frame:
  assumes "findEmptyRowColsSDP s nbn rows cols vals = Inr s'"
  shows "ind_core s' = ind_core s"
proof (cases "nsdpblocks s \<le> 0")
  case True
  with assms show ?thesis by (simp add: findEmptyRowColsSDP_def)
next
  case False
  with assms obtain c0 c where
    l0: "for_loop 0 (nsdpblocks s) init_indchanges s = Inr c0"
    and l1: "for_loop 0 (nsdpblocks s) (find_block_step nbn rows cols vals)
               ((ctl_state c0)\<lparr>nremovedblocks := 0\<rparr>) = Inr c"
    and c: "s' = ctl_state c"
    unfolding findEmptyRowColsSDP_def
    by (auto elim!: bnd_InrE)
  have "ind_core (ctl_state c0) = ind_core s"
    by (rule for_loop_frame[OF l0]) (erule init_indchanges_frame)
  moreover have "ind_core (ctl_state c) = ind_core ((ctl_state c0)\<lparr>nremovedblocks := 0\<rparr>)"
    by (rule for_loop_frame[OF l1]) (erule find_block_step_frame)
  ultimately show ?thesis by (simp add: c ind_core_upd)
qed


definition keep :: "sdpi \<Rightarrow> int \<times> bool \<times> bool \<times> bool" where
  "keep s = (sdpid s, allfixed s, infeasible s, penalty s)"

lemma keep_ind_core:
  assumes h: "ind_core a = ind_core b"
  shows "keep a = keep b" "solved a = solved b" "sdpisolver a = sdpisolver b"
  using arg_cong[OF h, of sdpid] arg_cong[OF h, of allfixed] arg_cong[OF h, of penalty]
    arg_cong[OF h, of infeasible] arg_cong[OF h, of solved] arg_cong[OF h, of sdpisolver]
  by (simp_all add: ind_core_def keep_def)

lemma call_solver_keep:
  "call_solver e c s = Inr r \<Longrightarrow> keep (fst r) = keep s \<and> solved (fst r) = solved s"
  unfolding call_solver_def Let_def
  by (auto elim!: bnd_InrE simp: keep_def)

lemma call_solver_calls:
  "call_solver e c s = Inr r \<Longrightarrow>
     solvercalls (sdpisolver (fst r)) = c # solvercalls (sdpisolver s)"
  unfolding call_solver_def Let_def
  by (auto elim!: bnd_InrE)

lemma add_stats_keep:
  "add_stats s = Inr s' \<Longrightarrow> keep s' = keep s \<and> solved s' = solved s
     \<and> sdpisolver s' = sdpisolver s"
  unfolding add_stats_def
  by (auto elim!: bnd_InrE simp: keep_def)

lemma set_solver_gaptol_keep:
  "set_solver_gaptol e s g = Inr s' \<Longrightarrow> keep s' = keep s \<and> solved s' = solved s
     \<and> solvercalls (sdpisolver s') = solvercalls (sdpisolver s)"
  unfolding set_solver_gaptol_def
  by (auto simp: keep_def split: if_splits)

lemma increase_counter_keep:
  "increase_counter e s = Inr s' \<Longrightarrow> keep s' = keep s \<and> solved s' = solved s
     \<and> solvercalls (sdpisolver s') = solvercalls (sdpisolver s)"
  unfolding increase_counter_def
  by (auto elim!: bnd_InrE simp: keep_def)

lemma slater_dual_keep:
  "slater_dual e s = Inr s' \<Longrightarrow> keep s' = keep s \<and> solved s' = solved s"
  unfolding slater_dual_def Let_def
  apply (erule bnd_InrE)
  apply (drule call_solver_keep)
  apply (auto split: if_splits elim!: bnd_InrE simp: keep_def)
  done

lemma slater_primal_keep:
  "slater_primal e s = Inr s' \<Longrightarrow> keep s' = keep s \<and> solved s' = solved s"
  unfolding slater_primal_def Let_def
  apply (erule bnd_InrE)
  apply (drule call_solver_keep)
  apply (auto split: if_splits elim!: bnd_InrE simp: keep_def)
  done

lemma checkSlaterCondition_keep:
  assumes "checkSlaterCondition e s n rootnodefailed = Inr s'"
  shows "keep s' = keep s \<and> solved s' = solved s"
proof -
  from assms obtain s2 where a: "slater_dual e s = Inr s2"
    and b: "s' = s2\<lparr>primalslater := SCIP_SDPSLATER_HOLDS\<rparr> \<or> slater_primal e s2 = Inr s'"
    unfolding checkSlaterCondition_def
    by (auto elim!: bnd_InrE split: if_splits)
  from b have "keep s' = keep s2 \<and> solved s' = solved s2"
    by (auto dest!: slater_primal_keep simp: keep_def)
  with slater_dual_keep[OF a] show ?thesis by simp
qed

definition cfg :: "sdpi \<Rightarrow> real \<times> real" where
  "cfg s = (maxpenaltyparam s, epsilon s)"

lemma call_solver_cfg: "call_solver e c s = Inr r \<Longrightarrow> cfg (fst r) = cfg s"
  unfolding call_solver_def Let_def
  by (auto elim!: bnd_InrE simp: cfg_def)

lemma add_stats_cfg: "add_stats s = Inr s' \<Longrightarrow> cfg s' = cfg s"
  unfolding add_stats_def
  by (auto elim!: bnd_InrE simp: cfg_def)

lemma set_solver_gaptol_cfg: "set_solver_gaptol e s g = Inr s' \<Longrightarrow> cfg s' = cfg s"
  unfolding set_solver_gaptol_def
  by (auto simp: cfg_def split: if_splits)

lemma set_solver_gaptol_solver:
  "set_solver_gaptol e s g = Inr s' \<Longrightarrow> IsAcceptable (sdpisolver s') = IsAcceptable (sdpisolver s)"
  unfolding set_solver_gaptol_def
  by (auto split: if_splits)

lemma penalty_step_result:
  assumes "penalty_step e pf gf (s, pp, g, fo, pb) = Inr (s', pp', g', fo', pb')"
  shows "keep s' = keep s \<and> solved s' = solved s \<and> cfg s' = cfg s
         \<and> solvercalls (sdpisolver s') = LoadAndSolveWithPenalty_call pp True True # solvercalls (sdpisolver s)
         \<and> ((pp' = pp * pf \<and> g' = g) \<or> (pp' = pp \<and> g' = g * gf)
             \<or> (pp' = pp \<and> g' = g \<and> IsAcceptable (sdpisolver s') \<and> fo'))"
proof -
  from assms obtain r s2 where
    a: "call_solver e (LoadAndSolveWithPenalty_call pp True True) s = Inr r"
    and b: "add_stats (fst r) = Inr s2"
    and c: "(if \<not> IsAcceptable (sdpisolver s2)
          then Inr (s2, pp * pf, g, fst (snd r), snd (snd r))
          else
            bnd (SCIP_CALL (GetObjval_ret (sdpisolver s2))) (\<lambda>_.
            if \<not> fst (snd r) then
              (if snd (snd r)
               then Inr ((if GetObjval (sdpisolver s2) > bestbound s2 + gaptol s2 then s2\<lparr>bestbound := GetObjval (sdpisolver s2)\<rparr>
                      else s2), pp * pf, g, fst (snd r), snd (snd r))
               else bnd (set_solver_gaptol e (if GetObjval (sdpisolver s2) > bestbound s2 + gaptol s2 then s2\<lparr>bestbound := GetObjval (sdpisolver s2)\<rparr>
                      else s2) (g * gf)) (\<lambda>s4.
                    Inr (s4, pp, g * gf, fst (snd r), snd (snd r))))
            else Inr ((if GetObjval (sdpisolver s2) > bestbound s2 + gaptol s2 then s2\<lparr>bestbound := GetObjval (sdpisolver s2)\<rparr>
                      else s2), pp, g, fst (snd r), snd (snd r)))) = Inr (s', pp', g', fo', pb')"
    unfolding penalty_step_def Let_def prod.case
    apply (elim bnd_InrE)
    subgoal for r
      apply (cases r)
      apply (simp only: prod.case)
      apply (erule bnd_InrE)
      subgoal for s1 fo1 pb1 s2
        apply (rule that[of "(s1, fo1, pb1)" s2])
          apply (simp only:)
         apply (simp only: fst_conv)
        apply (simp only: fst_conv snd_conv)
        done
      done
    done
  define s3 where "s3 = (if GetObjval (sdpisolver s2) > bestbound s2 + gaptol s2
                        then s2\<lparr>bestbound := GetObjval (sdpisolver s2)\<rparr> else s2)"
  have s3: "keep s3 = keep s2" "solved s3 = solved s2" "cfg s3 = cfg s2"
    "sdpisolver s3 = sdpisolver s2"
    by (simp_all add: s3_def keep_def cfg_def)
  note c' = c[folded s3_def]
  have k2: "keep s2 = keep s" "solved s2 = solved s" "cfg s2 = cfg s"
    "solvercalls (sdpisolver s2) = LoadAndSolveWithPenalty_call pp True True # solvercalls (sdpisolver s)"
    using call_solver_keep[OF a] call_solver_cfg[OF a] call_solver_calls[OF a]
      add_stats_keep[OF b] add_stats_cfg[OF b] by simp_all
  show ?thesis
  proof (cases "IsAcceptable (sdpisolver s2)")
    case False
    with c' show ?thesis using k2 by auto
  next
    case acc: True
    show ?thesis
    proof (cases "fst (snd r)")
      case True
      with acc c' show ?thesis using k2 s3 by (auto elim!: bnd_InrE)
    next
      case nf: False
      show ?thesis
      proof (cases "snd (snd r)")
        case True
        with acc nf c' show ?thesis using k2 s3 by (auto elim!: bnd_InrE)
      next
        case False
        with acc nf c' obtain s4 where "set_solver_gaptol e s3 (g * gf) = Inr s4"
          "s' = s4" "pp' = pp" "g' = g * gf"
          by (auto elim!: bnd_InrE)
        then show ?thesis using k2 s3 set_solver_gaptol_keep[of e s3 "g * gf" s4]
            set_solver_gaptol_cfg[of e s3 "g * gf" s4] by auto
      qed
    qed
  qed
qed


lemma penalty_loop_stops: "\<not> penalty_cond st \<Longrightarrow> penalty_loop e pf gf k st = Some (Inr st)"
  by (cases k) simp_all

lemma penalty_loop_result:
  "penalty_loop e pf gf k st = Some (Inr st') \<Longrightarrow>
     keep (fst st') = keep (fst st) \<and> solved (fst st') = solved (fst st)
     \<and> cfg (fst st') = cfg (fst st) \<and> \<not> penalty_cond st'
     \<and> (\<exists>cs. solvercalls (sdpisolver (fst st')) = cs @ solvercalls (sdpisolver (fst st))
             \<and> length cs \<le> k)"
proof (induction k arbitrary: st)
  case 0
  then show ?case by (auto split: if_splits)
next
  case (Suc k)
  show ?case
  proof (cases "penalty_cond st")
    case False
    with Suc.prems show ?thesis by auto
  next
    case True
    with Suc.prems obtain st1 where a: "penalty_step e pf gf st = Inr st1"
      and b: "penalty_loop e pf gf k st1 = Some (Inr st')"
      by (auto split: sum.splits)
    obtain s pp g fo pb where st: "st = (s, pp, g, fo, pb)" by (cases st)
    obtain s1 pp1 g1 fo1 pb1 where st1: "st1 = (s1, pp1, g1, fo1, pb1)" by (cases st1)
    note r = penalty_step_result[OF a[unfolded st st1]]
    from Suc.IH[OF b] obtain cs where
      ih: "keep (fst st') = keep s1" "solved (fst st') = solved s1" "cfg (fst st') = cfg s1"
        "\<not> penalty_cond st'" "solvercalls (sdpisolver (fst st')) = cs @ solvercalls (sdpisolver s1)"
        "length cs \<le> k"
      by (auto simp: st1)
    have "solvercalls (sdpisolver (fst st'))
          = (cs @ [LoadAndSolveWithPenalty_call pp True True]) @ solvercalls (sdpisolver s)"
      using ih(5) r by simp
    moreover have "length (cs @ [LoadAndSolveWithPenalty_call pp True True]) \<le> Suc k"
      using ih(6) by simp
    ultimately show ?thesis using ih(1-4) r unfolding st fst_conv by metis
  qed
qed

lemma penalty_loop_terminates:
  assumes pf: "0 \<le> pf" and gf: "0 \<le> gf"
    and top: "mx + ep \<le> pp0 * pf ^ N" and bot: "g0 * gf ^ M \<le> (99 / 100) * MIN_GAPTOL"
  shows "a \<le> N \<Longrightarrow> b \<le> M \<Longrightarrow> (N - a) + (M - b) \<le> k + 1 \<Longrightarrow> cfg s = (mx, ep)
     \<Longrightarrow> pp0 * pf ^ a \<le> pp \<Longrightarrow> g \<le> g0 * gf ^ b
     \<Longrightarrow> \<exists>r. penalty_loop e pf gf k (s, pp, g, fo, pb) = Some r"
proof (induction k arbitrary: s pp g fo pb a b)
  case 0
  from "0.prems"(1-3) have "a = N \<or> b = M" by linarith
  then have "\<not> penalty_cond (s, pp, g, fo, pb)"
    using "0.prems"(4-6) top bot by (auto simp: penalty_cond_def cfg_def)
  then show ?case by simp
next
  case (Suc k)
  show ?case
  proof (cases "penalty_cond (s, pp, g, fo, pb)")
    case False
    then show ?thesis by simp
  next
    case True
    then have lt: "pp < mx + ep" "g > (99 / 100) * MIN_GAPTOL"
      using Suc.prems(4) by (auto simp: penalty_cond_def cfg_def)
    have aN: "a < N"
    proof (rule ccontr)
      assume "\<not> a < N"
      with Suc.prems(1) have "a = N" by simp
      with Suc.prems(5) top lt(1) show False by simp
    qed
    have bM: "b < M"
    proof (rule ccontr)
      assume "\<not> b < M"
      with Suc.prems(2) have "b = M" by simp
      with Suc.prems(6) bot lt(2) show False by simp
    qed
    show ?thesis
    proof (cases "penalty_step e pf gf (s, pp, g, fo, pb)")
      case (Inl f)
      with True show ?thesis by simp
    next
      case (Inr st1)
      obtain s1 pp1 g1 fo1 pb1 where st1: "st1 = (s1, pp1, g1, fo1, pb1)" by (cases st1)
      note r = penalty_step_result[OF Inr[unfolded st1]]
      have c1: "cfg s1 = (mx, ep)" using r Suc.prems(4) by simp
      from r consider (p) "pp1 = pp * pf" "g1 = g"
        | (q) "pp1 = pp" "g1 = g * gf"
        | (fin) "IsAcceptable (sdpisolver s1)" "fo1" by blast
      then have "\<exists>r. penalty_loop e pf gf k (s1, pp1, g1, fo1, pb1) = Some r"
      proof cases
        case p
        have "pp0 * pf ^ Suc a \<le> pp1"
          using mult_right_mono[OF Suc.prems(5) pf] p by (simp add: mult_ac)
        moreover have "Suc a \<le> N" "(N - Suc a) + (M - b) \<le> k + 1"
          using aN Suc.prems(3) by simp_all
        ultimately show ?thesis
          using Suc.IH[of "Suc a" b s1 pp1 g1 fo1 pb1] Suc.prems(2,6) c1 p by simp
      next
        case q
        have "g1 \<le> g0 * gf ^ Suc b"
          using mult_right_mono[OF Suc.prems(6) gf] q by (simp add: mult_ac)
        moreover have "Suc b \<le> M" "(N - a) + (M - Suc b) \<le> k + 1"
          using bM Suc.prems(3) by simp_all
        ultimately show ?thesis
          using Suc.IH[of a "Suc b" s1 pp1 g1 fo1 pb1] Suc.prems(1,5) c1 q by simp
      next
        case fin
        then have "\<not> penalty_cond (s1, pp1, g1, fo1, pb1)" by (simp add: penalty_cond_def)
        then show ?thesis by (simp add: penalty_loop_stops)
      qed
      with True Inr st1 show ?thesis by simp
    qed
  qed
qed

lemma penalty_escalation_result:
  assumes "penalty_escalation e fuel esc n s = Some (Inr s')"
  shows "sdpid s' = sdpid s \<and> allfixed s' = allfixed s \<and> infeasible s' = infeasible s \<and> penalty s'"
proof -
  from assms obtain s1 pp g fo pb where
    l: "penalty_loop e (fst (penalty_factors s)) (snd (penalty_factors s)) fuel
          (s, penaltyparam s, gaptol s, False, True) = Some (Inr (s1, pp, g, fo, pb))"
    and r: "bnd (if g > gaptol s1 then set_solver_gaptol e s1 (gaptol s1) else Inr s1) (\<lambda>s2.
            let s3 = (if IsAcceptable (sdpisolver s2) \<and> fo
                      then s2\<lparr>penalty := True, solved := True\<rparr>
                      else s2\<lparr>solved := False, penalty := True\<rparr>)
            in
            if \<not> solved s3 \<and> esc then checkSlaterCondition e s3 n True
            else Inr s3) = Inr s'"
    unfolding penalty_escalation_def
    by (auto split: option.splits sum.splits)
  from penalty_loop_result[OF l] have k1: "keep s1 = keep s" by simp
  from r obtain s2 where a: "(if g > gaptol s1 then set_solver_gaptol e s1 (gaptol s1) else Inr s1) = Inr s2"
    and b: "(let s3 = (if IsAcceptable (sdpisolver s2) \<and> fo
                      then s2\<lparr>penalty := True, solved := True\<rparr>
                      else s2\<lparr>solved := False, penalty := True\<rparr>)
            in
            if \<not> solved s3 \<and> esc then checkSlaterCondition e s3 n True
            else Inr s3) = Inr s'"
    by (elim bnd_InrE)
  from a have k2: "keep s2 = keep s1"
    by (auto split: if_splits dest: set_solver_gaptol_keep)
  define s3 where "s3 = (if IsAcceptable (sdpisolver s2) \<and> fo
                      then s2\<lparr>penalty := True, solved := True\<rparr>
                      else s2\<lparr>solved := False, penalty := True\<rparr>)"
  have k3: "sdpid s3 = sdpid s2" "allfixed s3 = allfixed s2" "infeasible s3 = infeasible s2"
    "penalty s3" by (simp_all add: s3_def)
  from b have "keep s' = keep s3"
    unfolding s3_def[symmetric] Let_def
    by (auto split: if_splits dest: checkSlaterCondition_keep)
  with k1 k2 k3 show ?thesis by (simp add: keep_def)
qed

lemma penalty_phase_result:
  assumes "penalty_phase e fuel esc n s = Some (Inr s')"
  shows "sdpid s' = sdpid s \<and> allfixed s' = allfixed s \<and> penalty s'"
proof -
  from assms obtain s1 objval where
    a: "bnd (call_solver e (LoadAndSolveWithPenalty_call 1 False False) s) (\<lambda>r.
           bnd (add_stats (fst r)) (\<lambda>s1.
           bnd (if WasSolved (sdpisolver s1)
                then bnd (SCIP_CALL (GetObjval_ret (sdpisolver s1))) (\<lambda>_.
                     Inr (GetObjval (sdpisolver s1)))
                else Inr (- SCIPsdpiInfinity s1)) (\<lambda>objval.
           Inr (s1, objval)))) = Inr (s1, objval)"
    and b: "s' = s1\<lparr>penalty := True, infeasible := True\<rparr>
            \<or> penalty_escalation e fuel esc n s1 = Some (Inr s')"
    unfolding penalty_phase_def
    by (auto split: sum.splits if_splits)
  from a have "keep s1 = keep s"
    by (elim bnd_InrE) (auto dest!: call_solver_keep add_stats_keep)
  with b show ?thesis
    by (auto dest!: penalty_escalation_result simp: keep_def)
qed

lemma primary_solve_keep:
  assumes "primary_solve e n s nbn rows cols vals = Inr s3"
  shows "keep s3 = keep s \<and> solved s3"
proof -
  from assms obtain s1 s2 r where
    a1: "findEmptyRowColsSDP s nbn rows cols vals = Inr s1"
    and a2: "(if slatercheck s1 \<noteq> 0 then checkSlaterCondition e s1 n False else Inr s1) = Inr s2"
    and a3: "call_solver e LoadAndSolve_call s2 = Inr r"
    and a4: "add_stats ((fst r)\<lparr>solved := True\<rparr>) = Inr s3"
    unfolding primary_solve_def
    by (elim bnd_InrE)
  have "keep s1 = keep s" by (rule keep_ind_core(1)[OF findEmptyRowColsSDP_frame[OF a1]])
  moreover from a2 have "keep s2 = keep s1"
    by (auto split: if_splits dest: checkSlaterCondition_keep)
  moreover have "keep (fst r) = keep s2" using call_solver_keep[OF a3] by simp
  moreover have "keep s3 = keep (fst r) \<and> solved s3" using add_stats_keep[OF a4] by (simp add: keep_def)
  ultimately show ?thesis by simp
qed

lemma solve_backend_result:
  assumes "solve_backend e fuel esc n s nbn rows cols vals = Some (Inr s')"
  shows "sdpid s' = sdpid s \<and> allfixed s' = allfixed s \<and> (infeasible s' \<longrightarrow> infeasible s \<or> penalty s')"
proof -
  from assms obtain s3 where
    a: "primary_solve e n s nbn rows cols vals = Inr s3"
    and b: "s' = s3 \<or> penalty_phase e fuel esc n s3 = Some (Inr s')"
    unfolding solve_backend_def
    by (auto split: sum.splits if_splits)
  from primary_solve_keep[OF a] have "keep s3 = keep s" by simp
  with b show ?thesis
    by (auto dest!: penalty_phase_result simp: keep_def)
qed

lemma int_add_InrE: "int_add x y = Inr z \<Longrightarrow> (z = x + y \<Longrightarrow> INT_MIN \<le> x + y \<Longrightarrow> x + y \<le> INT_MAX \<Longrightarrow> P) \<Longrightarrow> P"
  by (auto simp: int_add_def split: if_splits)

lemma onevar_lp_keep: "onevar_lp s i c = Inr s' \<Longrightarrow> keep s' = keep s"
  unfolding onevar_lp_def Let_def
  by (auto elim!: bnd_InrE split: if_splits simp: keep_def)

lemma onevar_sdp_keep:
  assumes "onevar_sdp e s i c nbn rows cols vals = Inr s'"
  shows "keep s' = keep s"
proof -
  obtain ret certval objval optval where sv: "SolveOneVarSDP e = (ret, certval, objval, optval)"
    by (cases "SolveOneVarSDP e")
  from assms obtain s1 x where
    a: "(case onevarsdpcertvec s of
            None \<Rightarrow> bnd (BMS_CALL (alloc_ok e)) (\<lambda>_.
                    Inr (s\<lparr>onevarsdpcertvec := Some (replicate (nat x) 0),
                           onevarsdpcertsize := x\<rparr>))
          | Some vec \<Rightarrow>
              if onevarsdpcertsize s \<noteq> x
              then bnd (BMS_CALL (alloc_ok e)) (\<lambda>_.
                   Inr (s\<lparr>onevarsdpcertvec := Some (realloc_array vec (onevarsdpcertsize s) 0),
                          onevarsdpcertsize := x\<rparr>))
              else Inr s) = Inr s1"
    and b: "keep s' = keep s1"
    unfolding onevar_sdp_def Let_def sv prod.case
    apply (elim bnd_InrE)
    apply (rule that, assumption)
    apply (auto split: if_splits simp: keep_def elim!: bnd_InrE)
    done
  from a have "keep s1 = keep s"
    by (auto split: if_splits option.splits elim!: bnd_InrE simp: keep_def)
  with b show ?thesis by simp
qed

lemma solve_onevar_keep:
  "solve_onevar e s i c nbn rows cols vals = Inr s' \<Longrightarrow> keep s' = keep s"
  unfolding solve_onevar_def
  by (auto elim!: bnd_InrE split: if_splits dest: onevar_lp_keep onevar_sdp_keep)

lemma active_setup_keep:
  assumes "active_setup e s nact idx contr = Inr (s1, nbn, rows, cols, vals)"
  shows "keep s1 = keep s \<and> \<not> allfixed s \<and> \<not> infeasible s"
  using assms unfolding active_setup_def
  apply (elim bnd_InrE)
  apply (auto split: prod.splits if_splits elim!: bnd_InrE simp: assert_that_def
              dest: solve_onevar_keep)
  done

lemma solve_active_result:
  assumes "solve_active e fuel esc n s nact idx contr = Some (Inr s')"
  shows "sdpid s' = sdpid s + 1 \<and> sdpid s < INT_MAX \<and> \<not> allfixed s'
         \<and> (infeasible s' \<longrightarrow> penalty s')"
proof -
  from assms obtain s1 s2 nbn rows cols vals where
    a: "active_setup e s nact idx contr = Inr (s1, nbn, rows, cols, vals)"
    and b: "(if \<not> solved s1 then solve_backend e fuel esc n s1 nbn rows cols vals
             else Some (Inr s1)) = Some (Inr s2)"
    and c: "bnd (int_add (sdpid s2) 1) (\<lambda>sdpid'. Inr (s2\<lparr>sdpid := sdpid'\<rparr>)) = Inr s'"
    unfolding solve_active_def
    by (auto split: sum.splits option.splits)
  note k1 = active_setup_keep[OF a]
  from b have "sdpid s2 = sdpid s1 \<and> allfixed s2 = allfixed s1
        \<and> (infeasible s2 \<longrightarrow> infeasible s1 \<or> penalty s2)"
    by (auto split: if_splits dest!: solve_backend_result)
  moreover from c have "s' = s2\<lparr>sdpid := sdpid s2 + 1\<rparr> \<and> sdpid s2 < INT_MAX"
    by (auto elim!: bnd_InrE int_add_InrE)
  ultimately show ?thesis using k1 by (auto simp: keep_def)
qed

lemma check_block_step_ids:
  assumes "check_block_step eig maxsize b st = Inr c"
  shows "ids (fst (ctl_state c)) = ids (fst st) \<and> solved (fst (ctl_state c)) = solved (fst st)"
proof -
  obtain s m where st: "st = (s, m)" by (cases st)
  from assms show ?thesis
    unfolding check_block_step_def st prod.case
    apply (elim bnd_InrE)
    apply (auto split: prod.splits option.splits if_splits elim!: bnd_InrE
                simp: ids_def ctl_state_def)
    done
qed

lemma checkFixedFeasibilitySdp_ids:
  assumes "checkFixedFeasibilitySdp memok eig s = Inr s'"
  shows "ids s' = ids s \<and> solved s' = solved s"
proof -
  from assms have "s' = s \<or> (\<exists>maxsize c.
     for_loop 0 (nsdpblocks s) (check_block_step eig maxsize) (s, replicate (nat (maxsize * maxsize)) 0) = Inr c
     \<and> s' = fst (ctl_state c))"
    unfolding checkFixedFeasibilitySdp_def Let_def
    by (elim bnd_InrE) (auto split: if_splits elim!: bnd_InrE)
  then show ?thesis
  proof
    assume "s' = s" then show ?thesis by simp
  next
    assume "\<exists>maxsize c.
     for_loop 0 (nsdpblocks s) (check_block_step eig maxsize) (s, replicate (nat (maxsize * maxsize)) 0) = Inr c
     \<and> s' = fst (ctl_state c)"
    then obtain maxsize c where
      l: "for_loop 0 (nsdpblocks s) (check_block_step eig maxsize) (s, replicate (nat (maxsize * maxsize)) 0) = Inr c"
      and c: "s' = fst (ctl_state c)" by blast
    have "(ids (fst (ctl_state c)), solved (fst (ctl_state c)))
          = (ids (fst (s, replicate (nat (maxsize * maxsize)) (0::real))), solved (fst (s, replicate (nat (maxsize * maxsize)) (0::real))))"
      by (rule for_loop_frame[OF l, where f = "\<lambda>st. (ids (fst st), solved (fst st))"])
         (simp add: check_block_step_ids)
    then show ?thesis by (simp add: c)
  qed
qed

lemma debug_sdpid_result:
  assumes "debug_sdpid e s = Inr s'"
  shows "s' = s\<lparr>sdpid := sdpid s + (if scip_debug e then 1 else 0)\<rparr>"
  using assms unfolding debug_sdpid_def
  by (auto split: if_splits elim!: bnd_InrE int_add_InrE)

lemma exit_infeasible_result:
  assumes "exit_infeasible e s = Inr s'"
  shows "sdpid s' = sdpid s + (if scip_debug e then 1 else 0) \<and> allfixed s' = allfixed s
         \<and> infeasible s' = infeasible s \<and> penalty s' = penalty s \<and> solved s'
         \<and> solvercalls (sdpisolver s') = solvercalls (sdpisolver s)"
  using assms unfolding exit_infeasible_def
  by (auto elim!: bnd_InrE int_add_InrE dest!: increase_counter_keep debug_sdpid_result
           simp: keep_def)

lemma exit_allfixed_result:
  assumes "exit_allfixed e s = Inr s'"
  shows "sdpid s' = sdpid s + (if scip_debug e then 1 else 0) \<and> allfixed s' = allfixed s
         \<and> penalty s' = penalty s \<and> solved s'
         \<and> solvercalls (sdpisolver s') = solvercalls (sdpisolver s)"
  using assms unfolding exit_allfixed_def
  by (auto elim!: bnd_InrE int_add_InrE
           dest!: increase_counter_keep checkFixedFeasibilitySdp_ids debug_sdpid_result
           simp: keep_def ids_def)

lemma solve_reset_ids:
  "sdpid (solve_reset s) = sdpid s" "\<not> allfixed (solve_reset s)" "\<not> penalty (solve_reset s)"
  "\<not> infeasible (solve_reset s)" "\<not> solved (solve_reset s)"
  "solvercalls (sdpisolver (solve_reset s)) = solvercalls (sdpisolver s)"
  by (simp_all add: solve_reset_def)

section \<open>Solution queries\<close>

text \<open>
  A query returns its status, the interface and the value behind its output pointer after the
  call; the value the pointer held before the call is an argument.  \<^verbatim>\<open>CHECK_IF_SOLVED\<close> prints
  an error message and returns \<^verbatim>\<open>SCIP_LPERROR\<close>.  When an array access is out of bounds the
  outputs are unspecified; the model returns the ones it was given.
\<close>

definition objval_step :: "sdpi \<Rightarrow> int \<Rightarrow> real \<Rightarrow> real ctl res" where
  "objval_step s v acc =
     bnd (rd (sdpilb s) v) (\<lambda>l.
     bnd (rd (obj s) v) (\<lambda>c.
     Inr (Cont (acc + l * c))))"

definition SCIPsdpiGetObjval :: "sdpi \<Rightarrow> real \<Rightarrow> unit res \<times> sdpi \<times> real" where
  "SCIPsdpiGetObjval s objval =
     (if \<not> solved s then (Inl (Returned SCIP_LPERROR), s, objval)
      else if infeasible s then (Inr (), s, SCIPsdpiInfinity s)
      else if allfixed s then
        (case for_loop 0 (nvars s) (objval_step s) 0 of
           Inl e \<Rightarrow> (Inl e, s, objval)
         | Inr c \<Rightarrow> (Inr (), s, ctl_state c))
      else if solvedonevarsdp s \<noteq> SCIP_ONEVAR_UNSOLVED then
        (if onevarsdpobjval s \<noteq> SCIP_INVALID then (Inr (), s, onevarsdpobjval s)
         else (Inl AssertFailed, s, objval))
      else if GetObjval_ret (sdpisolver s) = SCIP_OKAY
        then (Inr (), s, GetObjval (sdpisolver s))
        else (Inl (Returned (GetObjval_ret (sdpisolver s))), s, objval))"

definition dualsol_step :: "sdpi \<Rightarrow> int \<Rightarrow> real list \<Rightarrow> real list ctl res" where
  "dualsol_step s v dualsol =
     bnd (rd (sdpilb s) v) (\<lambda>l.
     bnd (wr dualsol v l) (\<lambda>dualsol'.
     Inr (Cont dualsol')))"

text \<open>
  In \<^verbatim>\<open>SCIPsdpiGetDualSol\<close> both output pointers may be NULL (\<open>None\<close>); writing through a NULL
  pointer is reported as \<open>OutOfBounds\<close>.  When \<open>dualsol\<close> is NULL and there are no variables,
  nothing is written; on the branch of the problem with one variable the assertion on
  \<open>onevarsdpidx\<close> fails then.
\<close>

definition SCIPsdpiGetDualSol ::
  "sdpi \<Rightarrow> real option \<Rightarrow> real list option \<Rightarrow> unit res \<times> sdpi \<times> real option \<times> real list option" where
  "SCIPsdpiGetDualSol s objval dualsol =
     (if \<not> solved s then (Inl (Returned SCIP_LPERROR), s, objval, dualsol)
      else if infeasible s then
        (case objval of
           None \<Rightarrow> (Inl OutOfBounds, s, objval, dualsol)
         | Some _ \<Rightarrow> (Inr (), s, Some (SCIPsdpiInfinity s), dualsol))
      else if allfixed s \<or> solvedonevarsdp s \<noteq> SCIP_ONEVAR_UNSOLVED then
        (let (r, objval') =
               (case objval of
                  None \<Rightarrow> (Inr (), None)
                | Some v \<Rightarrow> (case SCIPsdpiGetObjval s v of (r, _, v') \<Rightarrow> (r, Some v')))
         in case r of
              Inl e \<Rightarrow> (Inl e, s, objval', dualsol)
            | Inr _ \<Rightarrow>
               (case dualsol of
                  None \<Rightarrow> (if nvars s > 0 then (Inl OutOfBounds, s, objval', dualsol)
                            else if allfixed s then (Inr (), s, objval', dualsol)
                            else (Inl AssertFailed, s, objval', dualsol))
                | Some d \<Rightarrow>
                   (case for_loop 0 (nvars s) (dualsol_step s) d of
                      Inl e \<Rightarrow> (Inl e, s, objval', dualsol)
                    | Inr c \<Rightarrow>
                       (if allfixed s then (Inr (), s, objval', Some (ctl_state c))
                        else if \<not> (0 \<le> onevarsdpidx s \<and> onevarsdpidx s < nvars s)
                          then (Inl AssertFailed, s, objval', Some (ctl_state c))
                        else (case wr (ctl_state c) (onevarsdpidx s) (onevarsdpoptval s) of
                                Inl e \<Rightarrow> (Inl e, s, objval', Some (ctl_state c))
                              | Inr d' \<Rightarrow> (Inr (), s, objval', Some d'))))))
      else if GetDualSol_ret (sdpisolver s) = SCIP_OKAY
        then (Inr (), s, map_option (\<lambda>_. GetObjval (sdpisolver s)) objval,
              map_option (\<lambda>_. GetDualSol (sdpisolver s)) dualsol)
        else (Inl (Returned (GetDualSol_ret (sdpisolver s))), s, objval, dualsol))"

section \<open>Views and example instances\<close>

definition flags :: "sdpi \<Rightarrow> bool \<times> bool \<times> bool \<times> bool" where
  "flags s = (solved s, infeasible s, allfixed s, penalty s)"

text \<open>
  The stored LP part read as a list of rows: row \<open>i\<close> has the sides \<open>lplhs[i]\<close>, \<open>lprhs[i]\<close> and
  the entries \<open>lpind[j]\<close>, \<open>lpval[j]\<close> for \<open>lpbeg[i] \<le> j < nextbeg\<close>, where \<open>nextbeg\<close> is
  \<open>lpbeg[i + 1]\<close>, or \<open>lpnnonz\<close> for the last row; this is how \<^verbatim>\<open>prepareLPData\<close> reads it.
\<close>

definition lp_row :: "sdpi \<Rightarrow> int \<Rightarrow> real \<times> real \<times> (int \<times> real) list" where
  "lp_row s i =
     (let b = lpbeg s ! nat i;
          e = (if i = nlpcons s - 1 then lpnnonz s else lpbeg s ! nat (i + 1))
      in (lplhs s ! nat i, lprhs s ! nat i,
          zip (take (nat (e - b)) (drop (nat b) (lpind s)))
              (take (nat (e - b)) (drop (nat b) (lpval s)))))"

definition lp_rows :: "sdpi \<Rightarrow> (real \<times> real \<times> (int \<times> real) list) list" where
  "lp_rows s = map (\<lambda>i. lp_row s (int i)) [0..<nat (nlpcons s)]"

definition solver_empty :: sdpisolver where
  "solver_empty = \<lparr>solverinfinity = 10 ^ 20,
     SolverIsInfinity = (\<lambda>x. x \<le> - (10 ^ 20) \<or> x \<ge> 10 ^ 20),
     WasSolved = False, IsAcceptable = False,
     IsTimelimExc = False, IsOptimal = False, IsDualInfeasible = False, IsDualUnbounded = False,
     IsPrimalUnbounded = False, GetObjval_ret = SCIP_OKAY, GetObjval = 0,
     GetDualSol_ret = SCIP_OKAY, GetDualSol = [], GetTime_ret = SCIP_OKAY, GetTime = 0,
     GetIterations_ret = SCIP_OKAY, GetIterations = 0, GetSdpCalls_ret = SCIP_OKAY,
     GetSdpCalls = 0, solvergaptol = 1 / 10 ^ 4, solvercounter = 0, solvercalls = []\<rparr>"

text \<open>
  The interface as \<^verbatim>\<open>SCIPsdpiCreate\<close> leaves it: no variables, no blocks, no rows.
  \<^verbatim>\<open>SCIPsdpiCreate\<close> does not set \<open>peninfeasadjust\<close>; the value 10 stands for the one that a
  later \<^verbatim>\<open>SCIPsdpiSetRealpar\<close> gives it.
\<close>

definition sdpi_empty :: sdpi where
  "sdpi_empty = \<lparr>sdpisolver = solver_empty, nvars = 0, maxnvars = 0, nsdpblocks = 0,
     sdpblocksizes = [], sdpnblockvars = [], obj = [], lb = [], ub = [], isintegral = [],
     sdpconstnnonz = 0, sdpconstnblocknonz = [], sdpconstrow = [], sdpconstcol = [],
     sdpconstval = [], sdpnnonz = 0, sdpnblockvarnonz = [], sdpvar = [], sdprow = [],
     sdpcol = [], sdpval = [], nlpcons = 0, maxnlpcons = 0, lplhs = [], lprhs = [],
     nactivelpcons = - 1, lpnnonz = 0, maxlpnnonz = 0, lpbeg = [], lpind = [], lpval = [],
     indchanges = [], nremovedinds = [], blockindchanges = [], nremovedblocks = 0,
     sdpilpindchanges = [], sdpilplhs = [], sdpilprhs = [], sdpilb = [], sdpiub = [],
     sdpilbrowidx = [], sdpiubrowidx = [], sdpilpbeg = [], sdpilpind = [], sdpilpval = [],
     ninfeasible = 0, nallfixed = 0, nonevarsdp = 0, slatercheck = 0, sdpid = 1,
     niterations = 0, opttime = 0, nsdpcalls = 0, solved = False, penalty = False,
     infeasible = False, allfixed = False, epsilon = 1 / 10 ^ 9, gaptol = 1 / 10 ^ 4,
     feastol = 1 / 10 ^ 6, penaltyparam = 10 ^ 5, maxpenaltyparam = 10 ^ 10, npenaltyincr = 8,
     peninfeasadjust = 10, bestbound = - (10 ^ 20), primalslater = SCIP_SDPSLATER_NOINFO,
     dualslater = SCIP_SDPSLATER_NOINFO, solvedonevarsdp = SCIP_ONEVAR_UNSOLVED,
     onevarsdpobjval = SCIP_INVALID, onevarsdpoptval = SCIP_INVALID, onevarsdpidx = - 1,
     onevarsdpcertval = SCIP_INVALID, allfixedeigenvecs = None,
     onevarsdpcertvec = None, onevarsdpcertsize = - 1\<rparr>"

text \<open>
  Two variables in \<open>[0, 10]\<close> and three LP rows with two entries each, in arrays of capacity 4
  and 8; the flags are those left by a solve that found the problem infeasible with the
  penalty formulation.
\<close>

definition sdpi_lp3 :: sdpi where
  "sdpi_lp3 = sdpi_empty\<lparr>nvars := 2, maxnvars := 2, obj := [1, 1], lb := [0, 0],
     ub := [10, 10], isintegral := [False, False], sdpilb := [0, 0], sdpiub := [10, 10],
     sdpilbrowidx := [0, 0], sdpiubrowidx := [0, 0],
     nlpcons := 3, maxnlpcons := 4, lplhs := [1, 2, 3, 0], lprhs := [4, 5, 6, 0],
     lpbeg := [0, 2, 4, 0], lpnnonz := 6, maxlpnnonz := 8,
     lpind := [0, 1, 0, 1, 0, 1, 0, 0], lpval := [11, 12, 21, 22, 31, 32, 0, 0],
     sdpilpindchanges := [0, 0, 0, 0], sdpilplhs := [0, 0, 0, 0], sdpilprhs := [0, 0, 0, 0],
     sdpilpbeg := [0, 0, 0, 0], sdpilpind := [0, 0, 0, 0, 0, 0, 0, 0],
     sdpilpval := [0, 0, 0, 0, 0, 0, 0, 0],
     solved := True, penalty := True, infeasible := True\<rparr>"



definition sdpi_tol :: sdpi where
  "sdpi_tol = sdpi_empty\<lparr>nvars := 1, maxnvars := 1, obj := [1], lb := [0],
     ub := [10], isintegral := [False], sdpilb := [0], sdpiub := [10],
     sdpilbrowidx := [0], sdpiubrowidx := [0],
     nlpcons := 1, maxnlpcons := 1, lplhs := [- (10 ^ 20)], lprhs := [- 1 / 20],
     lpbeg := [0], lpnnonz := 1, maxlpnnonz := 1, lpind := [0], lpval := [1],
     sdpilpindchanges := [0], sdpilplhs := [0], sdpilprhs := [0],
     sdpilpbeg := [0], sdpilpind := [0], sdpilpval := [0]\<rparr>"

definition sdpi_c7 :: sdpi where
  "sdpi_c7 = sdpi_empty\<lparr>nvars := 2, maxnvars := 2, obj := [1, 1], lb := [0, 0],
     ub := [20, 20], isintegral := [True, True], sdpilb := [0, 0], sdpiub := [20, 20],
     sdpilbrowidx := [0, 0], sdpiubrowidx := [0, 0],
     nlpcons := 3, maxnlpcons := 3, lplhs := [- (10 ^ 20), - (10 ^ 20), - (10 ^ 20)], lprhs := [10, 3, 3],
     lpbeg := [0, 2, 3], lpnnonz := 4, maxlpnnonz := 4,
     lpind := [0, 1, 0, 1], lpval := [1, 1, 1, 1],
     sdpilpindchanges := [0, 0, 0], sdpilplhs := [0, 0, 0], sdpilprhs := [0, 0, 0],
     sdpilpbeg := [0, 0, 0], sdpilpind := [0, 0, 0, 0],
     sdpilpval := [0, 0, 0, 0]\<rparr>"

text \<open>What a preprocessing pass hands on: bounds, row map, row count, entry count, flags.\<close>

definition prep_view :: "sdpi \<times> int \<times> bool \<Rightarrow> real list \<times> real list \<times> int list \<times> int \<times> int \<times> bool \<times> bool" where
  "prep_view r = (case r of (s, n, f) \<Rightarrow>
     (sdpilb s, sdpiub s, sdpilpindchanges s, nactivelpcons s, n, f, infeasible s))"

text \<open>
  What a call of \<^verbatim>\<open>SCIPsdpiSolve\<close> leaves: the four flags, the identifier and the calls of the
  backend, the last call first.
\<close>

definition solve_view ::
  "sdpi res option \<Rightarrow> ((bool \<times> bool \<times> bool \<times> bool) \<times> int \<times> solvercall list) res option" where
  "solve_view r = map_option (map_sum id (\<lambda>s. (flags s, sdpid s, solvercalls (sdpisolver s)))) r"

text \<open>
  A backend that never fails and never finds an acceptable solution, a one-variable solver
  that returns the value 0, and an eigenvalue routine that is right for matrices of size 1.
\<close>

definition env_plain :: env where
  "env_plain = \<lparr>alloc_ok = True, scip_debug = False,
     LoadAndSolve = (\<lambda>k. \<lparr>ls_ret = SCIP_OKAY, ls_solver = solver_empty, ls_feasorig = False,
                            ls_penaltybound = True\<rparr>),
     SetRealpar_ret = SCIP_OKAY, IncreaseCounter_ret = SCIP_OKAY,
     SolveOneVarSDP = (SCIP_OKAY, 0, 0, 0),
     ComputeIthEigenvalue = (\<lambda>n m. (SCIP_OKAY, m ! 0, [1]))\<rparr>"

text \<open>One variable in \<open>[0, 1]\<close>, no LP rows and no SDP blocks.\<close>

definition sdpi_onevar :: sdpi where
  "sdpi_onevar = sdpi_empty\<lparr>nvars := 1, maxnvars := 1, obj := [1], lb := [0], ub := [1],
     isintegral := [False], sdpilb := [0], sdpiub := [0], sdpilbrowidx := [0],
     sdpiubrowidx := [0]\<rparr>"

text \<open>
  A backend whose first solve is not acceptable and whose second solve, the feasibility
  check, reports dual infeasibility.
\<close>

definition env_infeas :: env where
  "env_infeas = env_plain\<lparr>LoadAndSolve :=
     (\<lambda>k. \<lparr>ls_ret = SCIP_OKAY,
            ls_solver = (if k = 0 then solver_empty
                         else solver_empty\<lparr>WasSolved := True, IsDualInfeasible := True\<rparr>),
            ls_feasorig = False, ls_penaltybound = True\<rparr>)\<rparr>"

text \<open>
  Two variables in \<open>[0, 1]\<close>, no LP rows and no SDP blocks; and a backend whose first solve
  is not acceptable and whose second solve reports dual infeasibility without reporting that
  it solved the problem.
\<close>

definition sdpi_twovar :: sdpi where
  "sdpi_twovar = sdpi_empty\<lparr>nvars := 2, maxnvars := 2, obj := [1, 1], lb := [0, 0], ub := [1, 1],
     isintegral := [False, False], sdpilb := [0, 0], sdpiub := [0, 0], sdpilbrowidx := [0, 0],
     sdpiubrowidx := [0, 0]\<rparr>"

definition env_unsolved :: env where
  "env_unsolved = env_plain\<lparr>LoadAndSolve :=
     (\<lambda>k. \<lparr>ls_ret = SCIP_OKAY,
            ls_solver = (if k = 1 then solver_empty\<lparr>IsDualInfeasible := True\<rparr> else solver_empty),
            ls_feasorig = False, ls_penaltybound = True\<rparr>)\<rparr>"

text \<open>
  The two variables with a penalty parameter that starts at its maximum.  A state of the
  loop as this problem and a backend that never finds an acceptable solution keep it: the
  penalty parameter stays 1, the gap tolerance stays \<open>10\<^sup>-\<^sup>4\<close>, the counters of the statistics
  stay in the range of \<^verbatim>\<open>int\<close>.
\<close>

definition sdpi_stuck :: sdpi where
  "sdpi_stuck = sdpi_twovar\<lparr>penaltyparam := 1, maxpenaltyparam := 1, npenaltyincr := 1\<rparr>"

definition stuck :: "penst \<Rightarrow> bool" where
  "stuck st =
     (case st of (s, penaltyparam', gaptol', feasorig, penaltybound) \<Rightarrow>
        penaltyparam' = 1 \<and> gaptol' = 1 / 10 ^ 4 \<and> \<not> feasorig \<and> maxpenaltyparam s = 1
        \<and> epsilon s = 1 / 10 ^ 9 \<and> \<not> IsTimelimExc (sdpisolver s)
        \<and> INT_MIN \<le> niterations s \<and> niterations s \<le> INT_MAX
        \<and> INT_MIN \<le> nsdpcalls s \<and> nsdpcalls s \<le> INT_MAX)"

section \<open>Basic facts about the combinators\<close>

lemmas ev = bnd_def rd_def wr_def assert_that_def ctl_state_def for_loop.simps copy_array_def
  SCIP_CALL_def BMS_CALL_def

section \<open>The mutators and the flags\<close>

lemma ensureLPDataMemory_flags:
  assumes "ensureLPDataMemory memok s a b = Inr s'"
  shows "flags s' = flags s"
proof -
  from assms obtain s1 where
    s1: "(if a > maxnlpcons s
          then bnd (calcGrowSize (maxnlpcons s) a) (\<lambda>newsize.
               bnd (BMS_CALL memok) (\<lambda>_.
               Inr (s\<lparr>lplhs := realloc_array (lplhs s) newsize 0,
                      lprhs := realloc_array (lprhs s) newsize 0,
                      lpbeg := realloc_array (lpbeg s) newsize 0,
                      sdpilpindchanges := realloc_array (sdpilpindchanges s) newsize 0,
                      sdpilplhs := realloc_array (sdpilplhs s) newsize 0,
                      sdpilprhs := realloc_array (sdpilprhs s) newsize 0,
                      sdpilpbeg := realloc_array (sdpilpbeg s) newsize 0,
                      maxnlpcons := newsize\<rparr>)))
          else Inr s) = Inr s1"
    and s': "(if b > maxlpnnonz s1
     then bnd (calcGrowSize (maxlpnnonz s1) b) (\<lambda>newsize.
          bnd (BMS_CALL memok) (\<lambda>_.
          Inr (s1\<lparr>lpind := realloc_array (lpind s1) newsize 0,
                  lpval := realloc_array (lpval s1) newsize 0,
                  sdpilpind := realloc_array (sdpilpind s1) newsize 0,
                  sdpilpval := realloc_array (sdpilpval s1) newsize 0,
                  maxlpnnonz := newsize\<rparr>)))
     else Inr s1) = Inr s'"
    unfolding ensureLPDataMemory_def by (erule bnd_InrE)
  have "flags s1 = flags s"
  proof (cases "a > maxnlpcons s")
    case True
    with s1 show ?thesis by (simp only: if_True, elim bnd_InrE) (auto simp: flags_def)
  next
    case False
    with s1 show ?thesis by simp
  qed
  moreover have "flags s' = flags s1"
  proof (cases "b > maxlpnnonz s1")
    case True
    with s' show ?thesis by (simp only: if_True, elim bnd_InrE) (auto simp: flags_def)
  next
    case False
    with s' show ?thesis by simp
  qed
  ultimately show ?thesis by simp
qed

lemma AddLPRows_flags:
  assumes "nrows \<noteq> 0" "SCIPsdpiAddLPRows memok s nrows lhs rhs nnonz beg ind val = Inr s'"
  shows "flags s' = (False, False, allfixed s, penalty s)"
proof (cases "nlpcons s = 0")
  case True
  with assms show ?thesis
    unfolding SCIPsdpiAddLPRows_def
    apply (simp only: if_False if_True simp_thms)
    apply (elim bnd_InrE)
    apply (drule ensureLPDataMemory_flags)
    apply (auto simp: flags_def)
    done
next
  case False
  with assms show ?thesis
    unfolding SCIPsdpiAddLPRows_def
    apply (simp only: if_False if_True simp_thms)
    apply (elim bnd_InrE)
    apply (drule ensureLPDataMemory_flags)
    apply (auto simp: flags_def)
    done
qed

lemma shift_row_flags: "shift_row d i s = Inr c \<Longrightarrow> flags (ctl_state c) = flags s"
  unfolding shift_row_def by (elim bnd_InrE) (auto simp: flags_def ctl_state_def)

lemma shift_ind_flags: "shift_ind d i s = Inr c \<Longrightarrow> flags (ctl_state c) = flags s"
  unfolding shift_ind_def by (elim bnd_InrE) (auto simp: flags_def ctl_state_def)

lemma DelLPRows_flags:
  assumes "SCIPsdpiDelLPRows s firstrow lastrow = Inr s'"
  shows "flags s' = (False, False, False, penalty s)"
proof (cases "firstrow = 0 \<and> lastrow = nlpcons s - 1")
  case True
  with assms show ?thesis
    unfolding SCIPsdpiDelLPRows_def
    by (elim bnd_InrE) (auto simp: flags_def)
next
  case False
  with assms show ?thesis
    unfolding SCIPsdpiDelLPRows_def Let_def
    apply (elim bnd_InrE)
    apply (simp only: if_False)
    apply (elim bnd_InrE)
    apply (drule for_loop_frame[where f = flags])
     apply (erule shift_row_flags)
    apply (drule for_loop_frame[where f = flags])
     apply (erule shift_ind_flags)
    apply (auto simp: flags_def)
    done
qed


lemma delrowset_step_flags:
  "delrowset_step i st = Inr c \<Longrightarrow> penalty (fst (ctl_state c)) = penalty (fst st)"
  unfolding delrowset_step_def
  apply (cases st)
  apply (simp only: prod.case)
  apply (elim bnd_InrE)
  apply (split if_splits)
   apply (elim bnd_InrE)
   apply (drule DelLPRows_flags)
   apply (auto simp: flags_def ctl_state_def)[1]
  apply (elim bnd_InrE)
  apply (auto simp: flags_def ctl_state_def)
  done

lemma DelLPRowset_flags:
  assumes "SCIPsdpiDelLPRowset s dstat = Inr (s', dstat')"
  shows "flags s' = (False, False, False, penalty s)"
  using assms unfolding SCIPsdpiDelLPRowset_def Let_def
  apply (elim bnd_InrE)
  apply (drule for_loop_frame[where f = "\<lambda>st. penalty (fst st)"])
   apply (erule delrowset_step_flags)
  apply (auto simp: flags_def split: prod.splits)
  done

lemma chgobj_step_flags: "chgobj_step ind newobj i s = Inr c \<Longrightarrow> flags (ctl_state c) = flags s"
  unfolding chgobj_step_def by (elim bnd_InrE) (auto simp: flags_def ctl_state_def)

lemma ChgObj_flags:
  "SCIPsdpiChgObj s n ind newobj = Inr s' \<Longrightarrow> flags s' = (False, infeasible s, allfixed s, penalty s)"
  unfolding SCIPsdpiChgObj_def
  apply (elim bnd_InrE)
  apply (drule for_loop_frame[where f = flags])
   apply (erule chgobj_step_flags)
  apply (auto simp: flags_def)
  done

lemma chgbounds_step_flags: "chgbounds_step ind l u i s = Inr c \<Longrightarrow> flags (ctl_state c) = flags s"
  unfolding chgbounds_step_def by (elim bnd_InrE) (auto simp: flags_def ctl_state_def)

lemma ChgBounds_flags:
  "SCIPsdpiChgBounds s n ind l u = Inr s' \<Longrightarrow> flags s' = (False, False, False, penalty s)"
  unfolding SCIPsdpiChgBounds_def
  apply (elim bnd_InrE)
  apply (drule for_loop_frame[where f = flags])
   apply (erule chgbounds_step_flags)
  apply (auto simp: flags_def)
  done

lemma chgsides_step_flags: "chgsides_step ind l u i s = Inr c \<Longrightarrow> flags (ctl_state c) = flags s"
  unfolding chgsides_step_def by (elim bnd_InrE) (auto simp: flags_def ctl_state_def)

lemma ChgLPLhRhSides_flags:
  "SCIPsdpiChgLPLhRhSides s n ind l u = Inr s' \<Longrightarrow> flags s' = (False, False, False, penalty s)"
  unfolding SCIPsdpiChgLPLhRhSides_def
  apply (elim bnd_InrE)
  apply (drule for_loop_frame[where f = flags])
   apply (erule chgsides_step_flags)
  apply (auto simp: flags_def)
  done

text \<open>
  Claim C1, as the code has it.  A mutator that returns \<^verbatim>\<open>SCIP_OKAY\<close> leaves \<open>solved = false\<close>,
  except \<^verbatim>\<open>SCIPsdpiAddLPRows\<close> with \<open>nrows = 0\<close>, which returns at once and changes nothing.
  \<open>infeasible\<close> is reset by every mutator but \<^verbatim>\<open>SCIPsdpiChgObj\<close>; \<open>allfixed\<close> is reset by
  \<^verbatim>\<open>SCIPsdpiDelLPRows\<close>, \<^verbatim>\<open>SCIPsdpiDelLPRowset\<close>, \<^verbatim>\<open>SCIPsdpiChgBounds\<close> and
  \<^verbatim>\<open>SCIPsdpiChgLPLhRhSides\<close> and kept by \<^verbatim>\<open>SCIPsdpiAddLPRows\<close> and \<^verbatim>\<open>SCIPsdpiChgObj\<close>;
  \<open>penalty\<close> is kept by all of them (only \<^verbatim>\<open>SCIPsdpiSolve\<close> writes it).
\<close>

theorem mutators_reset_flags:
  "(nrows \<noteq> 0 \<longrightarrow> SCIPsdpiAddLPRows memok s nrows lhs rhs nnonz beg ind val = Inr s1 \<longrightarrow>
      flags s1 = (False, False, allfixed s, penalty s))
   \<and> SCIPsdpiAddLPRows memok s 0 lhs rhs nnonz beg ind val = Inr s
   \<and> (SCIPsdpiDelLPRows s firstrow lastrow = Inr s2 \<longrightarrow> flags s2 = (False, False, False, penalty s))
   \<and> (SCIPsdpiDelLPRowset s dstat = Inr (s3, dstat') \<longrightarrow> flags s3 = (False, False, False, penalty s))
   \<and> (SCIPsdpiChgObj s n ind' newobj = Inr s4 \<longrightarrow> flags s4 = (False, infeasible s, allfixed s, penalty s))
   \<and> (SCIPsdpiChgBounds s n ind' newlb newub = Inr s5 \<longrightarrow> flags s5 = (False, False, False, penalty s))
   \<and> (SCIPsdpiChgLPLhRhSides s n ind' newlhs newrhs = Inr s6 \<longrightarrow> flags s6 = (False, False, False, penalty s))"
  using AddLPRows_flags DelLPRows_flags DelLPRowset_flags ChgObj_flags ChgBounds_flags ChgLPLhRhSides_flags
  by (simp add: SCIPsdpiAddLPRows_def)

lemmas sdpi_ex = sdpi_lp3_def sdpi_empty_def solver_empty_def


lemma sdpi_lp3_flags: "flags sdpi_lp3 = (True, True, False, True)"
  by (simp add: flags_def sdpi_ex)

lemma AddLPRows_returns: "\<exists>s1. SCIPsdpiAddLPRows True sdpi_lp3 1 [0] [1] 1 [0] [0] [1] = Inr s1"
  by (simp add: SCIPsdpiAddLPRows_def ensureLPDataMemory_def ev sdpi_ex)
lemma DelLPRows_returns: "\<exists>s1. SCIPsdpiDelLPRows sdpi_lp3 1 1 = Inr s1"
  by (simp add: SCIPsdpiDelLPRows_def shift_row_def shift_ind_def ev sdpi_ex)
lemma DelLPRowset_returns: "\<exists>s1 d. SCIPsdpiDelLPRowset sdpi_lp3 [1,1,1] = Inr (s1, d)"
  by (simp add: SCIPsdpiDelLPRowset_def delrowset_step_def SCIPsdpiDelLPRows_def shift_row_def shift_ind_def ev sdpi_ex)
lemma ChgObj_returns: "\<exists>s1. SCIPsdpiChgObj sdpi_lp3 1 [0] [5] = Inr s1"
  by (simp add: SCIPsdpiChgObj_def chgobj_step_def ev sdpi_ex)
lemma ChgBounds_returns: "\<exists>s1. SCIPsdpiChgBounds sdpi_lp3 1 [1] [2] [3] = Inr s1"
  by (simp add: SCIPsdpiChgBounds_def chgbounds_step_def ev sdpi_ex)
lemma ChgLPLhRhSides_returns: "\<exists>s1. SCIPsdpiChgLPLhRhSides sdpi_lp3 1 [2] [0] [9] = Inr s1"
  by (simp add: SCIPsdpiChgLPLhRhSides_def chgsides_step_def ev sdpi_ex)

text \<open>The six mutators on the instance \<open>sdpi_lp3\<close>, whose flags are \<open>solved\<close>, \<open>infeasible\<close>, \<open>penalty\<close>.\<close>

theorem mutators_reset_flags_witness:
  "map_sum id flags (SCIPsdpiAddLPRows True sdpi_lp3 1 [0] [1] 1 [0] [0] [1]) = Inr (False, False, False, True)
   \<and> map_sum id flags (SCIPsdpiDelLPRows sdpi_lp3 1 1) = Inr (False, False, False, True)
   \<and> map_sum id (\<lambda>r. flags (fst r)) (SCIPsdpiDelLPRowset sdpi_lp3 [1, 1, 1]) = Inr (False, False, False, True)
   \<and> map_sum id flags (SCIPsdpiChgObj sdpi_lp3 1 [0] [5]) = Inr (False, True, False, True)
   \<and> map_sum id flags (SCIPsdpiChgBounds sdpi_lp3 1 [1] [2] [3]) = Inr (False, False, False, True)
   \<and> map_sum id flags (SCIPsdpiChgLPLhRhSides sdpi_lp3 1 [2] [0] [9]) = Inr (False, False, False, True)"
proof -
  obtain s1 where h1: "SCIPsdpiAddLPRows True sdpi_lp3 1 [0] [1] 1 [0] [0] [1] = Inr s1"
    using AddLPRows_returns by blast
  obtain s2 where h2: "SCIPsdpiDelLPRows sdpi_lp3 1 1 = Inr s2"
    using DelLPRows_returns by blast
  obtain s3 d where h3: "SCIPsdpiDelLPRowset sdpi_lp3 [1, 1, 1] = Inr (s3, d)"
    using DelLPRowset_returns by blast
  obtain s4 where h4: "SCIPsdpiChgObj sdpi_lp3 1 [0] [5] = Inr s4"
    using ChgObj_returns by blast
  obtain s5 where h5: "SCIPsdpiChgBounds sdpi_lp3 1 [1] [2] [3] = Inr s5"
    using ChgBounds_returns by blast
  obtain s6 where h6: "SCIPsdpiChgLPLhRhSides sdpi_lp3 1 [2] [0] [9] = Inr s6"
    using ChgLPLhRhSides_returns by blast
  have f: "allfixed sdpi_lp3 = False" "penalty sdpi_lp3 = True" "infeasible sdpi_lp3 = True"
    using sdpi_lp3_flags by (simp_all add: flags_def)
  from mutators_reset_flags[where s = sdpi_lp3 and memok = True and nrows = 1 and lhs = "[0]"
      and rhs = "[1]" and nnonz = 1 and beg = "[0]" and ind = "[0]" and val = "[1]" and ?s1.0 = s1
      and firstrow = 1 and lastrow = 1 and ?s2.0 = s2 and dstat = "[1, 1, 1]" and ?s3.0 = s3
      and dstat' = d and n = 1 and ind' = "[0]" and newobj = "[5]" and ?s4.0 = s4]
    mutators_reset_flags[where s = sdpi_lp3 and n = 1 and ind' = "[1]" and newlb = "[2]"
      and newub = "[3]" and ?s5.0 = s5]
    mutators_reset_flags[where s = sdpi_lp3 and n = 1 and ind' = "[2]" and newlhs = "[0]"
      and newrhs = "[9]" and ?s6.0 = s6]
  show ?thesis
    using h1 h2 h3 h4 h5 h6 f by simp
qed

text \<open>
  Claim C1 as stated fails: after \<^verbatim>\<open>SCIPsdpiChgObj\<close> the flags \<open>infeasible\<close> and \<open>penalty\<close> are
  still set, and \<^verbatim>\<open>SCIPsdpiAddLPRows\<close> with \<open>nrows = 0\<close> leaves \<open>solved\<close> set.
\<close>

theorem mutators_reset_flags_counterexample:
  "map_sum id flags (SCIPsdpiChgObj sdpi_lp3 1 [0] [5]) = Inr (False, True, False, True)
   \<and> map_sum id flags (SCIPsdpiAddLPRows True sdpi_lp3 0 [] [] 0 [] [] []) = Inr (True, True, False, True)"
  by (simp add: SCIPsdpiChgObj_def chgobj_step_def SCIPsdpiAddLPRows_def ev sdpi_ex flags_def)

section \<open>Deleting LP rows\<close>

text \<open>
  Claim C10 (the rows outside the deleted range remain, with their sides and entries, and
  \<open>lpnnonz\<close> drops by the number of deleted entries) fails on the code.  Deleting the middle
  row of \<open>sdpi_lp3\<close> should leave the rows \<open>(1, 4, [(0, 11), (1, 12)])\<close> and
  \<open>(3, 6, [(0, 31), (1, 32)])\<close> and \<open>lpnnonz = 4\<close>.  The function reads \<open>lpbeg[firstrow]\<close>
  after the shift has overwritten it, adds one to \<open>deletednonz\<close>, moves \<open>lpind\<close> but not \<open>lpval\<close>
  and does not lower the \<open>lpbeg\<close> entries of the rows that follow.
\<close>

theorem SCIPsdpiDelLPRows_middle_row:
  "lp_rows sdpi_lp3 = [(1, 4, [(0, 11), (1, 12)]), (2, 5, [(0, 21), (1, 22)]), (3, 6, [(0, 31), (1, 32)])]
   \<and> map_sum id lp_rows (SCIPsdpiDelLPRows sdpi_lp3 1 1)
       = Inr [(1, 4, [(0, 11), (1, 12), (0, 21), (0, 22)]), (3, 6, [(1, 31)])]
   \<and> map_sum id lpnnonz (SCIPsdpiDelLPRows sdpi_lp3 1 1) = Inr 5"
  by (simp add: SCIPsdpiDelLPRows_def shift_row_def shift_ind_def ev sdpi_ex lp_rows_def lp_row_def Let_def eval_nat_numeral)

section \<open>Queries before a solve\<close>

text \<open>
  Claim C8, as the code has it.  With \<open>solved = false\<close>, \<^verbatim>\<open>SCIPsdpiGetObjval\<close> and
  \<^verbatim>\<open>SCIPsdpiGetDualSol\<close> return the error code \<^verbatim>\<open>SCIP_LPERROR\<close> (a checked error return of
  \<^verbatim>\<open>CHECK_IF_SOLVED\<close>, not an assertion) and leave the interface and the outputs as they
  were.
\<close>

theorem query_before_solve:
  "\<not> solved s \<Longrightarrow>
     SCIPsdpiGetObjval s objval = (Inl (Returned SCIP_LPERROR), s, objval)
     \<and> SCIPsdpiGetDualSol s objval' dualsol = (Inl (Returned SCIP_LPERROR), s, objval', dualsol)"
  by (simp add: SCIPsdpiGetObjval_def SCIPsdpiGetDualSol_def)

theorem query_before_solve_witness:
  "\<not> solved sdpi_empty
   \<and> SCIPsdpiGetObjval sdpi_empty 7 = (Inl (Returned SCIP_LPERROR), sdpi_empty, 7)
   \<and> SCIPsdpiGetDualSol sdpi_empty (Some 7) (Some []) = (Inl (Returned SCIP_LPERROR), sdpi_empty, Some 7, Some [])"
proof -
  have h: "\<not> solved sdpi_empty" by (simp add: sdpi_empty_def)
  from query_before_solve[OF h, of 7 "Some 7" "Some []"] h show ?thesis by simp
qed

text \<open>
  Claim C8 as stated fails: the outcome of a query on an unsolved interface is the returned
  code \<^verbatim>\<open>SCIP_LPERROR\<close>, not a failed assertion.
\<close>

theorem query_before_solve_counterexample:
  "fst (SCIPsdpiGetObjval sdpi_empty 7) \<noteq> Inl AssertFailed
   \<and> fst (SCIPsdpiGetObjval sdpi_empty 7) = Inl (Returned SCIP_LPERROR)
   \<and> fst (SCIPsdpiGetDualSol sdpi_empty (Some 7) (Some [])) = Inl (Returned SCIP_LPERROR)"
  by (simp add: SCIPsdpiGetObjval_def SCIPsdpiGetDualSol_def sdpi_empty_def)


section \<open>Rows with one free variable\<close>











lemmas prep_defs = prepareLPData_def init_rowidx_def prepare_row_def prepare_scan_def scan_step_def
  isFixed_def prepare_multi_def prepare_singleton_def prepare_empty_def singleton_bounds_def
  strengthen_lb_def strengthen_ub_def tightenRowCoefs_def activity_step_def tighten_loop.simps
  tighten_step_def tighten_coef_def SCIPsdpiInfinity_def SCIPsdpiIsInfinity_def SCIP_INVALID_def







section \<open>Running the preprocessing pass twice\<close>

text \<open>
  Claim C7 as stated fails.  On \<open>sdpi_c7\<close> the first pass reports no fixing and no
  infeasibility; it keeps row 0 (\<open>x\<^sub>1 + x\<^sub>2 \<le> 10\<close>) and turns rows 1 and 2 into the bounds
  \<open>x\<^sub>1 \<le> 3\<close>, \<open>x\<^sub>2 \<le> 3\<close>.  The second pass starts from these bounds, finds row 0 redundant
  and removes it: the row maps differ.
\<close>

theorem prepareLPData_twice_counterexample:
  "map_sum id prep_view (prepareLPData sdpi_c7)
     = Inr ([0, 0], [3, 3], [0, - 1, - 1], 1, 2, False, False)
   \<and> map_sum id prep_view (bnd (prepareLPData sdpi_c7) (\<lambda>r. prepareLPData (fst r)))
     = Inr ([0, 0], [3, 3], [- 1, - 1, - 1], 0, 0, False, False)"
  by (simp add: prep_defs ev sdpi_c7_def sdpi_empty_def solver_empty_def prep_view_def Let_def)

section \<open>The problem identifier\<close>

text \<open>
  C9 (amended).  A call of \<^verbatim>\<open>SCIPsdpiSolve\<close> that returns \<^verbatim>\<open>SCIP_OKAY\<close> leaves \<open>sdpid\<close> as it is
  when the time limit is not positive.  When the time limit is positive and the call ends
  neither with infeasibility found by the interface itself nor with all variables fixed
  (that is, on the path of the problem with one variable and on the path of the backend),
  \<open>sdpid\<close> was below \<^verbatim>\<open>INT_MAX\<close> and the call increments it exactly once.
\<close>

theorem SCIPsdpiSolve_sdpid:
  assumes "SCIPsdpiSolve e fuel s enforceslatercheck timelimit = Some (Inr s')"
  shows "(timelimit \<le> 0 \<longrightarrow> sdpid s' = sdpid s)
       \<and> (0 < timelimit \<and> \<not> allfixed s' \<and> (infeasible s' \<longrightarrow> penalty s')
            \<longrightarrow> sdpid s < INT_MAX \<and> sdpid s' = sdpid s + 1)"
proof (cases "timelimit \<le> 0")
  case True
  with assms have "s' = solve_reset s" by (simp add: SCIPsdpiSolve_def Let_def)
  with True show ?thesis by (simp add: solve_reset_ids)
next
  case False
  define s0 where "s0 = solve_reset s"
  have i0: "ids s0 = (sdpid s, False, False, solvercalls (sdpisolver s))"
    by (simp add: ids_def s0_def solve_reset_ids)
  from assms False obtain c1 where l1: "for_loop 0 (nvars s0) copy_bound s0 = Inr c1"
    and r1: "(if infeasible (ctl_state c1) then Some (exit_infeasible e (ctl_state c1))
             else
               (case prepare_loop (ctl_state c1) of
                  Inl f \<Rightarrow> Some (Inl f)
                | Inr (s2, sdpilpnnonz) \<Rightarrow>
                    if infeasible s2 then Some (exit_infeasible e s2)
                    else
                      (case for_loop 0 (nvars s2) (count_active s2) (0, - 1, 0) of
                         Inl f \<Rightarrow> Some (Inl f)
                       | Inr c3 \<Rightarrow>
                           (case ctl_state c3 of (nactivevars, activevaridx, fixedvarsobjcontr) \<Rightarrow>
                              if nactivevars = 0
                              then Some (exit_allfixed e (s2\<lparr>allfixed := True\<rparr>))
                              else solve_active e fuel enforceslatercheck sdpilpnnonz s2
                                     nactivevars activevaridx fixedvarsobjcontr))))
            = Some (Inr s')"
    unfolding SCIPsdpiSolve_def Let_def s0_def[symmetric]
    by (auto split: sum.splits)
  have i1: "ids (ctl_state c1) = ids s0"
    by (rule for_loop_frame[OF l1]) (erule copy_bound_ids)
  have goal: "allfixed s' \<or> (infeasible s' \<and> \<not> penalty s')
              \<or> (sdpid s < INT_MAX \<and> sdpid s' = sdpid s + 1)"
  proof (cases "infeasible (ctl_state c1)")
    case True
    with r1 have "exit_infeasible e (ctl_state c1) = Inr s'" by simp
    from exit_infeasible_result[OF this] True i1 i0 show ?thesis by (simp add: ids_def)
  next
    case nf: False
    with r1 obtain s2 n where p: "prepare_loop (ctl_state c1) = Inr (s2, n)"
      and r2: "(if infeasible s2 then Some (exit_infeasible e s2)
                else
                  (case for_loop 0 (nvars s2) (count_active s2) (0, - 1, 0) of
                     Inl f \<Rightarrow> Some (Inl f)
                   | Inr c3 \<Rightarrow>
                       (case ctl_state c3 of (nactivevars, activevaridx, fixedvarsobjcontr) \<Rightarrow>
                          if nactivevars = 0
                          then Some (exit_allfixed e (s2\<lparr>allfixed := True\<rparr>))
                          else solve_active e fuel enforceslatercheck n s2
                                 nactivevars activevaridx fixedvarsobjcontr)))
               = Some (Inr s')"
      by (auto split: sum.splits)
    have i2: "ids s2 = ids s0" using prepare_loop_ids[OF p] i1 by simp
    show ?thesis
    proof (cases "infeasible s2")
      case True
      with r2 have "exit_infeasible e s2 = Inr s'" by simp
      from exit_infeasible_result[OF this] True i2 i0 show ?thesis by (simp add: ids_def)
    next
      case False
      with r2 obtain nact idx contr where
        r3: "(if nact = 0 then Some (exit_allfixed e (s2\<lparr>allfixed := True\<rparr>))
              else solve_active e fuel enforceslatercheck n s2 nact idx contr) = Some (Inr s')"
        by (auto split: sum.splits prod.splits)
      show ?thesis
      proof (cases "nact = 0")
        case True
        with r3 have "exit_allfixed e (s2\<lparr>allfixed := True\<rparr>) = Inr s'" by simp
        from exit_allfixed_result[OF this] i2 i0 show ?thesis by (simp add: ids_def)
      next
        case False
        with r3 have "solve_active e fuel enforceslatercheck n s2 nact idx contr = Some (Inr s')"
          by simp
        from solve_active_result[OF this] i2 i0 show ?thesis by (auto simp: ids_def)
      qed
    qed
  qed
  with False show ?thesis by auto
qed

lemmas solve_defs = SCIPsdpiSolve_def solve_reset_def copy_bound_def exit_infeasible_def
  exit_allfixed_def debug_sdpid_def count_active_def alloc_const_def alloc_block_def
  solve_active_def active_setup_def solve_onevar_def onevar_lp_def increase_counter_def
  int_add_def INT_MAX_def INT_MIN_def
  compConstMatAfterFixings_def isFixed_def prepareLPData_def
  SCIPsdpiInfinity_def SCIPsdpiIsInfinity_def SCIP_INVALID_def

lemmas backend_defs = solve_backend_def primary_solve_def penalty_phase_def penalty_escalation_def
  findEmptyRowColsSDP_def call_solver_def add_stats_def set_solver_gaptol_def
  penalty_cond_def penalty_step_def penalty_factors_def MIN_GAPTOL_def
  SCIPsdpiInfinity_def

lemma prepare_loop_unfold:
  "prepare_loop s =
     (case prepareLPData s of
        Inl f \<Rightarrow> Inl f
      | Inr r \<Rightarrow> if snd (snd r) \<and> \<not> infeasible (fst r) then prepare_loop (fst r)
                else Inr (fst r, fst (snd r)))"
  by (subst prepare_loop.simps) (simp add: bnd_def split: sum.splits)

lemma sdpi_onevar_solve:
  "\<exists>s'. SCIPsdpiSolve env_plain 0 sdpi_onevar False 1 = Some (Inr s') \<and> \<not> allfixed s'
        \<and> \<not> infeasible s' \<and> solved s' \<and> solvercalls (sdpisolver s') = []
        \<and> onevarsdpoptval s' = 0"
  by (simp add: solve_defs prepare_loop_unfold ev env_plain_def sdpi_onevar_def sdpi_empty_def
        solver_empty_def Let_def)


lemma sdpi_twovar_solve:
  "\<exists>s'. SCIPsdpiSolve env_infeas 0 sdpi_twovar False 1 = Some (Inr s') \<and> \<not> allfixed s'
        \<and> infeasible s' \<and> penalty s' \<and> solved s'
        \<and> solvercalls (sdpisolver s') = [LoadAndSolveWithPenalty_call 1 False False, LoadAndSolve_call]"
  by (simp add: solve_defs backend_defs prepare_loop_unfold ev env_infeas_def env_plain_def
        sdpi_twovar_def sdpi_empty_def solver_empty_def Let_def)

text \<open>
  The problem with one variable is solved by the interface itself, the problem with two
  variables by two calls of the backend; in both calls \<open>sdpid\<close> goes from 1 to 2.
\<close>

theorem SCIPsdpiSolve_sdpid_witness:
  "(\<exists>s'. SCIPsdpiSolve env_plain 0 sdpi_onevar False 1 = Some (Inr s') \<and> solved s'
        \<and> solvercalls (sdpisolver s') = []
        \<and> sdpid sdpi_onevar = 1 \<and> sdpid s' = 2)
   \<and> (\<exists>s'. SCIPsdpiSolve env_infeas 0 sdpi_twovar False 1 = Some (Inr s') \<and> solved s'
        \<and> solvercalls (sdpisolver s') = [LoadAndSolveWithPenalty_call 1 False False, LoadAndSolve_call]
        \<and> sdpid sdpi_twovar = 1 \<and> sdpid s' = 2)"
proof -
  obtain s' where s': "SCIPsdpiSolve env_plain 0 sdpi_onevar False 1 = Some (Inr s')"
    "\<not> allfixed s'" "\<not> infeasible s'" "solved s'" "solvercalls (sdpisolver s') = []"
    using sdpi_onevar_solve by blast
  have i1: "sdpid sdpi_onevar = 1" by (simp add: sdpi_onevar_def sdpi_empty_def)
  from SCIPsdpiSolve_sdpid[OF s'(1)] s' i1
  have a: "sdpid s' = 2" by auto
  obtain t' where t': "SCIPsdpiSolve env_infeas 0 sdpi_twovar False 1 = Some (Inr t')"
    "\<not> allfixed t'" "infeasible t'" "penalty t'" "solved t'"
    "solvercalls (sdpisolver t') = [LoadAndSolveWithPenalty_call 1 False False, LoadAndSolve_call]"
    using sdpi_twovar_solve by blast
  have i2: "sdpid sdpi_twovar = 1" by (simp add: sdpi_twovar_def sdpi_empty_def)
  from SCIPsdpiSolve_sdpid[OF t'(1)] t' i2
  have b: "sdpid t' = 2" by auto
  from s' t' i1 i2 a b show ?thesis by blast
qed

text \<open>
  Claim C9 as stated fails.  With a time limit that is not positive the call returns
  \<^verbatim>\<open>SCIP_OKAY\<close> and \<open>sdpid\<close> is what it was.  The same holds, in a build without \<^verbatim>\<open>SCIP_DEBUG\<close>,
  when the bounds of a variable cross, when the preprocessing of the LP rows finds the
  problem infeasible (the row \<open>x\<^sub>1 \<le> - 1 / 20\<close> with \<open>x\<^sub>1 \<ge> 0\<close>), and when all variables are fixed.
\<close>

theorem SCIPsdpiSolve_sdpid_counterexample:
  "sdpid sdpi_onevar = 1 \<and> sdpid sdpi_tol = 1
   \<and> solve_view (SCIPsdpiSolve env_plain 0 sdpi_onevar False 0)
       = Some (Inr ((False, False, False, False), 1, []))
   \<and> solve_view (SCIPsdpiSolve env_plain 0 (sdpi_onevar\<lparr>lb := [1], ub := [0]\<rparr>) False 1)
       = Some (Inr ((True, True, False, False), 1, []))
   \<and> solve_view (SCIPsdpiSolve env_plain 0 sdpi_tol False 1)
       = Some (Inr ((True, True, False, False), 1, []))
   \<and> solve_view (SCIPsdpiSolve env_plain 0 (sdpi_onevar\<lparr>ub := [0]\<rparr>) False 1)
       = Some (Inr ((True, False, True, False), 1, []))"
proof (intro conjI)
  show "sdpid sdpi_onevar = 1" "sdpid sdpi_tol = 1"
    by (simp_all add: sdpi_onevar_def sdpi_tol_def sdpi_empty_def)
  show "solve_view (SCIPsdpiSolve env_plain 0 sdpi_onevar False 0)
       = Some (Inr ((False, False, False, False), 1, []))"
    by (simp add: solve_view_def flags_def solve_defs ev env_plain_def sdpi_onevar_def
        sdpi_empty_def solver_empty_def Let_def)
  show "solve_view (SCIPsdpiSolve env_plain 0 (sdpi_onevar\<lparr>lb := [1], ub := [0]\<rparr>) False 1)
       = Some (Inr ((True, True, False, False), 1, []))"
    by (simp add: solve_view_def flags_def solve_defs ev env_plain_def sdpi_onevar_def
        sdpi_empty_def solver_empty_def Let_def)
  show "solve_view (SCIPsdpiSolve env_plain 0 sdpi_tol False 1)
       = Some (Inr ((True, True, False, False), 1, []))"
    by (simp add: solve_view_def flags_def solve_defs prep_defs prepare_loop_unfold ev
        env_plain_def sdpi_tol_def sdpi_empty_def solver_empty_def Let_def)
  show "solve_view (SCIPsdpiSolve env_plain 0 (sdpi_onevar\<lparr>ub := [0]\<rparr>) False 1)
       = Some (Inr ((True, False, True, False), 1, []))"
    by (simp add: solve_view_def flags_def solve_defs prepare_loop_unfold
        checkFixedFeasibilitySdp_def ev env_plain_def sdpi_onevar_def sdpi_empty_def
        solver_empty_def Let_def)
qed

text \<open>
  The identifier is an \<^verbatim>\<open>int\<close>: at \<^verbatim>\<open>INT_MAX\<close> the increment at the end of the function
  overflows.
\<close>

lemma SCIPsdpiSolve_sdpid_overflow:
  "SCIPsdpiSolve env_plain 0 (sdpi_onevar\<lparr>sdpid := INT_MAX\<rparr>) False 1 = Some (Inl SignedOverflow)"
  by (simp add: solve_defs prepare_loop_unfold ev env_plain_def sdpi_onevar_def sdpi_empty_def
        solver_empty_def Let_def)

section \<open>The feasibility check with the penalty formulation\<close>

lemma solve_backend_infeasible:
  assumes prim: "primary_solve e n s nbn rows cols vals = Inr s3"
    and na: "\<not> IsAcceptable (sdpisolver s3)" "\<not> IsTimelimExc (sdpisolver s3)"
    and call: "call_solver e (LoadAndSolveWithPenalty_call 1 False False) s3 = Inr r"
    and stats: "add_stats (fst r) = Inr s5"
    and obj: "WasSolved (sdpisolver s5) \<longrightarrow> GetObjval_ret (sdpisolver s5) = SCIP_OKAY"
    and inf: "(IsOptimal (sdpisolver s5)
               \<and> (if WasSolved (sdpisolver s5) then GetObjval (sdpisolver s5)
                   else - SCIPsdpiInfinity s5) > peninfeasadjust s5 * max (feastol s5) (gaptol s5))
              \<or> (WasSolved (sdpisolver s5) \<and> IsDualInfeasible (sdpisolver s5))"
  shows "solve_backend e fuel enforceslatercheck n s nbn rows cols vals
           = Some (Inr (s5\<lparr>penalty := True, infeasible := True\<rparr>))
         \<and> solved s5 \<and> keep s5 = keep s
         \<and> solvercalls (sdpisolver s5)
             = LoadAndSolveWithPenalty_call 1 False False # solvercalls (sdpisolver s3)"
proof -
  note k3 = primary_solve_keep[OF prim]
  have k5: "keep s5 = keep s3"
    using call_solver_keep[OF call] add_stats_keep[OF stats] by simp
  have so5: "solved s5"
    using call_solver_keep[OF call] add_stats_keep[OF stats] k3 by simp
  have calls: "solvercalls (sdpisolver s5)
             = LoadAndSolveWithPenalty_call 1 False False # solvercalls (sdpisolver s3)"
    using call_solver_calls[OF call] add_stats_keep[OF stats] by simp
  have ph: "bnd (call_solver e (LoadAndSolveWithPenalty_call 1 False False) s3) (\<lambda>r.
           bnd (add_stats (fst r)) (\<lambda>s1.
           bnd (if WasSolved (sdpisolver s1)
                then bnd (SCIP_CALL (GetObjval_ret (sdpisolver s1))) (\<lambda>_.
                     Inr (GetObjval (sdpisolver s1)))
                else Inr (- SCIPsdpiInfinity s1)) (\<lambda>objval.
           Inr (s1, objval))))
        = Inr (s5, if WasSolved (sdpisolver s5) then GetObjval (sdpisolver s5)
                   else - SCIPsdpiInfinity s5)"
    using obj by (simp add: call stats bnd_def SCIP_CALL_def)
  have "penalty_phase e fuel enforceslatercheck n s3
          = Some (Inr (s5\<lparr>penalty := True, infeasible := True\<rparr>))"
    unfolding penalty_phase_def ph using inf by auto
  then have "solve_backend e fuel enforceslatercheck n s nbn rows cols vals
           = Some (Inr (s5\<lparr>penalty := True, infeasible := True\<rparr>))"
    unfolding solve_backend_def prim using na by simp
  with so5 calls k3 k5 show ?thesis by simp
qed

text \<open>
  C4 (amended).  Let a call of \<^verbatim>\<open>SCIPsdpiSolve\<close> with a positive time limit reach the backend:
  the bounds do not cross, the preprocessing ends without infeasibility, some variable is not
  fixed, and the problem is not solved as a problem with one variable.  Let the primary solve
  (with its statistics) return \<^verbatim>\<open>SCIP_OKAY\<close> with a result that is not acceptable, the time
  limit of the backend not exceeded.  Then the next call of the backend is
  \<^verbatim>\<open>SCIPsdpiSolverLoadAndSolveWithPenalty\<close> with penalty parameter 1 and without the objective
  (\<open>withobj = FALSE\<close>, \<open>rbound = FALSE\<close>).  If this call and the queries after it return
  \<^verbatim>\<open>SCIP_OKAY\<close>, and the backend is optimal with an objective value (taken as minus infinity
  when the backend reports that it did not solve the problem) above
  \<open>peninfeasadjust * max feastol gaptol\<close>, or reports that it solved the problem and that it is
  dual infeasible, then \<^verbatim>\<open>SCIPsdpiSolve\<close> returns \<^verbatim>\<open>SCIP_OKAY\<close> with \<open>infeasible\<close>, \<open>penalty\<close> and
  \<open>solved\<close> set and \<open>sdpid\<close> incremented (the identifier being below \<^verbatim>\<open>INT_MAX\<close>), and this
  call is the last call of the backend: the loop that increases the penalty parameter is not
  entered, whatever the fuel.
\<close>

theorem penalty_feasibility_check:
  assumes tl: "0 < timelimit"
    and copy: "for_loop 0 (nvars (solve_reset s)) copy_bound (solve_reset s) = Inr c1"
    and nf1: "\<not> infeasible (ctl_state c1)"
    and prep: "prepare_loop (ctl_state c1) = Inr (s2, n)"
    and nf2: "\<not> infeasible s2"
    and cnt: "for_loop 0 (nvars s2) (count_active s2) (0, - 1, 0) = Inr c3"
    and act: "ctl_state c3 = (nact, idx, contr)" "nact \<noteq> 0"
    and asetup: "active_setup e s2 nact idx contr = Inr (s1, nbn, rows, cols, vals)"
    and ns: "\<not> solved s1"
    and prim: "primary_solve e n s1 nbn rows cols vals = Inr s3"
    and na: "\<not> IsAcceptable (sdpisolver s3)" "\<not> IsTimelimExc (sdpisolver s3)"
    and call: "call_solver e (LoadAndSolveWithPenalty_call 1 False False) s3 = Inr r"
    and stats: "add_stats (fst r) = Inr s5"
    and obj: "WasSolved (sdpisolver s5) \<longrightarrow> GetObjval_ret (sdpisolver s5) = SCIP_OKAY"
    and inf: "(IsOptimal (sdpisolver s5)
               \<and> (if WasSolved (sdpisolver s5) then GetObjval (sdpisolver s5)
                   else - SCIPsdpiInfinity s5) > peninfeasadjust s5 * max (feastol s5) (gaptol s5))
              \<or> (WasSolved (sdpisolver s5) \<and> IsDualInfeasible (sdpisolver s5))"
    and id: "INT_MIN \<le> sdpid s" "sdpid s < INT_MAX"
  shows "SCIPsdpiSolve e fuel s enforceslatercheck timelimit
           = Some (Inr (s5\<lparr>penalty := True, infeasible := True, sdpid := sdpid s + 1\<rparr>))
         \<and> solved s5
         \<and> solvercalls (sdpisolver s5)
             = LoadAndSolveWithPenalty_call 1 False False # solvercalls (sdpisolver s3)"
proof -
  note b = solve_backend_infeasible[OF prim na call stats obj inf, of fuel enforceslatercheck]
  have "ids (ctl_state c1) = ids (solve_reset s)"
    by (rule for_loop_frame[OF copy]) (erule copy_bound_ids)
  with prepare_loop_ids[OF prep] have "sdpid s2 = sdpid s"
    by (simp add: ids_def solve_reset_ids)
  with active_setup_keep[OF asetup] b have id5: "sdpid s5 = sdpid s" by (simp add: keep_def)
  have "solve_active e fuel enforceslatercheck n s2 nact idx contr
          = Some (Inr (s5\<lparr>penalty := True, infeasible := True, sdpid := sdpid s + 1\<rparr>))"
    unfolding solve_active_def asetup using ns b id
    by (simp add: int_add_def bnd_def id5)
  then have "SCIPsdpiSolve e fuel s enforceslatercheck timelimit
           = Some (Inr (s5\<lparr>penalty := True, infeasible := True, sdpid := sdpid s + 1\<rparr>))"
    unfolding SCIPsdpiSolve_def Let_def using tl nf1 nf2 act
    by (simp add: copy prep cnt)
  with b show ?thesis by simp
qed

lemma sdpi_twovar_path:
  "\<exists>c1 s2 n c3 idx contr s1 nbn rows cols vals s3 r s5.
      for_loop 0 (nvars (solve_reset sdpi_twovar)) copy_bound (solve_reset sdpi_twovar) = Inr c1
    \<and> \<not> infeasible (ctl_state c1)
    \<and> prepare_loop (ctl_state c1) = Inr (s2, n)
    \<and> \<not> infeasible s2
    \<and> for_loop 0 (nvars s2) (count_active s2) (0, - 1, 0) = Inr c3
    \<and> ctl_state c3 = (2, idx, contr)
    \<and> active_setup env_infeas s2 2 idx contr = Inr (s1, nbn, rows, cols, vals)
    \<and> \<not> solved s1
    \<and> primary_solve env_infeas n s1 nbn rows cols vals = Inr s3
    \<and> \<not> IsAcceptable (sdpisolver s3) \<and> \<not> IsTimelimExc (sdpisolver s3)
    \<and> solvercalls (sdpisolver s3) = [LoadAndSolve_call]
    \<and> call_solver env_infeas (LoadAndSolveWithPenalty_call 1 False False) s3 = Inr r
    \<and> add_stats (fst r) = Inr s5 \<and> GetObjval_ret (sdpisolver s5) = SCIP_OKAY
    \<and> WasSolved (sdpisolver s5) \<and> IsDualInfeasible (sdpisolver s5)"
  by (simp add: solve_defs backend_defs prepare_loop_unfold ev env_infeas_def env_plain_def
        sdpi_twovar_def sdpi_empty_def solver_empty_def Let_def)

text \<open>
  Two variables in \<open>[0, 1]\<close>: the first solve is not acceptable, the feasibility check reports
  dual infeasibility, and \<^verbatim>\<open>SCIPsdpiSolve\<close> returns with the three flags set after two calls of
  the backend.
\<close>

theorem penalty_feasibility_check_witness:
  "\<exists>s'. SCIPsdpiSolve env_infeas 0 sdpi_twovar False 1 = Some (Inr s')
        \<and> solved s' \<and> infeasible s' \<and> penalty s' \<and> sdpid s' = 2
        \<and> solvercalls (sdpisolver s') = [LoadAndSolveWithPenalty_call 1 False False, LoadAndSolve_call]"
proof -
  obtain c1 s2 n c3 idx contr s1 nbn rows cols vals s3 r s5 where
    copy: "for_loop 0 (nvars (solve_reset sdpi_twovar)) copy_bound (solve_reset sdpi_twovar) = Inr c1"
    and nf1: "\<not> infeasible (ctl_state c1)"
    and prep: "prepare_loop (ctl_state c1) = Inr (s2, n)"
    and nf2: "\<not> infeasible s2"
    and cnt: "for_loop 0 (nvars s2) (count_active s2) (0, - 1, 0) = Inr c3"
    and act: "ctl_state c3 = (2, idx, contr)"
    and asetup: "active_setup env_infeas s2 2 idx contr = Inr (s1, nbn, rows, cols, vals)"
    and ns: "\<not> solved s1"
    and prim: "primary_solve env_infeas n s1 nbn rows cols vals = Inr s3"
    and na: "\<not> IsAcceptable (sdpisolver s3)" "\<not> IsTimelimExc (sdpisolver s3)"
    and c3: "solvercalls (sdpisolver s3) = [LoadAndSolve_call]"
    and call: "call_solver env_infeas (LoadAndSolveWithPenalty_call 1 False False) s3 = Inr r"
    and stats: "add_stats (fst r) = Inr s5"
    and q: "GetObjval_ret (sdpisolver s5) = SCIP_OKAY" "WasSolved (sdpisolver s5)"
      "IsDualInfeasible (sdpisolver s5)"
    using sdpi_twovar_path by blast
  have id: "sdpid sdpi_twovar = 1" "INT_MIN \<le> sdpid sdpi_twovar" "sdpid sdpi_twovar < INT_MAX"
    by (simp_all add: sdpi_twovar_def sdpi_empty_def INT_MIN_def INT_MAX_def)
  have tl: "(0::real) < 1" and two: "(2::int) \<noteq> 0" by simp_all
  from penalty_feasibility_check[OF tl copy nf1 prep nf2 cnt act two asetup ns prim na call stats _ _ id(2,3),
        of 0 False] q c3 id(1)
  show ?thesis by simp
qed

text \<open>
  Claim C4 as stated fails when the backend reports dual infeasibility without reporting
  that it solved the problem: the interface does not record infeasibility, it goes on to the
  loop that increases the penalty parameter and calls the backend a third time.
\<close>

theorem penalty_feasibility_check_counterexample:
  "IsDualInfeasible (ls_solver (LoadAndSolve env_unsolved 1))
   \<and> \<not> WasSolved (ls_solver (LoadAndSolve env_unsolved 1))
   \<and> solve_view (SCIPsdpiSolve env_unsolved 1 (sdpi_twovar\<lparr>npenaltyincr := 0\<rparr>) False 1)
       = Some (Inr ((False, False, False, True), 2,
            [LoadAndSolveWithPenalty_call (10 ^ 5) True True,
             LoadAndSolveWithPenalty_call 1 False False, LoadAndSolve_call]))"
  by (simp add: solve_view_def flags_def solve_defs backend_defs prepare_loop_unfold ev
        env_unsolved_def env_plain_def sdpi_twovar_def sdpi_empty_def solver_empty_def Let_def)

section \<open>The loop that increases the penalty parameter\<close>

lemma penalty_factors_nonneg:
  assumes "0 < penaltyparam s" "penaltyparam s \<le> maxpenaltyparam s" "MIN_GAPTOL < gaptol s"
  shows "1 \<le> fst (penalty_factors s)" "0 \<le> snd (penalty_factors s)" "snd (penalty_factors s) < 1"
proof -
  have m: "0 < MIN_GAPTOL" by (simp add: MIN_GAPTOL_def)
  have q: "1 \<le> maxpenaltyparam s / penaltyparam s" using assms(1,2) by simp
  have g: "0 < MIN_GAPTOL / gaptol s" "MIN_GAPTOL / gaptol s < 1" using assms(3) m by simp_all
  show "1 \<le> fst (penalty_factors s)"
  proof (cases "npenaltyincr s > 0")
    case True
    then show ?thesis using ge_one_powr_ge_zero[OF q, of "1 / real_of_int (npenaltyincr s)"]
      by (simp add: penalty_factors_def)
  next
    case False
    then show ?thesis using q by (simp add: penalty_factors_def)
  qed
  show "0 \<le> snd (penalty_factors s)"
    using g(1) by (simp add: penalty_factors_def)
  show "snd (penalty_factors s) < 1"
  proof (cases "npenaltyincr s > 0")
    case True
    then have "0 < 1 / real_of_int (npenaltyincr s)" by simp
    from powr_less_mono2[OF this _ g(2)] g(1) True show ?thesis
      by (simp add: penalty_factors_def)
  next
    case False
    then show ?thesis using g by (simp add: penalty_factors_def)
  qed
qed

text \<open>
  The factor of the penalty parameter is at least 1 and the factor of the gap tolerance lies
  in \<open>[0, 1)\<close>.  When \<open>n + 1\<close> increases take the penalty parameter to
  \<open>maxpenaltyparam + epsilon\<close> or beyond and \<open>n + 1\<close> decreases take the gap tolerance to
  \<open>0.99 * MIN_GAPTOL\<close> or below, \<open>n = npenaltyincr\<close>, the loop ends within \<open>2 * n + 1\<close> rounds.
\<close>

lemma penalty_loop_ends:
  assumes cf: "0 < penaltyparam s" "penaltyparam s \<le> maxpenaltyparam s" "0 \<le> npenaltyincr s"
      "MIN_GAPTOL < gaptol s"
    and top: "maxpenaltyparam s + epsilon s
              \<le> penaltyparam s * fst (penalty_factors s) ^ (nat (npenaltyincr s) + 1)"
    and bot: "gaptol s * snd (penalty_factors s) ^ (nat (npenaltyincr s) + 1)
              \<le> (99 / 100) * MIN_GAPTOL"
  shows "1 \<le> fst (penalty_factors s) \<and> 0 \<le> snd (penalty_factors s) \<and> snd (penalty_factors s) < 1
       \<and> (\<exists>r. penalty_loop e (fst (penalty_factors s)) (snd (penalty_factors s))
                 (2 * nat (npenaltyincr s) + 1) (s, penaltyparam s, gaptol s, False, True) = Some r
              \<and> (\<forall>st'. r = Inr st' \<longrightarrow> \<not> penalty_cond st'
                    \<and> (\<exists>cs. solvercalls (sdpisolver (fst st')) = cs @ solvercalls (sdpisolver s)
                           \<and> length cs \<le> 2 * nat (npenaltyincr s) + 1)))"
proof -
  note f = penalty_factors_nonneg[OF cf(1,2,4)]
  from f(1) have pf: "0 \<le> fst (penalty_factors s)" by simp
  have "\<exists>r. penalty_loop e (fst (penalty_factors s)) (snd (penalty_factors s))
                 (2 * nat (npenaltyincr s) + 1) (s, penaltyparam s, gaptol s, False, True) = Some r"
    by (rule penalty_loop_terminates[OF pf f(2) top bot, of 0 0])
       (simp_all add: cfg_def)
  then obtain r where r: "penalty_loop e (fst (penalty_factors s)) (snd (penalty_factors s))
                 (2 * nat (npenaltyincr s) + 1) (s, penaltyparam s, gaptol s, False, True) = Some r"
    by blast
  have "\<not> penalty_cond st'
        \<and> (\<exists>cs. solvercalls (sdpisolver (fst st')) = cs @ solvercalls (sdpisolver s)
               \<and> length cs \<le> 2 * nat (npenaltyincr s) + 1)" if "r = Inr st'" for st'
    using penalty_loop_result[OF r[unfolded that]] by simp
  with r f show ?thesis by blast
qed

lemma stuck_step:
  assumes "stuck st"
  shows "\<exists>st'. penalty_step env_plain 1 gf st = Inr st' \<and> stuck st'"
proof -
  obtain s pp g fo pb where st: "st = (s, pp, g, fo, pb)" by (cases st)
  from assms show ?thesis
    by (simp add: st stuck_def penalty_step_def call_solver_def add_stats_def env_plain_def
          solver_empty_def int_add_def ev Let_def)
qed

lemma stuck_loop: "stuck st \<Longrightarrow> penalty_loop env_plain 1 gf fuel st = None"
proof (induction fuel arbitrary: st)
  case 0
  then show ?case by (auto simp: stuck_def penalty_cond_def MIN_GAPTOL_def)
next
  case (Suc fuel)
  from stuck_step[OF Suc.prems, of gf] obtain st' where
    s: "penalty_step env_plain 1 gf st = Inr st'" "stuck st'" by blast
  have "penalty_cond st" using Suc.prems
    by (auto simp: stuck_def penalty_cond_def MIN_GAPTOL_def)
  with s Suc.IH[OF s(2)] show ?case by simp
qed

lemma env_plain_sel:
  "alloc_ok env_plain = True" "scip_debug env_plain = False"
  "LoadAndSolve env_plain k = \<lparr>ls_ret = SCIP_OKAY, ls_solver = solver_empty, ls_feasorig = False,
                                 ls_penaltybound = True\<rparr>"
  "SetRealpar_ret env_plain = SCIP_OKAY" "IncreaseCounter_ret env_plain = SCIP_OKAY"
  by (simp_all add: env_plain_def)

text \<open>
  Claim C2 fails on the code.  \<^verbatim>\<open>SCIPsdpiComputeMaxPenaltyparam\<close> lowers the penalty
  parameter to the maximal one when the backend computes a maximum below it: from the
  default parameters and the maximum 1 it makes \<open>penaltyparam = maxpenaltyparam = 1\<close>, a
  configuration of the claim.  With \<open>npenaltyincr = 1\<close> the factor of the penalty parameter
  then is \<open>pow(1, 1) = 1\<close>.  With two variables in \<open>[0, 1]\<close> and a backend that never finds an
  acceptable solution, every round of the loop leaves the penalty parameter and the gap
  tolerance as they are and the condition of the loop true: whatever the number of rounds
  allowed, the call of \<^verbatim>\<open>SCIPsdpiSolve\<close> has not returned.
\<close>

theorem penalty_loop_never_ends:
  "SCIPsdpiComputeMaxPenaltyparam (SCIP_OKAY, 1) (sdpi_twovar\<lparr>npenaltyincr := 1\<rparr>) (10 ^ 5)
     = Inr (sdpi_stuck, 1)
   \<and> 0 < penaltyparam sdpi_stuck \<and> penaltyparam sdpi_stuck \<le> maxpenaltyparam sdpi_stuck
   \<and> 0 \<le> npenaltyincr sdpi_stuck \<and> MIN_GAPTOL < gaptol sdpi_stuck
   \<and> (\<forall>fuel. SCIPsdpiSolve env_plain fuel sdpi_stuck False 1 = None)"
proof -
  have "SCIPsdpiComputeMaxPenaltyparam (SCIP_OKAY, 1) (sdpi_twovar\<lparr>npenaltyincr := 1\<rparr>) (10 ^ 5)
     = Inr (sdpi_stuck, 1)"
    by (simp add: SCIPsdpiComputeMaxPenaltyparam_def ev sdpi_stuck_def sdpi_twovar_def
          sdpi_empty_def Let_def)
  moreover have "0 < penaltyparam sdpi_stuck \<and> penaltyparam sdpi_stuck \<le> maxpenaltyparam sdpi_stuck
   \<and> 0 \<le> npenaltyincr sdpi_stuck \<and> MIN_GAPTOL < gaptol sdpi_stuck"
    by (simp add: sdpi_stuck_def sdpi_twovar_def sdpi_empty_def MIN_GAPTOL_def)
  moreover have "\<forall>fuel. SCIPsdpiSolve env_plain fuel sdpi_stuck False 1 = None"
    by (simp add: solve_defs backend_defs prepare_loop_unfold ev env_plain_sel sdpi_stuck_def
        sdpi_twovar_def sdpi_empty_def solver_empty_def Let_def stuck_loop stuck_def)
  ultimately show ?thesis by blast
qed

end
